theory Spec2Isabelle
  imports Complex_Main "HOL-Library.Char_ord" "HOL-Library.List_Lexorder"
    "HOL-Library.Product_Lexorder"
begin

section \<open>Values\<close>

text \<open>
  A float64 as numpy and pandas see it: a finite number, the missing marker NaN, or one of
  the two infinities. Finite values are modelled as reals. The arithmetic of this section
  is exact; where a property depends on the rounding or the overflow of an operation (the
  mean of two values in a median, the difference of two rates), that operation is a
  parameter of the model.
\<close>

datatype npfloat = Fin real | NaN | PInf | NInf

datatype py_error =
    KeyError string
  | ValueError
  | TypeError
  | IndexError
  | OverflowError
  | AttributeError string

text \<open>
  numpy's true division of two integers (\<^verbatim>\<open>np.int64 / np.int64\<close>): a zero divisor gives an
  infinity or NaN together with a RuntimeWarning, never an exception.
\<close>

definition int_true_divide :: "int \<Rightarrow> int \<Rightarrow> npfloat" where
  "int_true_divide a b =
     (if b = 0 then (if a = 0 then NaN else if 0 < a then PInf else NInf)
      else Fin (real_of_int a / real_of_int b))"

text \<open>
  Float arithmetic on these values, as IEEE 754 and numpy define it; the sign of a zero is
  not modelled, so a division of a non-zero number by zero takes the sign of the dividend.
\<close>

fun np_neg :: "npfloat \<Rightarrow> npfloat" where
  "np_neg (Fin a) = Fin (- a)"
| "np_neg NaN = NaN"
| "np_neg PInf = NInf"
| "np_neg NInf = PInf"

fun np_add :: "npfloat \<Rightarrow> npfloat \<Rightarrow> npfloat" where
  "np_add (Fin a) (Fin b) = Fin (a + b)"
| "np_add NaN y = NaN"
| "np_add x NaN = NaN"
| "np_add PInf NInf = NaN"
| "np_add NInf PInf = NaN"
| "np_add PInf y = PInf"
| "np_add NInf y = NInf"
| "np_add x PInf = PInf"
| "np_add x NInf = NInf"

definition np_sub :: "npfloat \<Rightarrow> npfloat \<Rightarrow> npfloat" where
  "np_sub x y = np_add x (np_neg y)"

definition sign_inf :: "bool \<Rightarrow> npfloat" where
  "sign_inf positive = (if positive then PInf else NInf)"

fun np_mul :: "npfloat \<Rightarrow> npfloat \<Rightarrow> npfloat" where
  "np_mul (Fin a) (Fin b) = Fin (a * b)"
| "np_mul NaN y = NaN"
| "np_mul x NaN = NaN"
| "np_mul PInf (Fin b) = (if b = 0 then NaN else sign_inf (0 < b))"
| "np_mul NInf (Fin b) = (if b = 0 then NaN else sign_inf (b < 0))"
| "np_mul (Fin a) PInf = (if a = 0 then NaN else sign_inf (0 < a))"
| "np_mul (Fin a) NInf = (if a = 0 then NaN else sign_inf (a < 0))"
| "np_mul PInf PInf = PInf"
| "np_mul NInf NInf = PInf"
| "np_mul PInf NInf = NInf"
| "np_mul NInf PInf = NInf"

fun np_div :: "npfloat \<Rightarrow> npfloat \<Rightarrow> npfloat" where
  "np_div (Fin a) (Fin b) =
     (if b = 0 then (if a = 0 then NaN else sign_inf (0 < a)) else Fin (a / b))"
| "np_div NaN y = NaN"
| "np_div x NaN = NaN"
| "np_div (Fin a) PInf = Fin 0"
| "np_div (Fin a) NInf = Fin 0"
| "np_div PInf (Fin b) = sign_inf (0 \<le> b)"
| "np_div NInf (Fin b) = sign_inf (b < 0)"
| "np_div PInf PInf = NaN"
| "np_div PInf NInf = NaN"
| "np_div NInf PInf = NaN"
| "np_div NInf NInf = NaN"

text \<open>The comparison \<^verbatim>\<open>x > t\<close> with a finite \<open>t\<close>: false for NaN.\<close>

fun np_gt :: "npfloat \<Rightarrow> real \<Rightarrow> bool" where
  "np_gt (Fin a) t = (t < a)"
| "np_gt PInf t = True"
| "np_gt NInf t = False"
| "np_gt NaN t = False"

definition is_inf :: "npfloat \<Rightarrow> bool" where
  "is_inf x = (x = PInf \<or> x = NInf)"

definition is_fin :: "npfloat \<Rightarrow> bool" where
  "is_fin x = (case x of Fin r \<Rightarrow> True | _ \<Rightarrow> False)"

section \<open>Frames\<close>

text \<open>
  A pandas column is either of a float dtype, every cell a float with NaN as the missing
  marker (integer columns are float columns without NaN here), or of the object dtype,
  every cell a Python object: a string or a float. A frame is the list of its named
  columns in their order. pandas expects the names of a frame to be distinct and its
  columns to have one length; the properties below say where they rely on that.
\<close>

datatype pyobj = Str string | Flt npfloat

datatype column = FloatCol "npfloat list" | ObjCol "pyobj list"

type_synonym frame = "(string \<times> column) list"

definition columns :: "frame \<Rightarrow> string list" where
  "columns df = map fst df"

fun col_len :: "column \<Rightarrow> nat" where
  "col_len (FloatCol xs) = length xs"
| "col_len (ObjCol xs) = length xs"

text \<open>\<^verbatim>\<open>len(df)\<close>: the number of rows, read off the first column.\<close>

definition nrows :: "frame \<Rightarrow> nat" where
  "nrows df = (case df of [] \<Rightarrow> 0 | (n, c) # rest \<Rightarrow> col_len c)"

definition rectangular :: "frame \<Rightarrow> bool" where
  "rectangular df = (distinct (columns df) \<and> list_all (\<lambda>(n, c). col_len c = nrows df) df)"

fun is_object :: "column \<Rightarrow> bool" where
  "is_object (ObjCol xs) = True"
| "is_object (FloatCol xs) = False"

text \<open>\<^verbatim>\<open>df[name]\<close>: KeyError for a name the frame does not have.\<close>

definition getitem :: "frame \<Rightarrow> string \<Rightarrow> py_error + column" where
  "getitem df name = (case map_of df name of None \<Rightarrow> Inl (KeyError name) | Some c \<Rightarrow> Inr c)"

text \<open>\<^verbatim>\<open>df[name] = c\<close>: replaces the column of that name in place, or appends a new one.\<close>

definition setitem :: "frame \<Rightarrow> string \<Rightarrow> column \<Rightarrow> frame" where
  "setitem df name c =
     (if name \<in> set (columns df) then map (\<lambda>(n, old). if n = name then (n, c) else (n, old)) df
      else df @ [(name, c)])"

text \<open>\<^verbatim>\<open>df.drop(columns=names)\<close>: KeyError for a name the frame does not have.\<close>

definition drop_columns :: "string list \<Rightarrow> frame \<Rightarrow> py_error + frame" where
  "drop_columns names df =
     (case filter (\<lambda>n. n \<notin> set (columns df)) names of
        [] \<Rightarrow> Inr (filter (\<lambda>(n, c). n \<notin> set names) df)
      | n # rest \<Rightarrow> Inl (KeyError n))"

text \<open>The cells of a column as Python objects.\<close>

fun cells :: "column \<Rightarrow> pyobj list" where
  "cells (FloatCol xs) = map Flt xs"
| "cells (ObjCol xs) = xs"

definition isnull_sum :: "column \<Rightarrow> nat" where
  "isnull_sum c = length (filter (\<lambda>x. x = Flt NaN) (cells c))"

text \<open>\<^verbatim>\<open>fillna(v)\<close> with a float \<open>v\<close>; with NaN for \<open>v\<close> every cell stays as it is.\<close>

fun fillna :: "npfloat \<Rightarrow> column \<Rightarrow> column" where
  "fillna v (FloatCol xs) = FloatCol (map (\<lambda>x. if x = NaN then v else x) xs)"
| "fillna v (ObjCol xs) = ObjCol (map (\<lambda>x. if x = Flt NaN then Flt v else x) xs)"

text \<open>\<^verbatim>\<open>replace([np.inf, -np.inf], np.nan)\<close>.\<close>

fun replace_inf :: "column \<Rightarrow> column" where
  "replace_inf (FloatCol xs) = FloatCol (map (\<lambda>x. if is_inf x then NaN else x) xs)"
| "replace_inf (ObjCol xs) =
     ObjCol (map (\<lambda>x. case x of Flt y \<Rightarrow> (if is_inf y then Flt NaN else x) | Str s \<Rightarrow> x) xs)"

text \<open>
  The median as pandas computes it: NaN is skipped and the infinities take part. The
  values in ascending order are the minus infinities, the finite values, the plus
  infinities; an empty selection gives NaN, and with an even count the two middle values
  are averaged in float64 arithmetic. The average of two finite values is the parameter
  \<open>avg\<close>: their sum can overflow to an infinity and the quotient is rounded, and nothing is
  fixed here about either. With an infinite operand the average is an infinity or NaN.
\<close>

definition sorted_values :: "npfloat list \<Rightarrow> npfloat list" where
  "sorted_values xs =
     filter (\<lambda>x. x = NInf) xs
     @ map Fin (sort (concat (map (\<lambda>x. case x of Fin r \<Rightarrow> [r] | _ \<Rightarrow> []) xs)))
     @ filter (\<lambda>x. x = PInf) xs"

fun mean_of_two :: "(real \<Rightarrow> real \<Rightarrow> npfloat) \<Rightarrow> npfloat \<Rightarrow> npfloat \<Rightarrow> npfloat" where
  "mean_of_two avg (Fin a) (Fin b) = avg a b"
| "mean_of_two avg x y = np_div (np_add x y) (Fin 2)"

definition np_median :: "(real \<Rightarrow> real \<Rightarrow> npfloat) \<Rightarrow> npfloat list \<Rightarrow> npfloat" where
  "np_median avg xs =
     (let v = sorted_values xs; n = length v
      in if n = 0 then NaN
         else if odd n then v ! (n div 2)
         else mean_of_two avg (v ! (n div 2 - 1)) (v ! (n div 2)))"

text \<open>The median of a column: TypeError on the object dtype.\<close>

fun median :: "(real \<Rightarrow> real \<Rightarrow> npfloat) \<Rightarrow> column \<Rightarrow> py_error + npfloat" where
  "median avg (FloatCol xs) = Inr (np_median avg xs)"
| "median avg (ObjCol xs) = Inl TypeError"

text \<open>
  The float64 mean of two values as numpy computes it, the sum first. The sum overflows to
  an infinity when its magnitude reaches \<open>2 ^ 1024 - 2 ^ 970\<close>, halfway between the largest
  float64 and \<open>2 ^ 1024\<close>; the constant below is that number written out
  (\<open>FLOAT64_OVERFLOW_value\<close>). The rounding of a mean that does not overflow is not
  modelled: this function is applied below only to values whose sum and half are exact in
  float64.
\<close>

definition FLOAT64_OVERFLOW :: real where
  "FLOAT64_OVERFLOW =
     179769313486231580793728971405303415079934132710037826936173778980444968292764750946649017977587207096330286416692887910946555547851940402630657488671505820681908902000708383676273854845817711531764475730270069855571366959622842914819860834936475292719074168444365510704342711559699508093042880177904174497792"

definition float64_mean :: "real \<Rightarrow> real \<Rightarrow> npfloat" where
  "float64_mean a b =
     (if FLOAT64_OVERFLOW \<le> a + b then PInf
      else if a + b \<le> - FLOAT64_OVERFLOW then NInf
      else Fin ((a + b) / 2))"

text \<open>What the reconciled frames are checked for.\<close>

definition no_nan :: "column \<Rightarrow> bool" where
  "no_nan c = list_all (\<lambda>x. x \<noteq> Flt NaN) (cells c)"

definition no_inf :: "column \<Rightarrow> bool" where
  "no_inf c = list_all (\<lambda>x. x \<noteq> Flt PInf \<and> x \<noteq> Flt NInf) (cells c)"

text \<open>
  A training column from which a finite median can be taken: a float column with a finite
  value, or an object column (its label codes are finite).
\<close>

definition has_finite :: "column \<Rightarrow> bool" where
  "has_finite c = (case c of FloatCol xs \<Rightarrow> list_ex is_fin xs | ObjCol xs \<Rightarrow> True)"

text \<open>
  A training column no median of which can overflow: a float column whose finite values
  are within the bound \<open>B\<close> in magnitude, or an object column (its label codes take part in
  no median that fills a cell).
\<close>

definition bounded_by :: "real \<Rightarrow> column \<Rightarrow> bool" where
  "bounded_by B c =
     (case c of
        FloatCol xs \<Rightarrow> list_all (\<lambda>x. case x of Fin r \<Rightarrow> \<bar>r\<bar> \<le> B | _ \<Rightarrow> True) xs
      | ObjCol xs \<Rightarrow> True)"

section \<open>Schema reconciliation (preprocess.py, \<^verbatim>\<open>preprocess_data\<close>)\<close>

text \<open>
  \<^verbatim>\<open>astype(str)\<close>: a string stays, NaN becomes the string \<^verbatim>\<open>nan\<close>, the infinities
  \<^verbatim>\<open>inf\<close> and \<^verbatim>\<open>-inf\<close>; the digits Python prints for a finite float are the parameter
  \<open>float_repr\<close>.
\<close>

fun cell_str :: "(real \<Rightarrow> string) \<Rightarrow> pyobj \<Rightarrow> string" where
  "cell_str float_repr (Str s) = s"
| "cell_str float_repr (Flt (Fin r)) = float_repr r"
| "cell_str float_repr (Flt NaN) = ''nan''"
| "cell_str float_repr (Flt PInf) = ''inf''"
| "cell_str float_repr (Flt NInf) = ''-inf''"

definition astype_str :: "(real \<Rightarrow> string) \<Rightarrow> column \<Rightarrow> string list" where
  "astype_str float_repr c = map (cell_str float_repr) (cells c)"

text \<open>
  \<^verbatim>\<open>LabelEncoder.fit_transform\<close>: the classes are the distinct values in ascending order
  and the code of a value is its position among the classes.
\<close>

fun index_of :: "'a list \<Rightarrow> 'a \<Rightarrow> nat" where
  "index_of [] y = 0"
| "index_of (x # xs) y = (if x = y then 0 else Suc (index_of xs y))"

definition classes :: "string list \<Rightarrow> string list" where
  "classes ys = sort (remdups ys)"

definition fit_transform :: "string list \<Rightarrow> nat list" where
  "fit_transform ys = map (index_of (classes ys)) ys"

definition int_column :: "nat list \<Rightarrow> column" where
  "int_column codes = FloatCol (map (\<lambda>k. Fin (real k)) codes)"

text \<open>The loop over the categorical columns (lines 236 to 241).\<close>

fun encode_loop :: "(real \<Rightarrow> string) \<Rightarrow> string list \<Rightarrow> frame \<Rightarrow> frame \<Rightarrow> py_error + frame \<times> frame"
  where
  "encode_loop float_repr [] train_df test_df = Inr (train_df, test_df)"
| "encode_loop float_repr (col # cols) train_df test_df =
     (case getitem train_df col of
        Inl e \<Rightarrow> Inl e
      | Inr train_col \<Rightarrow>
          (case getitem test_df col of
             Inl e \<Rightarrow> Inl e
           | Inr test_col \<Rightarrow>
               (let combined = astype_str float_repr train_col @ astype_str float_repr test_col;
                    combined_encoded = fit_transform combined;
                    n = nrows train_df
                in encode_loop float_repr cols
                     (setitem train_df col (int_column (take n combined_encoded)))
                     (setitem test_df col (int_column (drop n combined_encoded))))))"

text \<open>
  \<^verbatim>\<open>train_df.align(test_df, join='inner', axis=1)\<close>: the names both frames have, in the
  order of the left frame, selected from each.
\<close>

definition reindex :: "string list \<Rightarrow> frame \<Rightarrow> frame" where
  "reindex names df = List.map_filter (\<lambda>n. map_option (Pair n) (map_of df n)) names"

definition align_inner :: "frame \<Rightarrow> frame \<Rightarrow> frame \<times> frame" where
  "align_inner left right =
     (let common = filter (\<lambda>n. n \<in> set (columns right)) (columns left)
      in (reindex common left, reindex common right))"

definition MISSING_THRESHOLD :: real where
  "MISSING_THRESHOLD = 7 / 10"

text \<open>\<^verbatim>\<open>train_df.isnull().sum() / len(train_df) * 100\<close>.\<close>

definition missing_pct :: "frame \<Rightarrow> (string \<times> npfloat) list" where
  "missing_pct df =
     map (\<lambda>(n, c). (n, np_mul (int_true_divide (int (isnull_sum c)) (int (nrows df))) (Fin 100)))
       df"

definition high_missing_cols :: "frame \<Rightarrow> string list" where
  "high_missing_cols df =
     map fst (filter (\<lambda>(n, p). np_gt p (MISSING_THRESHOLD * 100)) (missing_pct df))"

text \<open>The imputation loop over the columns of the training frame (lines 262 to 266).\<close>

fun impute_loop :: "(real \<Rightarrow> real \<Rightarrow> npfloat) \<Rightarrow> string list \<Rightarrow> frame \<Rightarrow> frame \<Rightarrow> py_error + frame \<times> frame" where
  "impute_loop avg [] train_df test_df = Inr (train_df, test_df)"
| "impute_loop avg (col # cols) train_df test_df =
     (case getitem train_df col of
        Inl e \<Rightarrow> Inl e
      | Inr train_col \<Rightarrow>
          (if 0 < isnull_sum train_col
           then (case median avg train_col of
                   Inl e \<Rightarrow> Inl e
                 | Inr fill_value \<Rightarrow>
                     (case getitem test_df col of
                        Inl e \<Rightarrow> Inl e
                      | Inr test_col \<Rightarrow>
                          impute_loop avg cols
                            (setitem train_df col (fillna fill_value train_col))
                            (setitem test_df col (fillna fill_value test_col))))
           else impute_loop avg cols train_df test_df))"

text \<open>\<^verbatim>\<open>df.median()\<close>: the median of every column, by name.\<close>

fun median_frame :: "(real \<Rightarrow> real \<Rightarrow> npfloat) \<Rightarrow> frame \<Rightarrow> py_error + (string \<times> npfloat) list" where
  "median_frame avg [] = Inr []"
| "median_frame avg ((n, c) # df) =
     (case median avg c of
        Inl e \<Rightarrow> Inl e
      | Inr m \<Rightarrow> (case median_frame avg df of Inl e \<Rightarrow> Inl e | Inr ms \<Rightarrow> Inr ((n, m) # ms)))"

text \<open>\<^verbatim>\<open>df.fillna(medians)\<close>: each column is filled with the value under its own name.\<close>

definition fillna_frame :: "(string \<times> npfloat) list \<Rightarrow> frame \<Rightarrow> frame" where
  "fillna_frame medians df =
     map (\<lambda>(n, c). (n, case map_of medians n of None \<Rightarrow> c | Some m \<Rightarrow> fillna m c)) df"

definition replace_inf_frame :: "frame \<Rightarrow> frame" where
  "replace_inf_frame df = map (\<lambda>(n, c). (n, replace_inf c)) df"

text \<open>Lines 252 to 273: the missing values and the infinities.\<close>

definition handle_missing :: "(real \<Rightarrow> real \<Rightarrow> npfloat) \<Rightarrow> frame \<Rightarrow> frame \<Rightarrow> py_error + frame \<times> frame" where
  "handle_missing avg train_df test_df =
     (let high = high_missing_cols train_df in
      case (if 0 < length high
            then (case drop_columns high train_df of
                    Inl e \<Rightarrow> Inl e
                  | Inr tr \<Rightarrow>
                      (case drop_columns high test_df of
                         Inl e \<Rightarrow> Inl e
                       | Inr te \<Rightarrow> Inr (tr, te)))
            else Inr (train_df, test_df)) of
        Inl e \<Rightarrow> Inl e
      | Inr (train1, test1) \<Rightarrow>
          (case impute_loop avg (columns train1) train1 test1 of
             Inl e \<Rightarrow> Inl e
           | Inr (train2, test2) \<Rightarrow>
               (let train3 = replace_inf_frame train2;
                    test3 = replace_inf_frame test2
                in case median_frame avg train3 of
                     Inl e \<Rightarrow> Inl e
                   | Inr medians \<Rightarrow>
                       (let train4 = fillna_frame medians train3
                        in case median_frame avg train4 of
                             Inl e \<Rightarrow> Inl e
                           | Inr medians4 \<Rightarrow> Inr (train4, fillna_frame medians4 test3)))))"

text \<open>
  \<^verbatim>\<open>preprocess_data\<close> (lines 212 to 279). The result holds the two feature frames, the
  target column and the two identifier columns.
\<close>

definition preprocess_data ::
  "(real \<Rightarrow> string) \<Rightarrow> (real \<Rightarrow> real \<Rightarrow> npfloat) \<Rightarrow> frame \<Rightarrow> frame \<Rightarrow> string
     \<Rightarrow> py_error + frame \<times> frame \<times> column \<times> column \<times> column" where
  "preprocess_data float_repr avg train_df0 test_df target =
     (case getitem train_df0 target of
        Inl e \<Rightarrow> Inl e
      | Inr y_train \<Rightarrow>
     (case drop_columns [target] train_df0 of
        Inl e \<Rightarrow> Inl e
      | Inr train_df \<Rightarrow>
     (case getitem train_df ''SK_ID_CURR'' of
        Inl e \<Rightarrow> Inl e
      | Inr train_ids \<Rightarrow>
     (case getitem test_df ''SK_ID_CURR'' of
        Inl e \<Rightarrow> Inl e
      | Inr test_ids \<Rightarrow>
     (let categorical_cols = map fst (filter (\<lambda>(n, c). is_object c) train_df) in
      case encode_loop float_repr categorical_cols train_df test_df of
        Inl e \<Rightarrow> Inl e
      | Inr (train1, test1) \<Rightarrow>
     (case drop_columns [''SK_ID_CURR''] train1 of
        Inl e \<Rightarrow> Inl e
      | Inr train2 \<Rightarrow>
     (case drop_columns [''SK_ID_CURR''] test1 of
        Inl e \<Rightarrow> Inl e
      | Inr test2 \<Rightarrow>
     (case align_inner train2 test2 of
        (train3, test3) \<Rightarrow>
     (case handle_missing avg train3 test3 of
        Inl e \<Rightarrow> Inl e
      | Inr (train4, test4) \<Rightarrow> Inr (train4, test4, y_train, train_ids, test_ids))))))))))"

text \<open>
  The effect of lines 252 to 273 on one retained column, from the training values \<open>xs\<close>
  of the column and its test column: the value the imputation loop fills in (NaN when the
  loop skips the column), the training values after the loop and the replacement of the
  infinities, the final training values, and the final test column. That
  \<^const>\<open>handle_missing\<close> stores exactly these is proved below (\<open>handle_missing_column\<close>).
\<close>

definition loop_fill_value :: "(real \<Rightarrow> real \<Rightarrow> npfloat) \<Rightarrow> npfloat list \<Rightarrow> npfloat" where
  "loop_fill_value avg xs = (if NaN \<in> set xs then np_median avg xs else NaN)"

definition cleaned_values :: "(real \<Rightarrow> real \<Rightarrow> npfloat) \<Rightarrow> npfloat list \<Rightarrow> npfloat list" where
  "cleaned_values avg xs =
     map (\<lambda>x. if is_inf x then NaN else x)
       (map (\<lambda>x. if x = NaN then loop_fill_value avg xs else x) xs)"

definition final_train_values :: "(real \<Rightarrow> real \<Rightarrow> npfloat) \<Rightarrow> npfloat list \<Rightarrow> npfloat list" where
  "final_train_values avg xs =
     map (\<lambda>x. if x = NaN then np_median avg (cleaned_values avg xs) else x)
       (cleaned_values avg xs)"

definition final_test_column :: "(real \<Rightarrow> real \<Rightarrow> npfloat) \<Rightarrow> npfloat list \<Rightarrow> column \<Rightarrow> column" where
  "final_test_column avg xs test_col =
     fillna (np_median avg (final_train_values avg xs))
       (replace_inf (fillna (loop_fill_value avg xs) test_col))"

text \<open>
  What one round of the encoding loop stores for a categorical column, from its training
  column and its test column (\<open>encode_loop_columns\<close> below).
\<close>

definition encoded_train :: "(real \<Rightarrow> string) \<Rightarrow> column \<Rightarrow> column \<Rightarrow> column" where
  "encoded_train float_repr train_col test_col =
     int_column (map (index_of (classes (astype_str float_repr train_col @ astype_str float_repr test_col)))
                   (astype_str float_repr train_col))"

definition encoded_test :: "(real \<Rightarrow> string) \<Rightarrow> column \<Rightarrow> column \<Rightarrow> column" where
  "encoded_test float_repr train_col test_col =
     int_column (map (index_of (classes (astype_str float_repr train_col @ astype_str float_repr test_col)))
                   (astype_str float_repr test_col))"

text \<open>
  The missing fraction the specification speaks of: the number of missing cells of a column
  over its number of rows, compared with \<^const>\<open>MISSING_THRESHOLD\<close> itself. The code
  compares a percentage with a hundred times the threshold (\<^const>\<open>high_missing_cols\<close>);
  that the two agree is proved below (\<open>high_missing_cols_iff\<close>).
\<close>

definition spec_missing_fraction :: "column \<Rightarrow> real" where
  "spec_missing_fraction c = real (isnull_sum c) / real (col_len c)"

text \<open>The code that the encoding of a categorical column gives the string \<^verbatim>\<open>nan\<close>.\<close>

definition nan_code :: "(real \<Rightarrow> string) \<Rightarrow> column \<Rightarrow> column \<Rightarrow> nat" where
  "nan_code float_repr train_col test_col =
     index_of (classes (astype_str float_repr train_col @ astype_str float_repr test_col)) ''nan''"

section \<open>Example frames\<close>

text \<open>
  A small applicant table and its test split: a categorical column with a missing value, a
  column three quarters missing in training, and a column with a missing and an infinite
  value.
\<close>

definition example_train :: frame where
  "example_train =
     [(''SK_ID_CURR'', FloatCol [Fin 1, Fin 2, Fin 3, Fin 4]),
      (''TARGET'', FloatCol [Fin 0, Fin 1, Fin 0, Fin 0]),
      (''KIND'', ObjCol [Str ''cash'', Flt NaN, Str ''card'', Str ''cash'']),
      (''OWN_CAR_AGE'', FloatCol [Fin 5, NaN, NaN, NaN]),
      (''CREDIT_TERM'', FloatCol [Fin 5, NaN, Fin 7, PInf])]"

definition example_test :: frame where
  "example_test =
     [(''SK_ID_CURR'', FloatCol [Fin 9, Fin 8]),
      (''CREDIT_TERM'', FloatCol [NaN, NInf]),
      (''OWN_CAR_AGE'', FloatCol [Fin 5, NaN]),
      (''KIND'', ObjCol [Str ''revolving'', Flt NaN])]"

text \<open>
  A training table whose ratio column is infinite in every row, with a test split that
  holds a string in a column that is numeric in training.
\<close>

definition degenerate_train :: frame where
  "degenerate_train =
     [(''SK_ID_CURR'', FloatCol [Fin 1, Fin 2]),
      (''TARGET'', FloatCol [Fin 0, Fin 1]),
      (''CREDIT_TERM'', FloatCol [PInf, PInf]),
      (''REGION'', FloatCol [Fin 1, Fin 2])]"

definition degenerate_test :: frame where
  "degenerate_test =
     [(''SK_ID_CURR'', FloatCol [Fin 3]),
      (''CREDIT_TERM'', FloatCol [Fin 5]),
      (''REGION'', ObjCol [Str ''XNA''])]"

text \<open>
  Twenty applicants: one column missing in fifteen rows (75 percent), one missing in
  thirteen rows (65 percent); and a test split of two rows.
\<close>

definition scenario_train :: frame where
  "scenario_train =
     [(''SK_ID_CURR'', FloatCol (map (\<lambda>k. Fin (real k)) [1 ..< 21])),
      (''TARGET'', FloatCol (replicate 18 (Fin 0) @ [Fin 1, Fin 1])),
      (''EXT_SOURCE_1'', FloatCol (replicate 15 NaN @ [Fin 1, Fin 2, Fin 3, Fin 4, Fin 5])),
      (''AMT_ANNUITY'',
         FloatCol (replicate 13 NaN @ [Fin 10, Fin 20, Fin 30, Fin 40, Fin 50, Fin 60, Fin 70]))]"

definition scenario_test :: frame where
  "scenario_test =
     [(''SK_ID_CURR'', FloatCol [Fin 21, Fin 22]),
      (''EXT_SOURCE_1'', FloatCol [Fin 1, NaN]),
      (''AMT_ANNUITY'', FloatCol [NaN, Fin 90])]"

text \<open>
  A training table with a ratio column that is missing in one row and infinite in most of
  the others.
\<close>

definition infinite_train :: frame where
  "infinite_train =
     [(''SK_ID_CURR'', FloatCol [Fin 1, Fin 2, Fin 3, Fin 4, Fin 5]),
      (''TARGET'', FloatCol [Fin 0, Fin 1, Fin 0, Fin 0, Fin 0]),
      (''CREDIT_TERM'', FloatCol [NaN, Fin 1, PInf, PInf, PInf])]"

definition infinite_test :: frame where
  "infinite_test =
     [(''SK_ID_CURR'', FloatCol [Fin 6]),
      (''CREDIT_TERM'', FloatCol [NaN])]"

text \<open>
  An installments ledger: three payments of applicant 2 and one of applicant 1; one
  payment is late and short, one has a scheduled amount of zero.
\<close>

definition example_installments :: frame where
  "example_installments =
     [(''SK_ID_PREV'', FloatCol [Fin 10, Fin 10, Fin 11, Fin 12]),
      (''SK_ID_CURR'', FloatCol [Fin 2, Fin 2, Fin 1, Fin 2]),
      (''NUM_INSTALMENT_VERSION'', FloatCol [Fin 1, Fin 2, Fin 1, Fin 1]),
      (''NUM_INSTALMENT_NUMBER'', FloatCol [Fin 1, Fin 2, Fin 1, Fin 3]),
      (''DAYS_INSTALMENT'', FloatCol [Fin (-30), Fin (-20), Fin (-7), Fin (-5)]),
      (''DAYS_ENTRY_PAYMENT'', FloatCol [Fin (-30), Fin (-18), Fin (-9), NaN]),
      (''AMT_INSTALMENT'', FloatCol [Fin 100, Fin 100, Fin 50, Fin 0]),
      (''AMT_PAYMENT'', FloatCol [Fin 100, Fin 80, Fin 50, NaN])]"

text \<open>The ledger after the aggregation has run on it, and the aggregated table.\<close>

definition example_installments_after :: frame where
  "example_installments_after =
     example_installments @
     [(''PAYMENT_DIFF'', FloatCol [Fin 0, Fin (- 20), Fin 0, NaN]),
      (''PAYMENT_RATIO'', FloatCol [Fin 1, Fin (4 / 5), Fin 1, NaN]),
      (''DAYS_PAYMENT_DELAY'', FloatCol [Fin 0, Fin 2, Fin (- 2), NaN])]"

definition example_inst_agg :: frame where
  "example_inst_agg =
     [(''SK_ID_CURR'', FloatCol [Fin 1, Fin 2]),
      (''INST_SK_ID_PREV_COUNT'', FloatCol [Fin 1, Fin 3]),
      (''INST_NUM_INSTALMENT_NUMBER_MAX'', FloatCol [Fin 1, Fin 3]),
      (''INST_NUM_INSTALMENT_NUMBER_MEAN'', FloatCol [Fin 1, Fin 2]),
      (''INST_NUM_INSTALMENT_VERSION_MAX'', FloatCol [Fin 1, Fin 2]),
      (''INST_DAYS_INSTALMENT_MIN'', FloatCol [Fin (- 7), Fin (- 30)]),
      (''INST_DAYS_INSTALMENT_MAX'', FloatCol [Fin (- 7), Fin (- 5)]),
      (''INST_DAYS_INSTALMENT_MEAN'', FloatCol [Fin (- 7), Fin (- (55 / 3))]),
      (''INST_DAYS_ENTRY_PAYMENT_MIN'', FloatCol [Fin (- 9), Fin (- 30)]),
      (''INST_DAYS_ENTRY_PAYMENT_MAX'', FloatCol [Fin (- 9), Fin (- 18)]),
      (''INST_DAYS_ENTRY_PAYMENT_MEAN'', FloatCol [Fin (- 9), Fin (- 24)]),
      (''INST_AMT_INSTALMENT_MIN'', FloatCol [Fin 50, Fin 0]),
      (''INST_AMT_INSTALMENT_MAX'', FloatCol [Fin 50, Fin 100]),
      (''INST_AMT_INSTALMENT_MEAN'', FloatCol [Fin 50, Fin (200 / 3)]),
      (''INST_AMT_INSTALMENT_SUM'', FloatCol [Fin 50, Fin 200]),
      (''INST_AMT_PAYMENT_MIN'', FloatCol [Fin 50, Fin 80]),
      (''INST_AMT_PAYMENT_MAX'', FloatCol [Fin 50, Fin 100]),
      (''INST_AMT_PAYMENT_MEAN'', FloatCol [Fin 50, Fin 90]),
      (''INST_AMT_PAYMENT_SUM'', FloatCol [Fin 50, Fin 180]),
      (''INST_PAYMENT_DIFF_MIN'', FloatCol [Fin 0, Fin (- 20)]),
      (''INST_PAYMENT_DIFF_MAX'', FloatCol [Fin 0, Fin 0]),
      (''INST_PAYMENT_DIFF_MEAN'', FloatCol [Fin 0, Fin (- 10)]),
      (''INST_PAYMENT_DIFF_SUM'', FloatCol [Fin 0, Fin (- 20)]),
      (''INST_PAYMENT_RATIO_MIN'', FloatCol [Fin 1, Fin (4 / 5)]),
      (''INST_PAYMENT_RATIO_MAX'', FloatCol [Fin 1, Fin 1]),
      (''INST_PAYMENT_RATIO_MEAN'', FloatCol [Fin 1, Fin (9 / 10)]),
      (''INST_DAYS_PAYMENT_DELAY_MIN'', FloatCol [Fin (- 2), Fin 0]),
      (''INST_DAYS_PAYMENT_DELAY_MAX'', FloatCol [Fin (- 2), Fin 2]),
      (''INST_DAYS_PAYMENT_DELAY_MEAN'', FloatCol [Fin (- 2), Fin 1])]"

section \<open>Ledger aggregation (preprocess.py)\<close>

subsection \<open>Arithmetic on columns\<close>

text \<open>
  A binary operator on two columns of one frame works row by row. On two numeric columns
  the result is numeric; when a column is of the object dtype the operator is applied to the
  Python objects, a string operand raises TypeError and the result is of the object dtype.
\<close>

fun obj_binop :: "(npfloat \<Rightarrow> npfloat \<Rightarrow> npfloat) \<Rightarrow> pyobj \<Rightarrow> pyobj \<Rightarrow> py_error + pyobj" where
  "obj_binop f (Flt a) (Flt b) = Inr (Flt (f a b))"
| "obj_binop f (Str a) y = Inl TypeError"
| "obj_binop f x (Str b) = Inl TypeError"

fun first_error :: "(py_error + 'a) list \<Rightarrow> py_error + 'a list" where
  "first_error [] = Inr []"
| "first_error (Inl e # rs) = Inl e"
| "first_error (Inr v # rs) = (case first_error rs of Inl e \<Rightarrow> Inl e | Inr vs \<Rightarrow> Inr (v # vs))"

fun col_binop :: "(npfloat \<Rightarrow> npfloat \<Rightarrow> npfloat) \<Rightarrow> column \<Rightarrow> column \<Rightarrow> py_error + column" where
  "col_binop f (FloatCol xs) (FloatCol ys) = Inr (FloatCol (map2 f xs ys))"
| "col_binop f c1 c2 =
     (case first_error (map2 (obj_binop f) (cells c1) (cells c2)) of
        Inl e \<Rightarrow> Inl e
      | Inr zs \<Rightarrow> Inr (ObjCol zs))"

text \<open>\<^verbatim>\<open>df[a] op df[b]\<close>: the left operand is looked up first.\<close>

definition frame_binop ::
  "(npfloat \<Rightarrow> npfloat \<Rightarrow> npfloat) \<Rightarrow> string \<Rightarrow> string \<Rightarrow> frame \<Rightarrow> py_error + column" where
  "frame_binop f a b df =
     (case getitem df a of
        Inl e \<Rightarrow> Inl e
      | Inr x \<Rightarrow> (case getitem df b of Inl e \<Rightarrow> Inl e | Inr y \<Rightarrow> col_binop f x y))"

text \<open>
  A run of assignments \<^verbatim>\<open>df[name] = rhs\<close> on one frame object. The result is the frame as
  the assignments left it and the exception that stopped them, if any: the assignments
  before the failing one have taken place.
\<close>

type_synonym assignment = "string \<times> (frame \<Rightarrow> py_error + column)"

fun assign_all :: "assignment list \<Rightarrow> frame \<Rightarrow> frame \<times> py_error option" where
  "assign_all [] df = (df, None)"
| "assign_all ((name, rhs) # rest) df =
     (case rhs df of
        Inl e \<Rightarrow> (df, Some e)
      | Inr c \<Rightarrow> assign_all rest (setitem df name c))"

subsection \<open>\<^verbatim>\<open>groupby(key).agg(dict)\<close>\<close>

text \<open>
  The aggregations of pandas on the values of one group: NaN is skipped; \<^verbatim>\<open>count\<close> is the
  number of values left, \<^verbatim>\<open>sum\<close> of none is 0, and \<^verbatim>\<open>min\<close>, \<^verbatim>\<open>max\<close> and \<^verbatim>\<open>mean\<close> of none
  are NaN.
\<close>

definition dropna :: "npfloat list \<Rightarrow> npfloat list" where
  "dropna g = filter (\<lambda>x. x \<noteq> NaN) g"

fun np_less :: "npfloat \<Rightarrow> npfloat \<Rightarrow> bool" where
  "np_less (Fin a) (Fin b) = (a < b)"
| "np_less NInf (Fin b) = True"
| "np_less NInf PInf = True"
| "np_less (Fin a) PInf = True"
| "np_less x y = False"

definition agg_count :: "npfloat list \<Rightarrow> npfloat" where
  "agg_count g = Fin (real (length (dropna g)))"

definition agg_sum :: "npfloat list \<Rightarrow> npfloat" where
  "agg_sum g = fold (\<lambda>x acc. np_add acc x) (dropna g) (Fin 0)"

definition agg_min :: "npfloat list \<Rightarrow> npfloat" where
  "agg_min g =
     (case dropna g of [] \<Rightarrow> NaN | x # xs \<Rightarrow> fold (\<lambda>v m. if np_less v m then v else m) xs x)"

definition agg_max :: "npfloat list \<Rightarrow> npfloat" where
  "agg_max g =
     (case dropna g of [] \<Rightarrow> NaN | x # xs \<Rightarrow> fold (\<lambda>v m. if np_less m v then v else m) xs x)"

definition agg_mean :: "npfloat list \<Rightarrow> npfloat" where
  "agg_mean g =
     (case dropna g of [] \<Rightarrow> NaN | x # xs \<Rightarrow> np_div (agg_sum g) (Fin (real (length (x # xs)))))"

text \<open>
  An entry of the aggregation dictionary: the name of a pandas aggregation, or the function
  \<^verbatim>\<open>lambda x: (x == v).sum()\<close> for a string \<open>v\<close>, which pandas names \<^verbatim>\<open><lambda>\<close>.
\<close>

datatype aggregator = Named string | CountEqual string

fun aggregator_name :: "aggregator \<Rightarrow> string" where
  "aggregator_name (Named f) = f"
| "aggregator_name (CountEqual v) = ''<lambda>''"

text \<open>
  One aggregation of one group. The named aggregations are modelled on numeric columns;
  on a column of the object dtype the model raises TypeError, as pandas does for the mean
  or the sum of strings.
\<close>

definition named_agg :: "string \<Rightarrow> (npfloat list \<Rightarrow> npfloat) option" where
  "named_agg f =
     (if f = ''count'' then Some agg_count
      else if f = ''min'' then Some agg_min
      else if f = ''max'' then Some agg_max
      else if f = ''mean'' then Some agg_mean
      else if f = ''sum'' then Some agg_sum
      else None)"

text \<open>
  The groups: the distinct values of the key column in ascending order, without NaN; the
  rows of a group are those whose key is the group's.
\<close>

definition finite_values :: "npfloat list \<Rightarrow> real list" where
  "finite_values xs = concat (map (\<lambda>x. case x of Fin r \<Rightarrow> [r] | _ \<Rightarrow> []) xs)"

definition group_keys :: "npfloat list \<Rightarrow> npfloat list" where
  "group_keys ks =
     (if NInf \<in> set ks then [NInf] else [])
     @ map Fin (sort (remdups (finite_values ks)))
     @ (if PInf \<in> set ks then [PInf] else [])"

definition group_rows :: "npfloat list \<Rightarrow> 'a list \<Rightarrow> npfloat \<Rightarrow> 'a list" where
  "group_rows ks vs k = map snd (filter (\<lambda>(k', v). k' = k) (zip ks vs))"

definition agg_column :: "npfloat list \<Rightarrow> column \<Rightarrow> aggregator \<Rightarrow> py_error + column" where
  "agg_column ks c a =
     (case a of
        CountEqual v \<Rightarrow>
          Inr (FloatCol (map (\<lambda>k. Fin (real (length (filter (\<lambda>x. x = Str v)
                                   (group_rows ks (cells c) k))))) (group_keys ks)))
      | Named f \<Rightarrow>
          (case named_agg f of
             None \<Rightarrow> Inl (AttributeError f)
           | Some g \<Rightarrow>
               (case c of
                  ObjCol vs \<Rightarrow> Inl TypeError
                | FloatCol xs \<Rightarrow> Inr (FloatCol (map (\<lambda>k. g (group_rows ks xs k)) (group_keys ks))))))"

text \<open>
  The aggregated columns of one dictionary entry, each under the pair of the source column
  and the aggregation, as the column MultiIndex of pandas has them.
\<close>

fun agg_entry ::
  "npfloat list \<Rightarrow> frame \<Rightarrow> string \<times> aggregator list \<Rightarrow> py_error + ((string \<times> string) \<times> column) list"
  where
  "agg_entry ks df (col, []) = Inr []"
| "agg_entry ks df (col, a # as) =
     (case getitem df col of
        Inl e \<Rightarrow> Inl e
      | Inr c \<Rightarrow>
          (case agg_column ks c a of
             Inl e \<Rightarrow> Inl e
           | Inr r \<Rightarrow>
               (case agg_entry ks df (col, as) of
                  Inl e \<Rightarrow> Inl e
                | Inr rs \<Rightarrow> Inr (((col, aggregator_name a), r) # rs))))"

fun agg_entries ::
  "npfloat list \<Rightarrow> frame \<Rightarrow> (string \<times> aggregator list) list
     \<Rightarrow> py_error + ((string \<times> string) \<times> column) list" where
  "agg_entries ks df [] = Inr []"
| "agg_entries ks df (entry # entries) =
     (case agg_entry ks df entry of
        Inl e \<Rightarrow> Inl e
      | Inr cs \<Rightarrow>
          (case agg_entries ks df entries of Inl e \<Rightarrow> Inl e | Inr rest \<Rightarrow> Inr (cs @ rest)))"

text \<open>
  \<^verbatim>\<open>df.groupby(key).agg(spec)\<close>: the group keys, which are the index of the result, and its
  columns. KeyError for a key the frame does not have, and for a column of the dictionary
  the frame does not have (pandas names all of them in the message, the model the first).
  The key column is numeric in every ledger; on an object key the model raises TypeError.
\<close>

definition groupby_agg ::
  "frame \<Rightarrow> string \<Rightarrow> (string \<times> aggregator list) list
     \<Rightarrow> py_error + npfloat list \<times> ((string \<times> string) \<times> column) list" where
  "groupby_agg df key spec =
     (case getitem df key of
        Inl e \<Rightarrow> Inl e
      | Inr (ObjCol vs) \<Rightarrow> Inl TypeError
      | Inr (FloatCol ks) \<Rightarrow>
          (case filter (\<lambda>col. col \<notin> set (columns df)) (map fst spec) of
             col # rest \<Rightarrow> Inl (KeyError col)
           | [] \<Rightarrow>
               (case agg_entries ks df spec of
                  Inl e \<Rightarrow> Inl e
                | Inr cols \<Rightarrow> Inr (group_keys ks, cols))))"

text \<open>\<^verbatim>\<open>str.upper\<close> on the ASCII letters and \<^verbatim>\<open>'_'.join(col)\<close> on a pair.\<close>

definition upper_char :: "char \<Rightarrow> char" where
  "upper_char c =
     (if CHR ''a'' \<le> c \<and> c \<le> CHR ''z'' then char_of (of_char c - (32 :: nat)) else c)"

definition upper :: "string \<Rightarrow> string" where
  "upper s = map upper_char s"

definition flat_name :: "string \<Rightarrow> string \<times> string \<Rightarrow> string" where
  "flat_name prefix col = prefix @ upper (fst col @ ''_'' @ snd col)"

definition flatten_columns :: "string \<Rightarrow> ((string \<times> string) \<times> column) list \<Rightarrow> frame" where
  "flatten_columns prefix cols = map (\<lambda>(col, c). (flat_name prefix col, c)) cols"

text \<open>
  \<^verbatim>\<open>reset_index(inplace=True)\<close>: the index becomes the first column, under the name of the
  key; ValueError when the frame has a column of that name.
\<close>

definition reset_index :: "string \<Rightarrow> npfloat list \<Rightarrow> frame \<Rightarrow> py_error + frame" where
  "reset_index key ks df =
     (if key \<in> set (columns df) then Inl ValueError else Inr ((key, FloatCol ks) # df))"

subsection \<open>The store\<close>

text \<open>
  Frames are objects: a function that receives a frame receives a reference to it. The
  store holds the frame objects allocated so far, and a reference is a position in it.
\<close>

type_synonym ref = nat

type_synonym store = "frame list"

definition alloc :: "store \<Rightarrow> frame \<Rightarrow> store \<times> ref" where
  "alloc s df = (s @ [df], length s)"

subsection \<open>\<^verbatim>\<open>aggregate_installments\<close> (lines 182 to 208)\<close>

definition installment_assignments :: "assignment list" where
  "installment_assignments =
     [(''PAYMENT_DIFF'', frame_binop np_sub ''AMT_PAYMENT'' ''AMT_INSTALMENT''),
      (''PAYMENT_RATIO'', frame_binop np_div ''AMT_PAYMENT'' ''AMT_INSTALMENT''),
      (''DAYS_PAYMENT_DELAY'', frame_binop np_sub ''DAYS_ENTRY_PAYMENT'' ''DAYS_INSTALMENT'')]"

definition installment_aggregations :: "(string \<times> aggregator list) list" where
  "installment_aggregations =
     [(''SK_ID_PREV'', [Named ''count'']),
      (''NUM_INSTALMENT_NUMBER'', [Named ''max'', Named ''mean'']),
      (''NUM_INSTALMENT_VERSION'', [Named ''max'']),
      (''DAYS_INSTALMENT'', [Named ''min'', Named ''max'', Named ''mean'']),
      (''DAYS_ENTRY_PAYMENT'', [Named ''min'', Named ''max'', Named ''mean'']),
      (''AMT_INSTALMENT'', [Named ''min'', Named ''max'', Named ''mean'', Named ''sum'']),
      (''AMT_PAYMENT'', [Named ''min'', Named ''max'', Named ''mean'', Named ''sum'']),
      (''PAYMENT_DIFF'', [Named ''min'', Named ''max'', Named ''mean'', Named ''sum'']),
      (''PAYMENT_RATIO'', [Named ''min'', Named ''max'', Named ''mean'']),
      (''DAYS_PAYMENT_DELAY'', [Named ''min'', Named ''max'', Named ''mean''])]"

text \<open>
  The function receives the reference \<open>df_inst\<close> of the caller's ledger, assigns the three
  derived columns to that object, and returns the reference of a new frame.
\<close>

definition aggregate_installments :: "store \<Rightarrow> ref \<Rightarrow> store \<times> (py_error + ref)" where
  "aggregate_installments s df_inst =
     (case assign_all installment_assignments (s ! df_inst) of
        (df1, Some e) \<Rightarrow> (s[df_inst := df1], Inl e)
      | (df1, None) \<Rightarrow>
          (let s1 = s[df_inst := df1] in
           case groupby_agg df1 ''SK_ID_CURR'' installment_aggregations of
             Inl e \<Rightarrow> (s1, Inl e)
           | Inr (ks, cols) \<Rightarrow>
               (case reset_index ''SK_ID_CURR'' ks (flatten_columns ''INST_'' cols) of
                  Inl e \<Rightarrow> (s1, Inl e)
                | Inr inst_agg \<Rightarrow> (case alloc s1 inst_agg of (s2, r) \<Rightarrow> (s2, Inr r)))))"

section \<open>Training (train.py)\<close>
datatype callback = early_stopping int | log_evaluation int

text \<open>The arguments of one call of \<^verbatim>\<open>lgb.train\<close>, as the training functions build them.\<close>

record lgb_train_call =
  scale_pos_weight :: npfloat
  num_boost_round :: int
  train_labels :: "int list"
  valid_names :: "string list"
  callbacks :: "callback list"

definition NUM_BOOST_ROUND :: int where
  "NUM_BOOST_ROUND = 1000"

definition EARLY_STOPPING_ROUNDS :: int where
  "EARLY_STOPPING_ROUNDS = 50"

text \<open>\<^verbatim>\<open>(y == v).sum()\<close> on a label series.\<close>

definition count_eq :: "int \<Rightarrow> int list \<Rightarrow> int" where
  "count_eq v ys = int (length (filter (\<lambda>y. y = v) ys))"




text \<open>\<^verbatim>\<open>np.mean\<close> of a list of integers: NaN for the empty list.\<close>

definition np_mean_int :: "int list \<Rightarrow> npfloat" where
  "np_mean_int xs = int_true_divide (sum_list xs) (int (length xs))"

text \<open>Python's \<^verbatim>\<open>int()\<close> of a float: truncation toward zero.\<close>

definition py_int :: "npfloat \<Rightarrow> py_error + int" where
  "py_int x =
     (case x of
        Fin r \<Rightarrow> Inr (if 0 \<le> r then \<lfloor>r\<rfloor> else \<lceil>r\<rceil>)
      | NaN \<Rightarrow> Inl ValueError
      | PInf \<Rightarrow> Inl OverflowError
      | NInf \<Rightarrow> Inl OverflowError)"

text \<open>
  \<^verbatim>\<open>train_final_model\<close> (train.py, lines 141 to 188): the call of the library it makes.
\<close>

definition train_final_model :: "int list \<Rightarrow> int option \<Rightarrow> py_error + lgb_train_call" where
  "train_final_model y_train best_iteration =
     (let spw = int_true_divide (count_eq 0 y_train) (count_eq 1 y_train)
      in Inr \<lparr> scale_pos_weight = spw,
               num_boost_round =
                 (case best_iteration of Some b \<Rightarrow> b | None \<Rightarrow> NUM_BOOST_ROUND),
               train_labels = y_train,
               valid_names = [''train''],
               callbacks =
                 (case best_iteration of
                    Some b \<Rightarrow> [log_evaluation 100]
                  | None \<Rightarrow> [early_stopping EARLY_STOPPING_ROUNDS, log_evaluation 100]) \<rparr>)"

text \<open>
  \<^verbatim>\<open>run_training\<close> (train.py, lines 220 to 233): \<open>cv_best\<close> holds the
  \<^verbatim>\<open>best_iteration\<close> of each fold's model, which the library reports.
\<close>

definition run_training_best_iteration :: "bool \<Rightarrow> int list \<Rightarrow> py_error + int option" where
  "run_training_best_iteration do_cv cv_best =
     (if do_cv
      then (case py_int (np_mean_int cv_best) of Inl e \<Rightarrow> Inl e | Inr b \<Rightarrow> Inr (Some b))
      else Inr None)"

definition run_training :: "int list \<Rightarrow> bool \<Rightarrow> int list \<Rightarrow> py_error + lgb_train_call" where
  "run_training y_train do_cv cv_best =
     (case run_training_best_iteration do_cv cv_best of
        Inl e \<Rightarrow> Inl e
      | Inr best_iteration \<Rightarrow> train_final_model y_train best_iteration)"

text \<open>The iteration count as the specification words it: the mean, rounded to nearest.\<close>

definition spec_rounded_mean :: "int list \<Rightarrow> int" where
  "spec_rounded_mean xs = round (real_of_int (sum_list xs) / real (length xs))"

section \<open>Threshold selection (evaluate.py)\<close>









section \<open>Properties of frames\<close>

lemma getitem_Inr_iff: "getitem df n = Inr c \<longleftrightarrow> map_of df n = Some c"
  by (simp add: getitem_def split: option.splits)

lemma map_of_setitem:
  "map_of (setitem df name c) n = (if n = name then Some c else map_of df n)"
proof (cases "name \<in> set (columns df)")
  case True
  have "map_of (map (\<lambda>(k, old). if k = name then (k, c) else (k, old)) df) n =
          (if n = name then (if n \<in> fst ` set df then Some c else None) else map_of df n)"
    by (induction df) (auto simp: image_iff split: if_splits)
  with True show ?thesis by (auto simp: setitem_def columns_def)
next
  case False
  then have "map_of df name = None" by (simp add: columns_def map_of_eq_None_iff)
  with False show ?thesis by (auto simp: setitem_def map_add_def split: option.splits)
qed

lemma columns_setitem:
  "name \<in> set (columns df) \<Longrightarrow> columns (setitem df name c) = columns df"
  by (auto simp: setitem_def columns_def split_def)

lemma nrows_setitem:
  assumes "name \<in> set (columns df)" and "col_len c = nrows df"
  shows "nrows (setitem df name c) = nrows df"
proof (cases df)
  case Nil
  with assms show ?thesis by (simp add: columns_def)
next
  case (Cons p rest)
  obtain k old where p: "p = (k, old)" by (cases p)
  with Cons assms show ?thesis by (auto simp: setitem_def nrows_def columns_def)
qed

lemma rectangular_setitem:
  assumes "rectangular df" and "name \<in> set (columns df)" and "col_len c = nrows df"
  shows "rectangular (setitem df name c)"
proof -
  have n: "nrows (setitem df name c) = nrows df" using assms(2,3) by (rule nrows_setitem)
  have d: "distinct (columns (setitem df name c))"
    using assms(1,2) by (simp add: columns_setitem rectangular_def)
  have "list_all (\<lambda>(k, col). col_len col = nrows df)
          (map (\<lambda>(k, old). if k = name then (k, c) else (k, old)) df)"
    using assms(1,3) by (auto simp: rectangular_def list_all_iff split: if_splits)
  then have "list_all (\<lambda>(k, col). col_len col = nrows df) (setitem df name c)"
    using assms(2) by (simp add: setitem_def)
  with n d show ?thesis by (simp add: rectangular_def)
qed

lemma rectangular_col_len:
  "rectangular df \<Longrightarrow> map_of df n = Some c \<Longrightarrow> col_len c = nrows df"
  by (auto simp: rectangular_def list_all_iff dest!: map_of_SomeD)

lemma map_of_in_columns: "map_of df n = Some c \<Longrightarrow> n \<in> set (columns df)"
  by (auto simp: columns_def dest!: map_of_SomeD intro: rev_image_eqI)

lemma length_cells [simp]: "length (cells c) = col_len c"
  by (cases c) simp_all

lemma length_astype_str [simp]: "length (astype_str fr c) = col_len c"
  by (simp add: astype_str_def)

lemma length_fit_transform [simp]: "length (fit_transform ys) = length ys"
  by (simp add: fit_transform_def)

lemma col_len_int_column [simp]: "col_len (int_column ks) = length ks"
  by (simp add: int_column_def)

lemma set_classes [simp]: "set (classes ys) = set ys"
  by (simp add: classes_def)

lemma index_of_less: "y \<in> set xs \<Longrightarrow> index_of xs y < length xs"
  by (induction xs) auto

lemma nth_index_of: "y \<in> set xs \<Longrightarrow> xs ! index_of xs y = y"
  by (induction xs) auto

lemma index_of_inj: "inj_on (index_of xs) (set xs)"
  by (rule inj_onI) (metis nth_index_of)

lemma drop_columns_Inr:
  "drop_columns names df = Inr df' \<Longrightarrow> df' = filter (\<lambda>(n, c). n \<notin> set names) df"
  by (simp add: drop_columns_def split: list.splits)

lemma map_of_filter_names:
  "map_of (filter (\<lambda>(n, c). n \<notin> S) df) k = (if k \<in> S then None else map_of df k)"
  by (induction df) auto

lemma columns_filter_names:
  "columns (filter (\<lambda>(n, c). n \<notin> S) df) = filter (\<lambda>n. n \<notin> S) (columns df)"
  by (induction df) (auto simp: columns_def)

lemma nrows_filter_names:
  assumes "rectangular df" and "filter (\<lambda>(n, c). n \<notin> S) df \<noteq> []"
  shows "nrows (filter (\<lambda>(n, c). n \<notin> S) df) = nrows df"
proof -
  obtain p rest where pr: "filter (\<lambda>(n, c). n \<notin> S) df = p # rest"
    using assms(2) by (cases "filter (\<lambda>(n, c). n \<notin> S) df") auto
  have "p \<in> set (filter (\<lambda>(n, c). n \<notin> S) df)" unfolding pr by simp
  then have "p \<in> set df" by simp
  with assms(1) have "col_len (snd p) = nrows df"
    by (auto simp: rectangular_def list_all_iff)
  with pr show ?thesis by (simp add: nrows_def split_def)
qed

lemma rectangular_filter_names:
  assumes "rectangular df"
  shows "rectangular (filter (\<lambda>(n, c). n \<notin> S) df)"
proof (cases "filter (\<lambda>(n, c). n \<notin> S) df = []")
  case True
  then show ?thesis by (simp add: rectangular_def columns_def)
next
  case False
  from nrows_filter_names[OF assms False] assms show ?thesis
    by (auto simp: rectangular_def list_all_iff columns_filter_names)
qed

lemma map_of_distinct_iff:
  "distinct (columns df) \<Longrightarrow> (n, c) \<in> set df \<longleftrightarrow> map_of df n = Some c"
  by (auto simp: columns_def dest: map_of_SomeD)

lemma map_of_map_columns:
  "map_of (map (\<lambda>(n, c). (n, f n c)) df) k = map_option (f k) (map_of df k)"
  by (induction df) auto

lemma columns_map_columns [simp]:
  "columns (map (\<lambda>(n, c). (n, f n c)) df) = columns df"
  by (simp add: columns_def split_def comp_def)

lemma columns_reindex:
  "set names \<subseteq> set (columns df) \<Longrightarrow> columns (reindex names df) = names"
proof (induction names)
  case Nil
  then show ?case by (simp add: reindex_def columns_def map_filter_simps)
next
  case (Cons n names)
  then obtain c where "map_of df n = Some c"
    by (auto simp: columns_def) (metis fst_conv map_of_eq_None_iff not_Some_eq image_eqI)
  with Cons show ?case by (simp add: reindex_def columns_def map_filter_simps)
qed

lemma map_of_reindex:
  "map_of (reindex names df) k = (if k \<in> set names then map_of df k else None)"
proof (induction names)
  case Nil
  then show ?case by (simp add: reindex_def map_filter_simps)
next
  case (Cons n names)
  then show ?case
    by (cases "map_of df n") (auto simp: reindex_def map_filter_simps)
qed

lemma align_inner_columns:
  assumes "align_inner left right = (l, r)"
  shows "columns l = columns r \<and>
         columns l = filter (\<lambda>n. n \<in> set (columns right)) (columns left) \<and>
         (\<forall>k. map_of l k = (if k \<in> set (columns right) then map_of left k else None)) \<and>
         (\<forall>k. map_of r k = (if k \<in> set (columns left) then map_of right k else None))"
proof -
  let ?common = "filter (\<lambda>n. n \<in> set (columns right)) (columns left)"
  from assms have l: "l = reindex ?common left" and r: "r = reindex ?common right"
    by (simp_all add: align_inner_def Let_def)
  have cl: "columns l = ?common" unfolding l by (rule columns_reindex) auto
  have cr: "columns r = ?common" unfolding r by (rule columns_reindex) auto
  have ml: "map_of l k = (if k \<in> set (columns right) then map_of left k else None)" for k
  proof (cases "k \<in> set (columns left)")
    case True
    then show ?thesis by (simp add: l map_of_reindex)
  next
    case False
    then have "map_of left k = None" by (simp add: columns_def map_of_eq_None_iff)
    then show ?thesis by (simp add: l map_of_reindex)
  qed
  have mr: "map_of r k = (if k \<in> set (columns left) then map_of right k else None)" for k
  proof (cases "k \<in> set (columns right)")
    case True
    then show ?thesis by (simp add: r map_of_reindex)
  next
    case False
    then have "map_of right k = None" by (simp add: columns_def map_of_eq_None_iff)
    then show ?thesis by (simp add: r map_of_reindex)
  qed
  from cl cr ml mr show ?thesis by simp
qed

lemma median_frame_Inr:
  "median_frame avg df = Inr ms \<Longrightarrow>
     map fst ms = columns df \<and>
     (\<forall>k c. map_of df k = Some c \<longrightarrow> (\<exists>m. median avg c = Inr m \<and> map_of ms k = Some m))"
proof (induction df arbitrary: ms)
  case Nil
  then show ?case by (simp add: columns_def)
next
  case (Cons p df)
  obtain n c where p: "p = (n, c)" by (cases p)
  from Cons.prems p obtain m ms' where
    m: "median avg c = Inr m" and ms': "median_frame avg df = Inr ms'" and ms: "ms = (n, m) # ms'"
    by (auto split: sum.splits)
  from Cons.IH[OF ms'] p m ms show ?case by (auto simp: columns_def)
qed

section \<open>Properties of the median\<close>

lemma finite_member:
  "r \<in> set (concat (map (\<lambda>x. case x of Fin r \<Rightarrow> [r] | _ \<Rightarrow> []) xs)) \<longleftrightarrow> Fin r \<in> set xs"
  by (induction xs) (auto split: npfloat.splits)

lemma set_sorted_values: "set (sorted_values xs) = {x \<in> set xs. x \<noteq> NaN}"
proof (intro set_eqI iffI)
  fix x
  assume "x \<in> set (sorted_values xs)"
  then show "x \<in> {x \<in> set xs. x \<noteq> NaN}"
    by (auto simp: sorted_values_def finite_member)
next
  fix x
  assume "x \<in> {x \<in> set xs. x \<noteq> NaN}"
  then show "x \<in> set (sorted_values xs)"
    by (cases x) (auto simp: sorted_values_def finite_member)
qed

text \<open>The median is NaN for an empty selection, or one of the values, or the mean of two.\<close>

lemma np_median_cases:
  "sorted_values xs = [] \<and> np_median avg xs = NaN \<or>
   np_median avg xs \<in> set (sorted_values xs) \<or>
   (\<exists>x\<in>set (sorted_values xs). \<exists>y\<in>set (sorted_values xs).
      np_median avg xs = mean_of_two avg x y)"
proof (cases "sorted_values xs = []")
  case True
  then show ?thesis by (simp add: np_median_def)
next
  case False
  let ?v = "sorted_values xs"
  let ?n = "length ?v"
  from False have pos: "0 < ?n" by simp
  then have a: "?n div 2 < ?n" by simp
  have b: "?n div 2 - 1 < ?n" using pos by arith
  show ?thesis
  proof (cases "odd ?n")
    case True
    with pos have "np_median avg xs = ?v ! (?n div 2)" by (simp add: np_median_def Let_def)
    with a show ?thesis by simp
  next
    case even: False
    with pos have "np_median avg xs = mean_of_two avg (?v ! (?n div 2 - 1)) (?v ! (?n div 2))"
      by (simp add: np_median_def Let_def)
    moreover have "?v ! (?n div 2 - 1) \<in> set ?v" "?v ! (?n div 2) \<in> set ?v"
      using a b by simp_all
    ultimately show ?thesis by blast
  qed
qed

lemma np_median_empty:
  assumes "\<forall>x\<in>set xs. x = NaN"
  shows "np_median avg xs = NaN"
proof -
  from assms have "set (sorted_values xs) = {}" by (auto simp: set_sorted_values)
  then show ?thesis by (simp add: np_median_def)
qed

lemma mean_of_two_not_nan:
  assumes "\<forall>a b. avg a b \<noteq> NaN" and "x \<noteq> NaN" and "y \<noteq> NaN"
    and "\<not> (x = PInf \<and> y = NInf)" and "\<not> (x = NInf \<and> y = PInf)"
  shows "mean_of_two avg x y \<noteq> NaN"
  using assms by (cases x; cases y) (simp_all add: sign_inf_def)

lemma mean_of_two_Fin:
  assumes "mean_of_two avg x y = Fin r"
  shows "\<exists>a b. x = Fin a \<and> y = Fin b \<and> avg a b = Fin r"
  using assms by (cases x; cases y) (simp_all add: sign_inf_def split: if_splits)

lemma mean_of_two_inf:
  assumes "is_inf (mean_of_two avg x y)" and "\<not> is_inf x" and "\<not> is_inf y"
  shows "\<exists>a b. x = Fin a \<and> y = Fin b \<and> is_inf (avg a b)"
  using assms by (cases x; cases y) (simp_all add: is_inf_def)

text \<open>
  The median of values is not NaN when a value is not NaN and the values do not hold both
  infinities, for an average that is never NaN.
\<close>

lemma np_median_not_nan:
  assumes avg: "\<forall>a b. avg a b \<noteq> NaN"
    and some: "\<exists>x\<in>set xs. x \<noteq> NaN"
    and one_sign: "\<not> (PInf \<in> set xs \<and> NInf \<in> set xs)"
  shows "np_median avg xs \<noteq> NaN"
proof -
  from some have ne: "sorted_values xs \<noteq> []"
    using set_sorted_values[of xs] by (metis (mono_tags, lifting) empty_iff mem_Collect_eq set_empty)
  from np_median_cases[of xs avg] ne consider
    (elem) "np_median avg xs \<in> set (sorted_values xs)"
    | (mean) x y where "x \<in> set (sorted_values xs)" "y \<in> set (sorted_values xs)"
        "np_median avg xs = mean_of_two avg x y"
    by blast
  then show ?thesis
  proof cases
    case elem
    then show ?thesis by (simp add: set_sorted_values)
  next
    case mean
    from mean(1,2) have x: "x \<in> set xs" "x \<noteq> NaN" and y: "y \<in> set xs" "y \<noteq> NaN"
      by (simp_all add: set_sorted_values)
    have "\<not> (x = PInf \<and> y = NInf)" "\<not> (x = NInf \<and> y = PInf)"
      using x(1) y(1) one_sign by auto
    from mean_of_two_not_nan[OF avg x(2) y(2) this] mean(3) show ?thesis by simp
  qed
qed

text \<open>
  A finite median of values within a bound is within the bound, and the median of such
  values is not infinite when none of them is, for an average that keeps within the bound.
\<close>

lemma np_median_Fin_bounded:
  assumes avg: "\<forall>a b. \<bar>a\<bar> \<le> B \<and> \<bar>b\<bar> \<le> B \<longrightarrow> (\<exists>r. avg a b = Fin r \<and> \<bar>r\<bar> \<le> B)"
    and bound: "\<forall>r. Fin r \<in> set xs \<longrightarrow> \<bar>r\<bar> \<le> B"
    and m: "np_median avg xs = Fin m"
  shows "\<bar>m\<bar> \<le> B"
proof -
  from np_median_cases[of xs avg] m consider
    (elem) "np_median avg xs \<in> set (sorted_values xs)"
    | (mean) x y where "x \<in> set (sorted_values xs)" "y \<in> set (sorted_values xs)"
        "np_median avg xs = mean_of_two avg x y"
    by auto
  then show ?thesis
  proof cases
    case elem
    with m have "Fin m \<in> set xs" by (simp add: set_sorted_values)
    with bound show ?thesis by blast
  next
    case mean
    from mean(3) m have "mean_of_two avg x y = Fin m" by simp
    from mean_of_two_Fin[OF this] obtain a b where
      ab: "x = Fin a" "y = Fin b" "avg a b = Fin m" by blast
    from mean(1,2) ab have "Fin a \<in> set xs" "Fin b \<in> set xs" by (simp_all add: set_sorted_values)
    with bound have "\<bar>a\<bar> \<le> B" "\<bar>b\<bar> \<le> B" by blast+
    with avg obtain r where "avg a b = Fin r" "\<bar>r\<bar> \<le> B" by blast
    with ab(3) show ?thesis by simp
  qed
qed

lemma np_median_not_inf:
  assumes avg: "\<forall>a b. \<bar>a\<bar> \<le> B \<and> \<bar>b\<bar> \<le> B \<longrightarrow> (\<exists>r. avg a b = Fin r \<and> \<bar>r\<bar> \<le> B)"
    and bound: "\<forall>r. Fin r \<in> set xs \<longrightarrow> \<bar>r\<bar> \<le> B"
    and ni: "\<forall>x\<in>set xs. \<not> is_inf x"
  shows "\<not> is_inf (np_median avg xs)"
proof
  assume inf: "is_inf (np_median avg xs)"
  then have "np_median avg xs \<noteq> NaN" by (auto simp: is_inf_def)
  with np_median_cases[of xs avg] consider
    (elem) "np_median avg xs \<in> set (sorted_values xs)"
    | (mean) x y where "x \<in> set (sorted_values xs)" "y \<in> set (sorted_values xs)"
        "np_median avg xs = mean_of_two avg x y"
    by auto
  then show False
  proof cases
    case elem
    then have "np_median avg xs \<in> set xs" by (simp add: set_sorted_values)
    with ni inf show False by blast
  next
    case mean
    from mean(1,2) have x: "x \<in> set xs" and y: "y \<in> set xs" by (simp_all add: set_sorted_values)
    with ni have "\<not> is_inf x" "\<not> is_inf y" by blast+
    from mean_of_two_inf[OF inf[unfolded mean(3)] this] obtain a b where
      ab: "x = Fin a" "y = Fin b" "is_inf (avg a b)" by blast
    from x y ab bound have "\<bar>a\<bar> \<le> B" "\<bar>b\<bar> \<le> B" by blast+
    with avg obtain r where "avg a b = Fin r" by blast
    with ab(3) show False by (simp add: is_inf_def)
  qed
qed

section \<open>Properties of the label encoding\<close>

text \<open>What one round of the loop stores for a column, from the two columns it reads.\<close>

lemma take_fit_transform:
  "take (length a) (fit_transform (a @ b)) = map (index_of (classes (a @ b))) a"
  by (simp add: fit_transform_def)

lemma drop_fit_transform:
  "drop (length a) (fit_transform (a @ b)) = map (index_of (classes (a @ b))) b"
  by (simp add: fit_transform_def)

lemma encode_loop_columns:
  assumes "encode_loop fr cols train test = Inr (train', test')"
    and "distinct cols" and "rectangular train"
  shows "rectangular train' \<and> columns train' = columns train \<and> nrows train' = nrows train \<and>
         (\<forall>n. n \<notin> set cols \<longrightarrow> map_of train' n = map_of train n \<and> map_of test' n = map_of test n) \<and>
         (\<forall>n\<in>set cols. \<exists>tc sc.
            map_of train n = Some tc \<and> map_of test n = Some sc \<and>
            map_of train' n =
              Some (int_column (map (index_of (classes (astype_str fr tc @ astype_str fr sc)))
                                  (astype_str fr tc))) \<and>
            map_of test' n =
              Some (int_column (map (index_of (classes (astype_str fr tc @ astype_str fr sc)))
                                  (astype_str fr sc))))"
  using assms
proof (induction cols arbitrary: train test)
  case Nil
  then show ?case by simp
next
  case (Cons col cols)
  from Cons.prems(1) obtain tc sc where
    tc: "map_of train col = Some tc" and sc: "map_of test col = Some sc"
    by (auto simp: getitem_def split: option.splits sum.splits)
  let ?cl = "classes (astype_str fr tc @ astype_str fr sc)"
  let ?tr1 = "setitem train col (int_column (map (index_of ?cl) (astype_str fr tc)))"
  let ?te1 = "setitem test col (int_column (map (index_of ?cl) (astype_str fr sc)))"
  have len: "col_len tc = nrows train" using Cons.prems(3) tc by (rule rectangular_col_len)
  have tk: "take (nrows train) (fit_transform (astype_str fr tc @ astype_str fr sc)) =
              map (index_of ?cl) (astype_str fr tc)"
    using take_fit_transform[of "astype_str fr tc" "astype_str fr sc"] len by simp
  have dr: "drop (nrows train) (fit_transform (astype_str fr tc @ astype_str fr sc)) =
              map (index_of ?cl) (astype_str fr sc)"
    using drop_fit_transform[of "astype_str fr tc" "astype_str fr sc"] len by simp
  from Cons.prems(1) tc sc tk dr have rec: "encode_loop fr cols ?tr1 ?te1 = Inr (train', test')"
    by (simp add: getitem_def Let_def)
  have incol: "col \<in> set (columns train)" using tc by (rule map_of_in_columns)
  have r1: "rectangular ?tr1"
    using Cons.prems(3) incol len by (intro rectangular_setitem) simp_all
  have n1: "nrows ?tr1 = nrows train" using incol len by (intro nrows_setitem) simp_all
  have c1: "columns ?tr1 = columns train" using incol by (rule columns_setitem)
  from Cons.prems(2) have dc: "distinct cols" and notin: "col \<notin> set cols" by simp_all
  note ih = Cons.IH[OF rec dc r1]
  show ?case
  proof (intro conjI allI impI ballI)
    show "rectangular train'" using ih by simp
    show "columns train' = columns train" using ih c1 by simp
    show "nrows train' = nrows train" using ih n1 by simp
  next
    fix n assume "n \<notin> set (col # cols)"
    then have a: "n \<notin> set cols" "n \<noteq> col" by auto
    with ih have "map_of train' n = map_of ?tr1 n" "map_of test' n = map_of ?te1 n" by auto
    with a show "map_of train' n = map_of train n" "map_of test' n = map_of test n"
      by (simp_all add: map_of_setitem)
  next
    fix n assume n: "n \<in> set (col # cols)"
    show "\<exists>tc sc.
            map_of train n = Some tc \<and> map_of test n = Some sc \<and>
            map_of train' n =
              Some (int_column (map (index_of (classes (astype_str fr tc @ astype_str fr sc)))
                                  (astype_str fr tc))) \<and>
            map_of test' n =
              Some (int_column (map (index_of (classes (astype_str fr tc @ astype_str fr sc)))
                                  (astype_str fr sc)))"
    proof (cases "n = col")
      case True
      with notin ih have "map_of train' n = map_of ?tr1 n" "map_of test' n = map_of ?te1 n"
        by auto
      with True tc sc show ?thesis by (simp add: map_of_setitem)
    next
      case False
      with n have "n \<in> set cols" by simp
      with ih obtain tc' sc' where
        "map_of ?tr1 n = Some tc'" "map_of ?te1 n = Some sc'"
        "map_of train' n =
              Some (int_column (map (index_of (classes (astype_str fr tc' @ astype_str fr sc')))
                                  (astype_str fr tc')))"
        "map_of test' n =
              Some (int_column (map (index_of (classes (astype_str fr tc' @ astype_str fr sc')))
                                  (astype_str fr sc')))"
        by blast
      with False show ?thesis by (simp add: map_of_setitem)
    qed
  qed
qed

section \<open>Properties of the handling of missing values\<close>

lemma impute_loop_columns:
  assumes "impute_loop avg cols train test = Inr (train', test')" and "distinct cols"
  shows "columns train' = columns train \<and> columns test' = columns test \<and>
         (\<forall>n. n \<notin> set cols \<longrightarrow> map_of train' n = map_of train n \<and> map_of test' n = map_of test n) \<and>
         (\<forall>n\<in>set cols. \<exists>tc. map_of train n = Some tc \<and>
            (if 0 < isnull_sum tc
             then \<exists>m sc. median avg tc = Inr m \<and> map_of test n = Some sc \<and>
                    map_of train' n = Some (fillna m tc) \<and> map_of test' n = Some (fillna m sc)
             else map_of train' n = Some tc \<and> map_of test' n = map_of test n))"
  using assms
proof (induction cols arbitrary: train test)
  case Nil
  then show ?case by simp
next
  case (Cons col cols)
  from Cons.prems(1) obtain tc where tc: "map_of train col = Some tc"
    by (auto simp: getitem_def split: option.splits sum.splits)
  from Cons.prems(2) have dc: "distinct cols" and notin: "col \<notin> set cols" by simp_all
  show ?case
  proof (cases "0 < isnull_sum tc")
    case False
    with Cons.prems(1) tc have rec: "impute_loop avg cols train test = Inr (train', test')"
      by (simp add: getitem_def)
    note ih = Cons.IH[OF rec dc]
    show ?thesis
    proof (intro conjI allI impI ballI)
      show "columns train' = columns train" "columns test' = columns test" using ih by simp_all
    next
      fix n assume "n \<notin> set (col # cols)"
      with ih show "map_of train' n = map_of train n" "map_of test' n = map_of test n" by auto
    next
      fix n assume n: "n \<in> set (col # cols)"
      show "\<exists>tc. map_of train n = Some tc \<and>
            (if 0 < isnull_sum tc
             then \<exists>m sc. median avg tc = Inr m \<and> map_of test n = Some sc \<and>
                    map_of train' n = Some (fillna m tc) \<and> map_of test' n = Some (fillna m sc)
             else map_of train' n = Some tc \<and> map_of test' n = map_of test n)"
      proof (cases "n = col")
        case True
        with notin ih have "map_of train' n = map_of train n" "map_of test' n = map_of test n"
          by auto
        with True tc False show ?thesis by simp
      next
        case False
        with n have "n \<in> set cols" by simp
        with ih show ?thesis by blast
      qed
    qed
  next
    case True
    with Cons.prems(1) tc obtain m sc where
      m: "median avg tc = Inr m" and sc: "map_of test col = Some sc"
      by (auto simp: getitem_def split: option.splits sum.splits)
    let ?tr1 = "setitem train col (fillna m tc)"
    let ?te1 = "setitem test col (fillna m sc)"
    from Cons.prems(1) tc True m sc have rec: "impute_loop avg cols ?tr1 ?te1 = Inr (train', test')"
      by (simp add: getitem_def)
    note ih = Cons.IH[OF rec dc]
    have c1: "columns ?tr1 = columns train" using tc by (intro columns_setitem map_of_in_columns)
    have c2: "columns ?te1 = columns test" using sc by (intro columns_setitem map_of_in_columns)
    show ?thesis
    proof (intro conjI allI impI ballI)
      show "columns train' = columns train" "columns test' = columns test"
        using ih c1 c2 by simp_all
    next
      fix n assume "n \<notin> set (col # cols)"
      then have a: "n \<notin> set cols" "n \<noteq> col" by auto
      with ih have "map_of train' n = map_of ?tr1 n" "map_of test' n = map_of ?te1 n" by auto
      with a show "map_of train' n = map_of train n" "map_of test' n = map_of test n"
        by (simp_all add: map_of_setitem)
    next
      fix n assume n: "n \<in> set (col # cols)"
      show "\<exists>tc. map_of train n = Some tc \<and>
            (if 0 < isnull_sum tc
             then \<exists>m sc. median avg tc = Inr m \<and> map_of test n = Some sc \<and>
                    map_of train' n = Some (fillna m tc) \<and> map_of test' n = Some (fillna m sc)
             else map_of train' n = Some tc \<and> map_of test' n = map_of test n)"
      proof (cases "n = col")
        case eq: True
        with notin ih have "map_of train' n = map_of ?tr1 n" "map_of test' n = map_of ?te1 n"
          by auto
        with eq tc sc m True show ?thesis by (simp add: map_of_setitem)
      next
        case False
        with n have "n \<in> set cols" by simp
        with ih obtain tc' where
          "map_of ?tr1 n = Some tc'"
          "(if 0 < isnull_sum tc'
             then \<exists>m sc. median avg tc' = Inr m \<and> map_of ?te1 n = Some sc \<and>
                    map_of train' n = Some (fillna m tc') \<and> map_of test' n = Some (fillna m sc)
             else map_of train' n = Some tc' \<and> map_of test' n = map_of ?te1 n)"
          by blast
        with False show ?thesis by (simp add: map_of_setitem cong: if_cong)
      qed
    qed
  qed
qed

lemma fillna_NaN [simp]: "fillna NaN c = c"
  by (cases c) (simp_all add: map_idI)

lemma isnull_sum_FloatCol: "0 < isnull_sum (FloatCol xs) \<longleftrightarrow> NaN \<in> set xs"
  by (auto simp: isnull_sum_def filter_empty_conv)

lemma high_missing_cols_subset: "set (high_missing_cols df) \<subseteq> set (columns df)"
  by (force simp: high_missing_cols_def missing_pct_def columns_def)

lemma columns_fillna_frame [simp]: "columns (fillna_frame ms df) = columns df"
  by (simp add: fillna_frame_def columns_def split_def comp_def)

lemma columns_replace_inf_frame [simp]: "columns (replace_inf_frame df) = columns df"
  by (simp add: replace_inf_frame_def columns_def split_def comp_def)

lemma handle_missing_Inr:
  assumes "handle_missing avg train test = Inr (train', test')"
  shows "\<exists>train2 test2 medians medians4.
           impute_loop avg (columns (filter (\<lambda>(n, c). n \<notin> set (high_missing_cols train)) train))
             (filter (\<lambda>(n, c). n \<notin> set (high_missing_cols train)) train)
             (filter (\<lambda>(n, c). n \<notin> set (high_missing_cols train)) test) = Inr (train2, test2) \<and>
           median_frame avg (replace_inf_frame train2) = Inr medians \<and>
           median_frame avg (fillna_frame medians (replace_inf_frame train2)) = Inr medians4 \<and>
           train' = fillna_frame medians (replace_inf_frame train2) \<and>
           test' = fillna_frame medians4 (replace_inf_frame test2)"
proof -
  let ?high = "high_missing_cols train"
  let ?tr1 = "filter (\<lambda>(n, c). n \<notin> set ?high) train"
  let ?te1 = "filter (\<lambda>(n, c). n \<notin> set ?high) test"
  define s1 where "s1 = (if 0 < length ?high
            then (case drop_columns ?high train of
                    Inl e \<Rightarrow> Inl e
                  | Inr tr \<Rightarrow>
                      (case drop_columns ?high test of
                         Inl e \<Rightarrow> Inl e
                       | Inr te \<Rightarrow> Inr (tr, te)))
            else Inr (train, test))"
  have hm: "handle_missing avg train test =
      (case s1 of
        Inl e \<Rightarrow> Inl e
      | Inr (train1, test1) \<Rightarrow>
          (case impute_loop avg (columns train1) train1 test1 of
             Inl e \<Rightarrow> Inl e
           | Inr (train2, test2) \<Rightarrow>
               (let train3 = replace_inf_frame train2;
                    test3 = replace_inf_frame test2
                in case median_frame avg train3 of
                     Inl e \<Rightarrow> Inl e
                   | Inr medians \<Rightarrow>
                       (let train4 = fillna_frame medians train3
                        in case median_frame avg train4 of
                             Inl e \<Rightarrow> Inl e
                           | Inr medians4 \<Rightarrow> Inr (train4, fillna_frame medians4 test3)))))"
    unfolding handle_missing_def s1_def Let_def ..
  from assms hm obtain p where p: "s1 = Inr p" by (cases s1) simp_all
  have "p = (?tr1, ?te1)"
  proof (cases "?high = []")
    case True
    with p show ?thesis by (simp add: s1_def)
  next
    case False
    with p obtain tr te where "drop_columns ?high train = Inr tr" "drop_columns ?high test = Inr te"
      "p = (tr, te)"
      by (auto simp: s1_def split: sum.splits)
    then show ?thesis by (simp add: drop_columns_Inr)
  qed
  with p have s1: "s1 = Inr (?tr1, ?te1)" by simp
  from assms obtain q where q: "impute_loop avg (columns ?tr1) ?tr1 ?te1 = Inr q"
    unfolding hm s1 by (cases "impute_loop avg (columns ?tr1) ?tr1 ?te1") simp_all
  obtain train2 test2 where q2: "q = (train2, test2)" by (cases q)
  from assms obtain medians where med: "median_frame avg (replace_inf_frame train2) = Inr medians"
    unfolding hm s1 using q q2
    by (cases "median_frame avg (replace_inf_frame train2)") (simp_all add: Let_def)
  from assms obtain medians4 where
    med4: "median_frame avg (fillna_frame medians (replace_inf_frame train2)) = Inr medians4"
    unfolding hm s1 using q q2 med
    by (cases "median_frame avg (fillna_frame medians (replace_inf_frame train2))")
      (simp_all add: Let_def)
  from assms have "train' = fillna_frame medians (replace_inf_frame train2)"
    "test' = fillna_frame medians4 (replace_inf_frame test2)"
    unfolding hm s1 using q q2 med med4 by (simp_all add: Let_def)
  with q q2 med med4 show ?thesis by blast
qed

lemma in_columns_map_of: "n \<in> set (columns df) \<Longrightarrow> \<exists>c. map_of df n = Some c"
  by (induction df) (auto simp: columns_def)

lemma map_of_replace_inf_frame:
  "map_of (replace_inf_frame df) k = map_option replace_inf (map_of df k)"
  unfolding replace_inf_frame_def by (rule map_of_map_columns)

lemma map_of_fillna_frame:
  "map_of (fillna_frame ms df) k =
     map_option (\<lambda>c. case map_of ms k of None \<Rightarrow> c | Some m \<Rightarrow> fillna m c) (map_of df k)"
  unfolding fillna_frame_def by (rule map_of_map_columns)

lemma handle_missing_column:
  assumes hm: "handle_missing avg train test = Inr (train', test')"
    and cols: "columns train = columns test"
    and dist: "distinct (columns train)"
  shows "columns train' = filter (\<lambda>n. n \<notin> set (high_missing_cols train)) (columns train) \<and>
         columns test' = columns train' \<and>
         (\<forall>n xs. map_of train n = Some (FloatCol xs) \<and> n \<notin> set (high_missing_cols train) \<longrightarrow>
            (\<exists>sc. map_of test n = Some sc \<and>
               map_of train' n = Some (FloatCol (final_train_values avg xs)) \<and>
               map_of test' n = Some (final_test_column avg xs sc)))"
proof -
  let ?high = "high_missing_cols train"
  let ?tr1 = "filter (\<lambda>(n, c). n \<notin> set ?high) train"
  let ?te1 = "filter (\<lambda>(n, c). n \<notin> set ?high) test"
  from handle_missing_Inr[OF hm] obtain train2 test2 medians medians4 where
    loop: "impute_loop avg (columns ?tr1) ?tr1 ?te1 = Inr (train2, test2)"
    and med: "median_frame avg (replace_inf_frame train2) = Inr medians"
    and med4: "median_frame avg (fillna_frame medians (replace_inf_frame train2)) = Inr medians4"
    and tr': "train' = fillna_frame medians (replace_inf_frame train2)"
    and te': "test' = fillna_frame medians4 (replace_inf_frame test2)"
    by blast
  have c1: "columns ?tr1 = filter (\<lambda>n. n \<notin> set ?high) (columns train)"
    by (rule columns_filter_names)
  have ct1: "columns ?te1 = columns ?tr1"
    using cols by (simp add: columns_filter_names)
  have d1: "distinct (columns ?tr1)" using dist by (simp add: c1)
  note il = impute_loop_columns[OF loop d1]
  have c2: "columns train2 = columns ?tr1" and ct2: "columns test2 = columns ?tr1"
    using il ct1 by simp_all
  have ctr': "columns train' = columns ?tr1"
    using c2 by (simp add: tr')
  have cte': "columns test' = columns ?tr1"
    using ct2 by (simp add: te')
  have per: "\<exists>sc. map_of test n = Some sc \<and>
               map_of train' n = Some (FloatCol (final_train_values avg xs)) \<and>
               map_of test' n = Some (final_test_column avg xs sc)"
    if n: "map_of train n = Some (FloatCol xs)" and nh: "n \<notin> set ?high" for n xs
  proof -
    have incol: "n \<in> set (columns train)" using n by (rule map_of_in_columns)
    then obtain sc where sc: "map_of test n = Some sc"
      using cols in_columns_map_of[of n test] by auto
    have m1: "map_of ?tr1 n = Some (FloatCol xs)" using n nh by (simp add: map_of_filter_names)
    have mt1: "map_of ?te1 n = Some sc" using sc nh by (simp add: map_of_filter_names)
    have in1: "n \<in> set (columns ?tr1)" using m1 by (rule map_of_in_columns)
    from il have "\<forall>n\<in>set (columns ?tr1). \<exists>tc. map_of ?tr1 n = Some tc \<and>
            (if 0 < isnull_sum tc
             then \<exists>m sc. median avg tc = Inr m \<and> map_of ?te1 n = Some sc \<and>
                    map_of train2 n = Some (fillna m tc) \<and> map_of test2 n = Some (fillna m sc)
             else map_of train2 n = Some tc \<and> map_of test2 n = map_of ?te1 n)"
      by (elim conjE)
    from bspec[OF this in1] m1 have step: "if 0 < isnull_sum (FloatCol xs)
             then \<exists>m sc'. median avg (FloatCol xs) = Inr m \<and> map_of ?te1 n = Some sc' \<and>
                    map_of train2 n = Some (fillna m (FloatCol xs)) \<and>
                    map_of test2 n = Some (fillna m sc')
             else map_of train2 n = Some (FloatCol xs) \<and> map_of test2 n = map_of ?te1 n"
      by (elim exE conjE) simp
    have t2: "map_of train2 n = Some (fillna (loop_fill_value avg xs) (FloatCol xs))"
      and s2: "map_of test2 n = Some (fillna (loop_fill_value avg xs) sc)"
      using step mt1 by (auto simp: isnull_sum_FloatCol loop_fill_value_def split: if_splits)
    have t3: "map_of (replace_inf_frame train2) n = Some (FloatCol (cleaned_values avg xs))"
      using t2 by (simp add: map_of_replace_inf_frame cleaned_values_def)
    from median_frame_Inr[OF med] have
      "\<forall>k c. map_of (replace_inf_frame train2) k = Some c \<longrightarrow>
         (\<exists>m. median avg c = Inr m \<and> map_of medians k = Some m)" by (elim conjE)
    from this[rule_format, OF t3] have mm: "map_of medians n = Some (np_median avg (cleaned_values avg xs))"
      by auto
    have t4: "map_of train' n = Some (FloatCol (final_train_values avg xs))"
      using t3 mm by (simp add: tr' map_of_fillna_frame final_train_values_def)
    from median_frame_Inr[OF med4] have
      "\<forall>k c. map_of train' k = Some c \<longrightarrow>
         (\<exists>m. median avg c = Inr m \<and> map_of medians4 k = Some m)" unfolding tr' by (elim conjE)
    from this[rule_format, OF t4]
    have mm4: "map_of medians4 n = Some (np_median avg (final_train_values avg xs))"
      by auto
    have "map_of test' n = Some (final_test_column avg xs sc)"
      using s2 mm4
      by (simp add: te' map_of_fillna_frame map_of_replace_inf_frame final_test_column_def)
    with sc t4 show ?thesis by blast
  qed
  from ctr' cte' c1 per show ?thesis by simp
qed

lemma cells_fillna:
  "cells (fillna v c) = map (\<lambda>x. if x = Flt NaN then Flt v else x) (cells c)"
  by (cases c) (auto simp: comp_def)

lemma cells_replace_inf:
  "cells (replace_inf c) =
     map (\<lambda>x. if x = Flt PInf \<or> x = Flt NInf then Flt NaN else x) (cells c)"
  by (cases c) (auto simp: comp_def is_inf_def split: pyobj.splits)

lemma is_object_fillna [simp]: "is_object (fillna v c) = is_object c"
  by (cases c) simp_all

lemma is_object_replace_inf [simp]: "is_object (replace_inf c) = is_object c"
  by (cases c) simp_all

lemma cleaned_values_no_inf: "\<forall>x\<in>set (cleaned_values avg xs). \<not> is_inf x"
  by (auto simp: cleaned_values_def is_inf_def)

lemma cleaned_values_keeps_fin:
  "\<exists>x\<in>set xs. is_fin x \<Longrightarrow> \<exists>x\<in>set (cleaned_values avg xs). is_fin x"
  by (force simp: cleaned_values_def is_fin_def is_inf_def split: npfloat.splits)

lemma cleaned_values_members:
  "x \<in> set (cleaned_values avg xs) \<Longrightarrow>
     x = NaN \<or> (x \<in> set xs \<and> \<not> is_inf x) \<or> (x = loop_fill_value avg xs \<and> \<not> is_inf x)"
  by (auto simp: cleaned_values_def split: if_splits)

lemma final_train_values_members:
  "x \<in> set (final_train_values avg xs) \<Longrightarrow>
     x \<in> set (cleaned_values avg xs) \<and> x \<noteq> NaN \<or> x = np_median avg (cleaned_values avg xs)"
  by (auto simp: final_train_values_def split: if_splits)

text \<open>
  Bounds: when the finite training values of a column are within a bound that the average
  keeps, so are the values that fill it, and no median of the column overflows.
\<close>

lemma cleaned_values_bounded:
  assumes avg: "\<forall>a b. \<bar>a\<bar> \<le> B \<and> \<bar>b\<bar> \<le> B \<longrightarrow> (\<exists>r. avg a b = Fin r \<and> \<bar>r\<bar> \<le> B)"
    and bound: "\<forall>r. Fin r \<in> set xs \<longrightarrow> \<bar>r\<bar> \<le> B"
  shows "\<forall>r. Fin r \<in> set (cleaned_values avg xs) \<longrightarrow> \<bar>r\<bar> \<le> B"
proof (intro allI impI)
  fix r
  assume "Fin r \<in> set (cleaned_values avg xs)"
  from cleaned_values_members[OF this]
  have "Fin r \<in> set xs \<or> Fin r = loop_fill_value avg xs" by auto
  then show "\<bar>r\<bar> \<le> B"
  proof
    assume "Fin r \<in> set xs"
    with bound show ?thesis by blast
  next
    assume "Fin r = loop_fill_value avg xs"
    then have "np_median avg xs = Fin r" by (simp add: loop_fill_value_def split: if_splits)
    from np_median_Fin_bounded[OF avg bound this] show ?thesis .
  qed
qed

lemma final_train_values_bounded:
  assumes avg: "\<forall>a b. \<bar>a\<bar> \<le> B \<and> \<bar>b\<bar> \<le> B \<longrightarrow> (\<exists>r. avg a b = Fin r \<and> \<bar>r\<bar> \<le> B)"
    and bound: "\<forall>r. Fin r \<in> set xs \<longrightarrow> \<bar>r\<bar> \<le> B"
  shows "\<forall>r. Fin r \<in> set (final_train_values avg xs) \<longrightarrow> \<bar>r\<bar> \<le> B"
proof (intro allI impI)
  fix r
  assume "Fin r \<in> set (final_train_values avg xs)"
  from final_train_values_members[OF this]
  have "Fin r \<in> set (cleaned_values avg xs) \<or> np_median avg (cleaned_values avg xs) = Fin r"
    by auto
  then show "\<bar>r\<bar> \<le> B"
  proof
    assume "Fin r \<in> set (cleaned_values avg xs)"
    with cleaned_values_bounded[OF avg bound] show ?thesis by blast
  next
    assume "np_median avg (cleaned_values avg xs) = Fin r"
    from np_median_Fin_bounded[OF avg cleaned_values_bounded[OF avg bound] this]
    show ?thesis .
  qed
qed

lemma final_train_values_no_inf:
  assumes avg: "\<forall>a b. \<bar>a\<bar> \<le> B \<and> \<bar>b\<bar> \<le> B \<longrightarrow> (\<exists>r. avg a b = Fin r \<and> \<bar>r\<bar> \<le> B)"
    and bound: "\<forall>r. Fin r \<in> set xs \<longrightarrow> \<bar>r\<bar> \<le> B"
  shows "\<forall>x\<in>set (final_train_values avg xs). \<not> is_inf x"
proof
  fix x
  assume "x \<in> set (final_train_values avg xs)"
  from final_train_values_members[OF this]
  show "\<not> is_inf x"
  proof
    assume "x \<in> set (cleaned_values avg xs) \<and> x \<noteq> NaN"
    with cleaned_values_no_inf show ?thesis by blast
  next
    assume "x = np_median avg (cleaned_values avg xs)"
    with np_median_not_inf[OF avg cleaned_values_bounded[OF avg bound] cleaned_values_no_inf]
    show ?thesis by simp
  qed
qed

lemma final_test_column_no_inf:
  assumes avg: "\<forall>a b. \<bar>a\<bar> \<le> B \<and> \<bar>b\<bar> \<le> B \<longrightarrow> (\<exists>r. avg a b = Fin r \<and> \<bar>r\<bar> \<le> B)"
    and bound: "\<forall>r. Fin r \<in> set xs \<longrightarrow> \<bar>r\<bar> \<le> B"
  shows "no_inf (final_test_column avg xs sc)"
proof -
  have "\<not> is_inf (np_median avg (final_train_values avg xs))"
    using avg final_train_values_bounded[OF avg bound] final_train_values_no_inf[OF avg bound]
    by (rule np_median_not_inf)
  then show ?thesis
    by (auto simp: no_inf_def final_test_column_def cells_fillna cells_replace_inf
        list_all_iff is_inf_def)
qed

text \<open>
  No NaN is left in a column whose training values hold a finite one, for an average that
  is never NaN: the medians that fill it may overflow, but are not NaN.
\<close>

lemma cleaned_median_not_nan:
  assumes avg: "\<forall>a b. avg a b \<noteq> NaN" and fin: "\<exists>x\<in>set xs. is_fin x"
  shows "np_median avg (cleaned_values avg xs) \<noteq> NaN"
proof -
  from cleaned_values_keeps_fin[OF fin, of avg] obtain x where
    x: "x \<in> set (cleaned_values avg xs)" "is_fin x" by blast
  from x(2) have "x \<noteq> NaN" by (auto simp: is_fin_def)
  with x(1) have "\<exists>x\<in>set (cleaned_values avg xs). x \<noteq> NaN" by blast
  moreover have "\<not> (PInf \<in> set (cleaned_values avg xs) \<and> NInf \<in> set (cleaned_values avg xs))"
    using cleaned_values_no_inf[of avg xs] by (auto simp: is_inf_def)
  ultimately show ?thesis using avg by (intro np_median_not_nan)
qed

lemma final_train_values_no_nan:
  assumes avg: "\<forall>a b. avg a b \<noteq> NaN" and fin: "\<exists>x\<in>set xs. is_fin x"
  shows "NaN \<notin> set (final_train_values avg xs)"
proof
  assume "NaN \<in> set (final_train_values avg xs)"
  from final_train_values_members[OF this] cleaned_median_not_nan[OF avg fin]
  show False by auto
qed

lemma final_median_not_nan:
  assumes avg: "\<forall>a b. avg a b \<noteq> NaN" and fin: "\<exists>x\<in>set xs. is_fin x"
  shows "np_median avg (final_train_values avg xs) \<noteq> NaN"
proof -
  let ?f = "final_train_values avg xs"
  let ?m = "np_median avg (cleaned_values avg xs)"
  have len: "length ?f = length xs"
    by (simp add: final_train_values_def cleaned_values_def)
  from fin have "xs \<noteq> []" by auto
  with len have "?f \<noteq> []" by auto
  then obtain x where x: "x \<in> set ?f" by (cases ?f) auto
  with final_train_values_no_nan[OF avg fin] have "x \<noteq> NaN" by auto
  with x have some: "\<exists>x\<in>set ?f. x \<noteq> NaN" by blast
  have inf_is_m: "x = ?m" if "x \<in> set ?f" "is_inf x" for x
    using final_train_values_members[OF that(1)] cleaned_values_no_inf[of avg xs] that(2)
    by auto
  have "\<not> (PInf \<in> set ?f \<and> NInf \<in> set ?f)"
  proof
    assume "PInf \<in> set ?f \<and> NInf \<in> set ?f"
    then have "PInf = ?m" "NInf = ?m"
      using inf_is_m[of PInf] inf_is_m[of NInf] by (simp_all add: is_inf_def)
    then show False by simp
  qed
  with avg some show ?thesis by (intro np_median_not_nan)
qed

lemma final_test_column_no_nan:
  assumes avg: "\<forall>a b. avg a b \<noteq> NaN" and fin: "\<exists>x\<in>set xs. is_fin x"
  shows "no_nan (final_test_column avg xs sc)"
  using final_median_not_nan[OF avg fin]
  by (auto simp: no_nan_def final_test_column_def cells_fillna list_all_iff)

lemma is_object_final_test_column [simp]:
  "is_object (final_test_column avg xs sc) = is_object sc"
  by (simp add: final_test_column_def)

section \<open>Properties of the schema reconciliation\<close>

lemma preprocess_data_Inr:
  assumes "preprocess_data fr avg train_df0 test_df target = Inr (tr, te, y, ids1, ids2)"
  shows "\<exists>train1 test1 train3 test3.
           getitem train_df0 target = Inr y \<and>
           encode_loop fr
             (map fst (filter (\<lambda>(n, c). is_object c)
                (filter (\<lambda>(n, c). n \<noteq> target) train_df0)))
             (filter (\<lambda>(n, c). n \<noteq> target) train_df0) test_df = Inr (train1, test1) \<and>
           align_inner (filter (\<lambda>(n, c). n \<noteq> ''SK_ID_CURR'') train1)
             (filter (\<lambda>(n, c). n \<noteq> ''SK_ID_CURR'') test1) = (train3, test3) \<and>
           handle_missing avg train3 test3 = Inr (tr, te)"
proof -
  let ?train_df = "filter (\<lambda>(n, c). n \<noteq> target) train_df0"
  let ?cats = "map fst (filter (\<lambda>(n, c). is_object c) ?train_df)"
  note pd = assms[unfolded preprocess_data_def]
  from pd obtain y' where y': "getitem train_df0 target = Inr y'"
    by (cases "getitem train_df0 target") simp_all
  from pd y' obtain d where d: "drop_columns [target] train_df0 = Inr d"
    by (cases "drop_columns [target] train_df0") simp_all
  have d': "d = ?train_df" using drop_columns_Inr[OF d] by simp
  from pd y' d obtain i1 where i1: "getitem d ''SK_ID_CURR'' = Inr i1"
    by (cases "getitem d ''SK_ID_CURR''") simp_all
  from pd y' d i1 obtain i2 where i2: "getitem test_df ''SK_ID_CURR'' = Inr i2"
    by (cases "getitem test_df ''SK_ID_CURR''") simp_all
  from pd y' d i1 i2 obtain p where p: "encode_loop fr ?cats ?train_df test_df = Inr p"
    unfolding d' by (cases "encode_loop fr ?cats ?train_df test_df") (simp_all add: Let_def)
  obtain train1 test1 where p': "p = (train1, test1)" by (cases p)
  from pd y' d i1 i2 p p' obtain train2 where t2: "drop_columns [''SK_ID_CURR''] train1 = Inr train2"
    unfolding d' by (cases "drop_columns [''SK_ID_CURR''] train1") (simp_all add: Let_def)
  from pd y' d i1 i2 p p' t2 obtain test2 where s2: "drop_columns [''SK_ID_CURR''] test1 = Inr test2"
    unfolding d' by (cases "drop_columns [''SK_ID_CURR''] test1") (simp_all add: Let_def)
  obtain train3 test3 where al: "align_inner train2 test2 = (train3, test3)"
    by (cases "align_inner train2 test2")
  from pd y' d i1 i2 p p' t2 s2 al obtain q where q: "handle_missing avg train3 test3 = Inr q"
    unfolding d' by (cases "handle_missing avg train3 test3") (simp_all add: Let_def)
  from pd y' d i1 i2 p p' t2 s2 al q have "q = (tr, te)" "y' = y"
    unfolding d' by (auto simp: Let_def split: prod.splits)
  moreover have "train2 = filter (\<lambda>(n, c). n \<noteq> ''SK_ID_CURR'') train1"
    "test2 = filter (\<lambda>(n, c). n \<noteq> ''SK_ID_CURR'') test1"
    using drop_columns_Inr[OF t2] drop_columns_Inr[OF s2] by simp_all
  ultimately show ?thesis using y' p p' al q by auto
qed

lemma reindex_member:
  "(n, c) \<in> set (reindex names df) \<Longrightarrow> map_of df n = Some c \<and> n \<in> set names"
  by (induction names) (auto simp: reindex_def map_filter_simps split: option.splits)

lemma rectangular_reindex:
  assumes "rectangular df" and "set names \<subseteq> set (columns df)" and "distinct names"
  shows "rectangular (reindex names df)"
proof -
  have cols: "columns (reindex names df) = names" using assms(2) by (rule columns_reindex)
  have len: "col_len c = nrows df" if "(n, c) \<in> set (reindex names df)" for n c
    using reindex_member[OF that] assms(1) by (auto intro: rectangular_col_len)
  have "nrows (reindex names df) = nrows df" if "reindex names df \<noteq> []"
  proof -
    from that obtain n c rest where r: "reindex names df = (n, c) # rest"
      by (cases "reindex names df") auto
    then have "(n, c) \<in> set (reindex names df)" by simp
    from len[OF this] r show ?thesis by (simp add: nrows_def)
  qed
  then have "\<forall>(n, c)\<in>set (reindex names df). col_len c = nrows (reindex names df)"
    using len by (cases "reindex names df = []") auto
  with cols assms(3) show ?thesis by (simp add: rectangular_def list_all_iff)
qed

lemma object_names:
  assumes "distinct (columns df)" and "map_of df n = Some c"
  shows "n \<in> set (map fst (filter (\<lambda>(n, c). is_object c) df)) \<longleftrightarrow> is_object c"
proof -
  have "(n, c') \<in> set df \<longleftrightarrow> c' = c" for c'
    using assms by (auto simp: map_of_distinct_iff)
  then show ?thesis by (auto simp: image_iff) 
qed

lemma col_len_encoded_train [simp]: "col_len (encoded_train fr c t) = col_len c"
  by (simp add: encoded_train_def)

lemma col_len_encoded_test [simp]: "col_len (encoded_test fr c t) = col_len t"
  by (simp add: encoded_test_def)

lemma is_object_int_column [simp]: "\<not> is_object (int_column ks)"
  by (simp add: int_column_def)

lemma in_columns_iff: "n \<in> set (columns df) \<longleftrightarrow> map_of df n \<noteq> None"
  by (simp add: columns_def map_of_eq_None_iff)

lemma map_of_filter_name:
  "map_of (filter (\<lambda>(n, c). n \<noteq> t) df) k = (if k = t then None else map_of df k)"
  by (induction df) auto

lemma rectangular_filter_name:
  "rectangular df \<Longrightarrow> rectangular (filter (\<lambda>(n, c). n \<noteq> t) df)"
  using rectangular_filter_names[of df "{t}"] by simp

lemma aligned_frames:
  assumes enc: "encode_loop fr
             (map fst (filter (\<lambda>(n, c). is_object c)
                (filter (\<lambda>(n, c). n \<noteq> target) train_df0)))
             (filter (\<lambda>(n, c). n \<noteq> target) train_df0) test_df = Inr (train1, test1)"
    and al: "align_inner (filter (\<lambda>(n, c). n \<noteq> ''SK_ID_CURR'') train1)
             (filter (\<lambda>(n, c). n \<noteq> ''SK_ID_CURR'') test1) = (train3, test3)"
    and rect: "rectangular train_df0"
  shows "columns train3 = columns test3 \<and> rectangular train3 \<and>
         (\<forall>n c0 t0. map_of train_df0 n = Some c0 \<and> map_of test_df n = Some t0 \<and>
              n \<noteq> target \<and> n \<noteq> ''SK_ID_CURR'' \<longrightarrow>
              map_of train3 n = Some (if is_object c0 then encoded_train fr c0 t0 else c0) \<and>
              map_of test3 n = Some (if is_object c0 then encoded_test fr c0 t0 else t0)) \<and>
         (\<forall>n c. map_of train3 n = Some c \<longrightarrow>
              n \<noteq> target \<and> n \<noteq> ''SK_ID_CURR'' \<and>
              (\<exists>c0 t0. map_of train_df0 n = Some c0 \<and> map_of test_df n = Some t0))"
proof -
  let ?train_df = "filter (\<lambda>(n, c). n \<noteq> target) train_df0"
  let ?cats = "map fst (filter (\<lambda>(n, c). is_object c) ?train_df)"
  let ?train2 = "filter (\<lambda>(n, c). n \<noteq> ''SK_ID_CURR'') train1"
  let ?test2 = "filter (\<lambda>(n, c). n \<noteq> ''SK_ID_CURR'') test1"
  have r0: "rectangular ?train_df" using rect by (rule rectangular_filter_name)
  then have d0: "distinct (columns ?train_df)" by (simp add: rectangular_def)
  then have dc: "distinct ?cats" unfolding columns_def by (rule distinct_map_filter)
  note el = encode_loop_columns[OF enc dc r0]
  from el have r1: "rectangular train1" and c1: "columns train1 = columns ?train_df"
    by simp_all
  from el have other: "\<And>n. n \<notin> set ?cats \<Longrightarrow>
        map_of train1 n = map_of ?train_df n \<and> map_of test1 n = map_of test_df n"
    by blast
  from el have cat: "\<And>n. n \<in> set ?cats \<Longrightarrow> \<exists>tc sc.
            map_of ?train_df n = Some tc \<and> map_of test_df n = Some sc \<and>
            map_of train1 n = Some (encoded_train fr tc sc) \<and>
            map_of test1 n = Some (encoded_test fr tc sc)"
    unfolding encoded_train_def encoded_test_def by blast
  have m0: "map_of ?train_df n = (if n = target then None else map_of train_df0 n)" for n
    by (simp add: map_of_filter_name)
  have m2: "map_of ?train2 n = (if n = ''SK_ID_CURR'' then None else map_of train1 n)" for n
    by (simp add: map_of_filter_name)
  have s2: "map_of ?test2 n = (if n = ''SK_ID_CURR'' then None else map_of test1 n)" for n
    by (simp add: map_of_filter_name)
  note ai = align_inner_columns[OF al]
  from ai have a: "columns train3 = columns test3" by simp
  from ai have m3: "\<And>k. map_of train3 k = (if k \<in> set (columns ?test2) then map_of ?train2 k else None)"
    by blast
  from ai have s3: "\<And>k. map_of test3 k = (if k \<in> set (columns ?train2) then map_of ?test2 k else None)"
    by blast
  have r2: "rectangular ?train2" using r1 by (rule rectangular_filter_name)
  have e: "rectangular train3"
  proof -
    let ?common = "filter (\<lambda>n. n \<in> set (columns ?test2)) (columns ?train2)"
    from al have "train3 = reindex ?common ?train2" by (simp add: align_inner_def Let_def)
    moreover have "rectangular (reindex ?common ?train2)"
      using r2 by (intro rectangular_reindex) (auto simp: rectangular_def)
    ultimately show ?thesis by simp
  qed
  have c: "map_of train3 n = Some (if is_object c0 then encoded_train fr c0 t0 else c0) \<and>
           map_of test3 n = Some (if is_object c0 then encoded_test fr c0 t0 else t0)"
    if h: "map_of train_df0 n = Some c0" "map_of test_df n = Some t0" "n \<noteq> target"
      "n \<noteq> ''SK_ID_CURR''" for n c0 t0
  proof -
    from h m0 have t0: "map_of ?train_df n = Some c0" by simp
    have t1: "map_of train1 n = Some (if is_object c0 then encoded_train fr c0 t0 else c0) \<and>
              map_of test1 n = Some (if is_object c0 then encoded_test fr c0 t0 else t0)"
    proof (cases "is_object c0")
      case True
      with object_names[OF d0 t0] have "n \<in> set ?cats" by simp
      from cat[OF this] t0 h(2) True show ?thesis by auto
    next
      case False
      with object_names[OF d0 t0] have "n \<notin> set ?cats" by simp
      from other[OF this] t0 h(2) False show ?thesis by simp
    qed
    with h(4) have "map_of ?train2 n \<noteq> None" "map_of ?test2 n \<noteq> None"
      by (simp_all add: m2 s2)
    then have "n \<in> set (columns ?train2)" "n \<in> set (columns ?test2)"
      using in_columns_iff by blast+
    with t1 h(4) show ?thesis by (simp add: m3 s3 m2 s2)
  qed
  have d: "n \<noteq> target \<and> n \<noteq> ''SK_ID_CURR'' \<and>
           (\<exists>c0 t0. map_of train_df0 n = Some c0 \<and> map_of test_df n = Some t0)"
    if h: "map_of train3 n = Some c" for n c
  proof -
    from h m3[of n] have in2: "n \<in> set (columns ?test2)" and t2: "map_of ?train2 n = Some c"
      by (auto split: if_splits)
    from t2 m2[of n] have nsk: "n \<noteq> ''SK_ID_CURR''" and t1: "map_of train1 n = Some c"
      by (auto split: if_splits)
    from t1 have "n \<in> set (columns train1)" by (rule map_of_in_columns)
    then have "n \<in> set (columns ?train_df)" by (simp add: c1)
    then obtain c0 where c0: "map_of ?train_df n = Some c0" using in_columns_map_of by blast
    with m0[of n] have nt: "n \<noteq> target" and c00: "map_of train_df0 n = Some c0"
      by (auto split: if_splits)
    from in2 have "map_of ?test2 n \<noteq> None" using in_columns_iff by blast
    with s2[of n] nsk have te1: "map_of test1 n \<noteq> None" by simp
    have "\<exists>t0. map_of test_df n = Some t0"
    proof (cases "n \<in> set ?cats")
      case True
      from cat[OF this] show ?thesis by blast
    next
      case False
      from other[OF this] te1 show ?thesis by auto
    qed
    with nt nsk c00 show ?thesis by blast
  qed
  from a e c d show ?thesis by blast
qed

lemma final_train_values_all_fin_id:
  assumes "\<forall>x\<in>set xs. is_fin x"
  shows "final_train_values avg xs = xs"
proof -
  have nn: "NaN \<notin> set xs" using assms by (auto simp: is_fin_def)
  have ni: "\<forall>x\<in>set xs. \<not> is_inf x" using assms by (auto simp: is_fin_def is_inf_def)
  have a: "map (\<lambda>x. if x = NaN then loop_fill_value avg xs else x) xs = xs"
    using nn by (intro map_idI) auto
  have b: "map (\<lambda>x. if is_inf x then NaN else x) xs = xs"
    using ni by (intro map_idI) auto
  have c: "cleaned_values avg xs = xs"
    unfolding cleaned_values_def a b ..
  have "map (\<lambda>x. if x = NaN then np_median avg xs else x) xs = xs"
    using nn by (intro map_idI) auto
  then show ?thesis unfolding final_train_values_def c .
qed

lemma final_test_column_all_fin_id:
  assumes "\<forall>x\<in>set ys. is_fin x"
  shows "final_test_column avg xs (FloatCol ys) = FloatCol ys"
proof -
  have nn: "\<forall>x\<in>set ys. x \<noteq> NaN" using assms by (auto simp: is_fin_def)
  have ni: "\<forall>x\<in>set ys. \<not> is_inf x" using assms by (auto simp: is_fin_def is_inf_def)
  have a: "map (\<lambda>x. if is_inf x then NaN else x) ys = ys"
    using ni by (intro map_idI) auto
  have b: "map (\<lambda>x. if x = NaN then v else x) ys = ys" for v
    using nn by (intro map_idI) auto
  show ?thesis unfolding final_test_column_def by (simp add: a b)
qed

lemma int_column_all_fin: "int_column ks = FloatCol ys \<Longrightarrow> \<forall>x\<in>set ys. is_fin x"
  by (auto simp: int_column_def is_fin_def)

lemma no_nan_all_fin: "\<forall>x\<in>set ys. is_fin x \<Longrightarrow> no_nan (FloatCol ys)"
  by (auto simp: no_nan_def list_all_iff is_fin_def)

lemma no_inf_FloatCol: "\<forall>x\<in>set ys. \<not> is_inf x \<Longrightarrow> no_inf (FloatCol ys)"
  by (auto simp: no_inf_def list_all_iff is_inf_def)

text \<open>
  The reconciled frames, column by column: every column of the output comes from a
  column that both inputs have, encoded when the training column is categorical, and holds
  what lines 252 to 273 make of it.
\<close>

lemma preprocess_data_columns:
  assumes pd: "preprocess_data fr avg train_df0 test_df target = Inr (tr, te, y, ids1, ids2)"
    and rect: "rectangular train_df0"
  shows "columns tr = columns te \<and> distinct (columns tr) \<and>
         (\<forall>n. n \<in> set (columns tr) \<longrightarrow>
            n \<noteq> target \<and> n \<noteq> ''SK_ID_CURR'' \<and>
            (\<exists>c0 t0 xs sc. map_of train_df0 n = Some c0 \<and> map_of test_df n = Some t0 \<and>
               FloatCol xs = (if is_object c0 then encoded_train fr c0 t0 else c0) \<and>
               sc = (if is_object c0 then encoded_test fr c0 t0 else t0) \<and>
               map_of tr n = Some (FloatCol (final_train_values avg xs)) \<and>
               map_of te n = Some (final_test_column avg xs sc)))"
proof -
  from preprocess_data_Inr[OF pd] obtain train1 test1 train3 test3 where
    enc: "encode_loop fr
             (map fst (filter (\<lambda>(n, c). is_object c)
                (filter (\<lambda>(n, c). n \<noteq> target) train_df0)))
             (filter (\<lambda>(n, c). n \<noteq> target) train_df0) test_df = Inr (train1, test1)"
    and al: "align_inner (filter (\<lambda>(n, c). n \<noteq> ''SK_ID_CURR'') train1)
             (filter (\<lambda>(n, c). n \<noteq> ''SK_ID_CURR'') test1) = (train3, test3)"
    and hm: "handle_missing avg train3 test3 = Inr (tr, te)"
    by blast
  note af = aligned_frames[OF enc al rect]
  from af have cols3: "columns train3 = columns test3" and r3: "rectangular train3" by simp_all
  from r3 have d3: "distinct (columns train3)" by (simp add: rectangular_def)
  from af have fwd: "\<And>n c0 t0. map_of train_df0 n = Some c0 \<Longrightarrow> map_of test_df n = Some t0 \<Longrightarrow>
              n \<noteq> target \<Longrightarrow> n \<noteq> ''SK_ID_CURR'' \<Longrightarrow>
              map_of train3 n = Some (if is_object c0 then encoded_train fr c0 t0 else c0) \<and>
              map_of test3 n = Some (if is_object c0 then encoded_test fr c0 t0 else t0)"
    by blast
  from af have bwd: "\<And>n c. map_of train3 n = Some c \<Longrightarrow>
              n \<noteq> target \<and> n \<noteq> ''SK_ID_CURR'' \<and>
              (\<exists>c0 t0. map_of train_df0 n = Some c0 \<and> map_of test_df n = Some t0)"
    by blast
  note hc = handle_missing_column[OF hm cols3 d3]
  from hc have ctr: "columns tr = filter (\<lambda>n. n \<notin> set (high_missing_cols train3)) (columns train3)"
    and cte: "columns te = columns tr" by simp_all
  from hc have per: "\<And>n xs. map_of train3 n = Some (FloatCol xs) \<Longrightarrow>
            n \<notin> set (high_missing_cols train3) \<Longrightarrow>
            (\<exists>sc. map_of test3 n = Some sc \<and>
               map_of tr n = Some (FloatCol (final_train_values avg xs)) \<and>
               map_of te n = Some (final_test_column avg xs sc))"
    by blast
  have dtr: "distinct (columns tr)" using d3 by (simp add: ctr)
  have main: "n \<noteq> target \<and> n \<noteq> ''SK_ID_CURR'' \<and>
            (\<exists>c0 t0 xs sc. map_of train_df0 n = Some c0 \<and> map_of test_df n = Some t0 \<and>
               FloatCol xs = (if is_object c0 then encoded_train fr c0 t0 else c0) \<and>
               sc = (if is_object c0 then encoded_test fr c0 t0 else t0) \<and>
               map_of tr n = Some (FloatCol (final_train_values avg xs)) \<and>
               map_of te n = Some (final_test_column avg xs sc))"
    if n: "n \<in> set (columns tr)" for n
  proof -
    from n ctr have in3: "n \<in> set (columns train3)" and nh: "n \<notin> set (high_missing_cols train3)"
      by auto
    from in3 obtain c3 where c3: "map_of train3 n = Some c3" using in_columns_map_of by blast
    from bwd[OF c3] obtain c0 t0 where nt: "n \<noteq> target" "n \<noteq> ''SK_ID_CURR''"
      and c0: "map_of train_df0 n = Some c0" and t0: "map_of test_df n = Some t0" by blast
    from fwd[OF c0 t0 nt] c3 have c3': "c3 = (if is_object c0 then encoded_train fr c0 t0 else c0)"
      and s3: "map_of test3 n = Some (if is_object c0 then encoded_test fr c0 t0 else t0)"
      by simp_all
    have "\<not> is_object c3" unfolding c3' by (simp add: encoded_train_def)
    then obtain xs where xs: "c3 = FloatCol xs" by (cases c3) simp_all
    from per[OF c3[unfolded xs] nh] s3 have
      "map_of tr n = Some (FloatCol (final_train_values avg xs))"
      "map_of te n = Some (final_test_column avg xs (if is_object c0 then encoded_test fr c0 t0 else t0))"
      by auto
    with nt c0 t0 xs c3' show ?thesis by metis
  qed
  from cte dtr main show ?thesis by simp
qed

section \<open>When the reconciliation returns\<close>

lemma set_columns_setitem: "set (columns (setitem df n c)) = insert n (set (columns df))"
proof (cases "n \<in> set (columns df)")
  case True
  then show ?thesis by (auto simp: columns_setitem)
next
  case False
  then show ?thesis by (simp add: setitem_def columns_def)
qed

lemma setitem_member:
  "(n, c) \<in> set (setitem df name c') \<Longrightarrow> (n, c) \<in> set df \<or> (n, c) = (name, c')"
  by (auto simp: setitem_def split: if_splits)

lemma getitem_in_columns: "n \<in> set (columns df) \<Longrightarrow> \<exists>c. getitem df n = Inr c \<and> (n, c) \<in> set df"
proof -
  assume "n \<in> set (columns df)"
  then obtain c where "map_of df n = Some c" using in_columns_map_of by blast
  then show ?thesis by (auto simp: getitem_def dest: map_of_SomeD)
qed

lemma drop_columns_returns:
  "set names \<subseteq> set (columns df) \<Longrightarrow>
     drop_columns names df = Inr (filter (\<lambda>(n, c). n \<notin> set names) df)"
proof -
  assume "set names \<subseteq> set (columns df)"
  then have "filter (\<lambda>n. n \<notin> set (columns df)) names = []"
    by (auto simp: filter_empty_conv)
  then show ?thesis by (simp add: drop_columns_def)
qed

lemma encode_loop_returns:
  assumes "set cols \<subseteq> set (columns train)" and "set cols \<subseteq> set (columns test)"
  shows "\<exists>tr te. encode_loop fr cols train test = Inr (tr, te)"
  using assms
proof (induction cols arbitrary: train test)
  case Nil
  then show ?case by simp
next
  case (Cons col cols)
  from Cons.prems obtain tc where tc: "getitem train col = Inr tc"
    using getitem_in_columns[of col train] by auto
  from Cons.prems obtain sc where sc: "getitem test col = Inr sc"
    using getitem_in_columns[of col test] by auto
  let ?codes = "fit_transform (astype_str fr tc @ astype_str fr sc)"
  let ?train = "setitem train col (int_column (take (nrows train) ?codes))"
  let ?test = "setitem test col (int_column (drop (nrows train) ?codes))"
  have "set cols \<subseteq> set (columns ?train)" "set cols \<subseteq> set (columns ?test)"
    using Cons.prems by (auto simp: set_columns_setitem)
  from Cons.IH[OF this] obtain tr te where "encode_loop fr cols ?train ?test = Inr (tr, te)"
    by blast
  with tc sc show ?case by (simp add: Let_def)
qed

lemma impute_loop_returns:
  assumes "set cols \<subseteq> set (columns train)" and "set cols \<subseteq> set (columns test)"
    and "\<forall>(n, c)\<in>set train. \<not> is_object c"
  shows "\<exists>tr te. impute_loop avg cols train test = Inr (tr, te) \<and>
                 (\<forall>(n, c)\<in>set tr. \<not> is_object c)"
  using assms
proof (induction cols arbitrary: train test)
  case Nil
  then show ?case by simp
next
  case (Cons col cols)
  from Cons.prems obtain tc where tc: "getitem train col = Inr tc" and mem: "(col, tc) \<in> set train"
    using getitem_in_columns[of col train] by auto
  from Cons.prems obtain sc where sc: "getitem test col = Inr sc"
    using getitem_in_columns[of col test] by auto
  from mem Cons.prems(3) have "\<not> is_object tc" by auto
  then obtain xs where xs: "tc = FloatCol xs" by (cases tc) simp_all
  show ?case
  proof (cases "0 < isnull_sum tc")
    case True
    let ?m = "np_median avg xs"
    let ?train = "setitem train col (fillna ?m tc)"
    let ?test = "setitem test col (fillna ?m sc)"
    have a: "set cols \<subseteq> set (columns ?train)" "set cols \<subseteq> set (columns ?test)"
      using Cons.prems by (auto simp: set_columns_setitem)
    have b: "\<forall>(n, c)\<in>set ?train. \<not> is_object c"
      using Cons.prems(3) xs by (auto dest!: setitem_member)
    from Cons.IH[OF a b] obtain tr te where
      "impute_loop avg cols ?train ?test = Inr (tr, te)" "\<forall>(n, c)\<in>set tr. \<not> is_object c"
      by blast
    with tc sc True xs show ?thesis by simp
  next
    case False
    have a: "set cols \<subseteq> set (columns train)" "set cols \<subseteq> set (columns test)"
      using Cons.prems by auto
    from Cons.IH[OF a Cons.prems(3)] obtain tr te where
      "impute_loop avg cols train test = Inr (tr, te)" "\<forall>(n, c)\<in>set tr. \<not> is_object c"
      by blast
    with tc False show ?thesis by simp
  qed
qed

lemma median_frame_returns:
  "\<forall>(n, c)\<in>set df. \<not> is_object c \<Longrightarrow> \<exists>ms. median_frame avg df = Inr ms"
proof (induction df)
  case Nil
  then show ?case by simp
next
  case (Cons p df)
  obtain n c where p: "p = (n, c)" by (cases p)
  from Cons.prems p have "\<not> is_object c" by simp
  then obtain xs where xs: "c = FloatCol xs" by (cases c) simp_all
  from Cons.prems have "\<forall>(n, c)\<in>set df. \<not> is_object c" by simp
  from Cons.IH[OF this] obtain ms where "median_frame avg df = Inr ms" by blast
  with p xs show ?case by simp
qed

lemma handle_missing_returns:
  assumes cols: "columns train = columns test"
    and num: "\<forall>(n, c)\<in>set train. \<not> is_object c"
  shows "\<exists>tr te. handle_missing avg train test = Inr (tr, te)"
proof -
  let ?high = "high_missing_cols train"
  let ?tr1 = "filter (\<lambda>(n, c). n \<notin> set ?high) train"
  let ?te1 = "filter (\<lambda>(n, c). n \<notin> set ?high) test"
  have sub: "set ?high \<subseteq> set (columns train)" by (rule high_missing_cols_subset)
  have d1: "drop_columns ?high train = Inr ?tr1" using sub by (rule drop_columns_returns)
  have d2: "drop_columns ?high test = Inr ?te1"
    using sub unfolding cols by (rule drop_columns_returns)
  have id: "filter (\<lambda>(n, c). n \<notin> set ?high) df = df" if "?high = []" for df :: frame
    using that by simp
  have e1: "(if 0 < length ?high
            then (case drop_columns ?high train of
                    Inl e \<Rightarrow> Inl e
                  | Inr tr \<Rightarrow>
                      (case drop_columns ?high test of
                         Inl e \<Rightarrow> Inl e
                       | Inr te \<Rightarrow> Inr (tr, te)))
            else Inr (train, test)) = Inr (?tr1, ?te1)"
  proof (cases "?high = []")
    case True
    then show ?thesis by simp
  next
    case False
    then show ?thesis by (simp add: d1 d2)
  qed
  have c1: "columns ?tr1 = filter (\<lambda>n. n \<notin> set ?high) (columns train)"
    by (rule columns_filter_names)
  have ct1: "columns ?te1 = columns ?tr1" using cols by (simp add: columns_filter_names)
  have n1: "\<forall>(n, c)\<in>set ?tr1. \<not> is_object c" using num by auto
  from impute_loop_returns[OF _ _ n1, of "columns ?tr1" ?te1 avg] ct1
  obtain train2 test2 where
    loop: "impute_loop avg (columns ?tr1) ?tr1 ?te1 = Inr (train2, test2)"
    and n2: "\<forall>(n, c)\<in>set train2. \<not> is_object c"
    by auto
  have n3: "\<forall>(n, c)\<in>set (replace_inf_frame train2). \<not> is_object c"
    using n2 by (auto simp: replace_inf_frame_def)
  from median_frame_returns[OF this] obtain medians where
    med: "median_frame avg (replace_inf_frame train2) = Inr medians" by blast
  have n4: "\<forall>(n, c)\<in>set (fillna_frame medians (replace_inf_frame train2)). \<not> is_object c"
    using n3 by (auto simp: fillna_frame_def split: option.splits)
  from median_frame_returns[OF this] obtain medians4 where
    med4: "median_frame avg (fillna_frame medians (replace_inf_frame train2)) = Inr medians4"
    by blast
  have "handle_missing avg train test =
          Inr (fillna_frame medians (replace_inf_frame train2),
               fillna_frame medians4 (replace_inf_frame test2))"
    unfolding handle_missing_def Let_def e1 by (simp add: loop med med4)
  then show ?thesis by blast
qed

text \<open>
  The reconciliation returns when the training frame has the target and the identifier,
  the test frame has the identifier, and every categorical column of the training frame is
  a column of the test frame.
\<close>

lemma preprocess_data_returns:
  assumes rect: "rectangular train_df0"
    and tgt: "target \<in> set (columns train_df0)"
    and sk: "''SK_ID_CURR'' \<in> set (columns train_df0)" and skt: "''SK_ID_CURR'' \<noteq> target"
    and ske: "''SK_ID_CURR'' \<in> set (columns test_df)"
    and cats: "\<forall>(n, c)\<in>set train_df0. is_object c \<and> n \<noteq> target \<longrightarrow> n \<in> set (columns test_df)"
  shows "\<exists>tr te y ids1 ids2.
           preprocess_data fr avg train_df0 test_df target = Inr (tr, te, y, ids1, ids2)"
proof -
  let ?train_df = "filter (\<lambda>(n, c). n \<noteq> target) train_df0"
  let ?cats = "map fst (filter (\<lambda>(n, c). is_object c) ?train_df)"
  from tgt obtain y where y: "getitem train_df0 target = Inr y"
    using getitem_in_columns by blast
  have d: "drop_columns [target] train_df0 = Inr ?train_df"
    using drop_columns_returns[of "[target]" train_df0] tgt by simp
  from sk obtain c1 where "map_of train_df0 ''SK_ID_CURR'' = Some c1"
    using in_columns_map_of by blast
  with skt have i1: "getitem ?train_df ''SK_ID_CURR'' = Inr c1"
    by (simp add: getitem_def map_of_filter_name)
  from ske obtain c2 where i2: "getitem test_df ''SK_ID_CURR'' = Inr c2"
    using getitem_in_columns by blast
  have r0: "rectangular ?train_df" using rect by (rule rectangular_filter_name)
  then have d0: "distinct (columns ?train_df)" by (simp add: rectangular_def)
  then have dc: "distinct ?cats" unfolding columns_def by (rule distinct_map_filter)
  have s1: "set ?cats \<subseteq> set (columns ?train_df)" by (auto simp: columns_def)
  have s2: "set ?cats \<subseteq> set (columns test_df)" using cats by auto
  from encode_loop_returns[OF s1 s2] obtain train1 test1 where
    enc: "encode_loop fr ?cats ?train_df test_df = Inr (train1, test1)" by blast
  note el = encode_loop_columns[OF enc dc r0]
  from el have c1: "columns train1 = columns ?train_df" by simp
  from el have other: "\<And>n. n \<notin> set ?cats \<Longrightarrow> map_of test1 n = map_of test_df n"
    by blast
  from el have cat: "\<And>n. n \<in> set ?cats \<Longrightarrow> \<exists>c. map_of test1 n = Some c"
    by blast
  have sk1: "''SK_ID_CURR'' \<in> set (columns train1)"
    unfolding c1 using sk skt by (auto simp: columns_def)
  have "map_of test1 ''SK_ID_CURR'' \<noteq> None"
  proof (cases "''SK_ID_CURR'' \<in> set ?cats")
    case True
    from cat[OF this] show ?thesis by auto
  next
    case False
    from other[OF this] i2 show ?thesis by (simp add: getitem_Inr_iff)
  qed
  then have sk2: "''SK_ID_CURR'' \<in> set (columns test1)" by (simp add: in_columns_iff)
  let ?train2 = "filter (\<lambda>(n, c). n \<noteq> ''SK_ID_CURR'') train1"
  let ?test2 = "filter (\<lambda>(n, c). n \<noteq> ''SK_ID_CURR'') test1"
  have t2: "drop_columns [''SK_ID_CURR''] train1 = Inr ?train2"
    using drop_columns_returns[of "[''SK_ID_CURR'']" train1] sk1 by simp
  have u2: "drop_columns [''SK_ID_CURR''] test1 = Inr ?test2"
    using drop_columns_returns[of "[''SK_ID_CURR'']" test1] sk2 by simp
  obtain train3 test3 where al: "align_inner ?train2 ?test2 = (train3, test3)"
    by (cases "align_inner ?train2 ?test2")
  note af = aligned_frames[OF enc al rect]
  from af have cols3: "columns train3 = columns test3" and r3: "rectangular train3" by simp_all
  from r3 have d3: "distinct (columns train3)" by (simp add: rectangular_def)
  from af have fwd: "\<And>n c0 t0. map_of train_df0 n = Some c0 \<Longrightarrow> map_of test_df n = Some t0 \<Longrightarrow>
              n \<noteq> target \<Longrightarrow> n \<noteq> ''SK_ID_CURR'' \<Longrightarrow>
              map_of train3 n = Some (if is_object c0 then encoded_train fr c0 t0 else c0)"
    by blast
  from af have bwd: "\<And>n c. map_of train3 n = Some c \<Longrightarrow>
              n \<noteq> target \<and> n \<noteq> ''SK_ID_CURR'' \<and>
              (\<exists>c0 t0. map_of train_df0 n = Some c0 \<and> map_of test_df n = Some t0)"
    by blast
  have num3: "\<forall>(n, c)\<in>set train3. \<not> is_object c"
  proof (intro ballI, clarify)
    fix n c
    assume mem: "(n, c) \<in> set train3" and obj: "is_object c"
    from mem d3 have m: "map_of train3 n = Some c" by (simp add: map_of_distinct_iff)
    from bwd[OF m] obtain c0 t0 where nt: "n \<noteq> target" "n \<noteq> ''SK_ID_CURR''"
      and c0: "map_of train_df0 n = Some c0" and t0: "map_of test_df n = Some t0" by blast
    from fwd[OF c0 t0 nt] m have "c = (if is_object c0 then encoded_train fr c0 t0 else c0)"
      by simp
    then have "\<not> is_object c" by (simp add: encoded_train_def)
    with obj show False by simp
  qed
  from handle_missing_returns[OF cols3 num3] obtain tr te where
    hm: "handle_missing avg train3 test3 = Inr (tr, te)" by blast
  have "preprocess_data fr avg train_df0 test_df target = Inr (tr, te, y, c1, c2)"
    unfolding preprocess_data_def by (simp add: y d i1 i2 enc t2 u2 al hm Let_def del: filter_filter)
  then show ?thesis by blast
qed


text \<open>
  Claim C4. The encoding loop returns when every categorical column is a column of both
  frames. For every categorical column, the codes stored in the two splits then come from
  one encoding, fitted on the training values followed by the test values of that column:
  one function from the string form of a value to its code fills both splits, so a value
  has one code and has it in both; distinct values have distinct codes, each below the
  number of classes.
\<close>

theorem label_encoding_shared_codes:
  assumes "distinct cols" and "rectangular train"
    and "set cols \<subseteq> set (columns train)" and "set cols \<subseteq> set (columns test)"
    and "col \<in> set cols"
  shows "\<exists>train' test' tc sc.
           encode_loop fr cols train test = Inr (train', test') \<and>
           getitem train col = Inr tc \<and> getitem test col = Inr sc \<and>
           (let combined = astype_str fr tc @ astype_str fr sc;
                code = index_of (classes combined)
            in getitem train' col = Inr (int_column (map code (astype_str fr tc))) \<and>
               getitem test' col = Inr (int_column (map code (astype_str fr sc))) \<and>
               inj_on code (set combined) \<and>
               (\<forall>v\<in>set combined. code v < length (classes combined)))"
proof -
  from encode_loop_returns[OF assms(3,4)] obtain train' test' where
    run: "encode_loop fr cols train test = Inr (train', test')" by blast
  from encode_loop_columns[OF run assms(1,2)] assms(5) obtain tc sc where
    a: "map_of train col = Some tc" "map_of test col = Some sc"
    and b: "map_of train' col =
              Some (int_column (map (index_of (classes (astype_str fr tc @ astype_str fr sc)))
                                  (astype_str fr tc)))"
    and c: "map_of test' col =
              Some (int_column (map (index_of (classes (astype_str fr tc @ astype_str fr sc)))
                                  (astype_str fr sc)))"
    by blast
  let ?combined = "astype_str fr tc @ astype_str fr sc"
  have inj: "inj_on (index_of (classes ?combined)) (set ?combined)"
    using index_of_inj[of "classes ?combined"] by simp
  have bound: "\<forall>v\<in>set ?combined. index_of (classes ?combined) v < length (classes ?combined)"
    using index_of_less[of _ "classes ?combined"] by simp
  have "getitem train col = Inr tc \<and> getitem test col = Inr sc \<and>
           (let combined = astype_str fr tc @ astype_str fr sc;
                code = index_of (classes combined)
            in getitem train' col = Inr (int_column (map code (astype_str fr tc))) \<and>
               getitem test' col = Inr (int_column (map code (astype_str fr sc))) \<and>
               inj_on code (set combined) \<and>
               (\<forall>v\<in>set combined. code v < length (classes combined)))"
    using a b c inj bound by (simp add: getitem_Inr_iff Let_def del: set_append)
  with run show ?thesis by blast
qed

text \<open>
  A run of the loop on one categorical column: the training values cash, missing, card and
  the test values revolving, cash. The classes are card, cash, nan, revolving; cash has the
  code 1 in both splits and revolving, which only the test split has, the code 3.
\<close>

theorem label_encoding_shared_codes_witness:
  "encode_loop (\<lambda>r. ''0.5'') [''KIND'']
     [(''SK_ID_CURR'', FloatCol [Fin 1, Fin 2, Fin 3]),
      (''KIND'', ObjCol [Str ''cash'', Flt NaN, Str ''card''])]
     [(''SK_ID_CURR'', FloatCol [Fin 8, Fin 9]),
      (''KIND'', ObjCol [Str ''revolving'', Str ''cash''])] =
   Inr ([(''SK_ID_CURR'', FloatCol [Fin 1, Fin 2, Fin 3]),
         (''KIND'', FloatCol [Fin 1, Fin 2, Fin 0])],
        [(''SK_ID_CURR'', FloatCol [Fin 8, Fin 9]),
         (''KIND'', FloatCol [Fin 3, Fin 1])]) \<and>
   classes (astype_str (\<lambda>r. ''0.5'') (ObjCol [Str ''cash'', Flt NaN, Str ''card'']) @
            astype_str (\<lambda>r. ''0.5'') (ObjCol [Str ''revolving'', Str ''cash''])) =
     [''card'', ''cash'', ''nan'', ''revolving''] \<and>
   int_column (map (index_of [''card'', ''cash'', ''nan'', ''revolving''])
     (astype_str (\<lambda>r. ''0.5'') (ObjCol [Str ''cash'', Flt NaN, Str ''card'']))) =
     FloatCol [Fin 1, Fin 2, Fin 0] \<and>
   int_column (map (index_of [''card'', ''cash'', ''nan'', ''revolving''])
     (astype_str (\<lambda>r. ''0.5'') (ObjCol [Str ''revolving'', Str ''cash'']))) =
     FloatCol [Fin 3, Fin 1]"
proof -
  let ?train = "[(''SK_ID_CURR'', FloatCol [Fin 1, Fin 2, Fin 3]),
                 (''KIND'', ObjCol [Str ''cash'', Flt NaN, Str ''card''])]"
  let ?test = "[(''SK_ID_CURR'', FloatCol [Fin 8, Fin 9]),
                (''KIND'', ObjCol [Str ''revolving'', Str ''cash''])]"
  let ?tc = "ObjCol [Str ''cash'', Flt NaN, Str ''card'']"
  let ?sc = "ObjCol [Str ''revolving'', Str ''cash'']"
  have run: "encode_loop (\<lambda>r. ''0.5'') [''KIND''] ?train ?test =
     Inr ([(''SK_ID_CURR'', FloatCol [Fin 1, Fin 2, Fin 3]),
           (''KIND'', FloatCol [Fin 1, Fin 2, Fin 0])],
          [(''SK_ID_CURR'', FloatCol [Fin 8, Fin 9]),
           (''KIND'', FloatCol [Fin 3, Fin 1])])"
    by code_simp
  have rect: "rectangular ?train" by code_simp
  have s1: "set [''KIND''] \<subseteq> set (columns ?train)" by code_simp
  have s2: "set [''KIND''] \<subseteq> set (columns ?test)" by code_simp
  have cl: "classes (astype_str (\<lambda>r. ''0.5'') ?tc @ astype_str (\<lambda>r. ''0.5'') ?sc) =
              [''card'', ''cash'', ''nan'', ''revolving'']"
    by code_simp
  have tc: "getitem ?train ''KIND'' = Inr ?tc" and sc: "getitem ?test ''KIND'' = Inr ?sc"
    by (simp_all add: getitem_def)
  from label_encoding_shared_codes[OF _ rect s1 s2, of "''KIND''" "\<lambda>r. ''0.5''"]
  have "getitem [(''SK_ID_CURR'', FloatCol [Fin 1, Fin 2, Fin 3]),
                 (''KIND'', FloatCol [Fin 1, Fin 2, Fin 0])] ''KIND'' =
          Inr (int_column (map (index_of (classes (astype_str (\<lambda>r. ''0.5'') ?tc @
                 astype_str (\<lambda>r. ''0.5'') ?sc))) (astype_str (\<lambda>r. ''0.5'') ?tc))) \<and>
        getitem [(''SK_ID_CURR'', FloatCol [Fin 8, Fin 9]),
                 (''KIND'', FloatCol [Fin 3, Fin 1])] ''KIND'' =
          Inr (int_column (map (index_of (classes (astype_str (\<lambda>r. ''0.5'') ?tc @
                 astype_str (\<lambda>r. ''0.5'') ?sc))) (astype_str (\<lambda>r. ''0.5'') ?sc)))"
    unfolding run tc sc by (auto simp: Let_def)
  then have "int_column (map (index_of [''card'', ''cash'', ''nan'', ''revolving''])
               (astype_str (\<lambda>r. ''0.5'') ?tc)) = FloatCol [Fin 1, Fin 2, Fin 0]"
    "int_column (map (index_of [''card'', ''cash'', ''nan'', ''revolving''])
               (astype_str (\<lambda>r. ''0.5'') ?sc)) = FloatCol [Fin 3, Fin 1]"
    unfolding cl by (simp_all add: getitem_def)
  with run cl show ?thesis by simp
qed

section \<open>The high-missingness filter and the imputation\<close>

lemma isnull_sum_le: "isnull_sum c \<le> col_len c"
proof -
  have "length (filter (\<lambda>x. x = Flt NaN) (cells c)) \<le> length (cells c)"
    by (rule length_filter_le)
  then show ?thesis by (simp add: isnull_sum_def)
qed

lemma missing_pct_gt_iff:
  assumes "k \<le> len"
  shows "np_gt (np_mul (int_true_divide (int k) (int len)) (Fin 100)) (MISSING_THRESHOLD * 100)
         \<longleftrightarrow> MISSING_THRESHOLD < real k / real len"
proof (cases "len = 0")
  case True
  with assms show ?thesis by (simp add: int_true_divide_def MISSING_THRESHOLD_def)
next
  case False
  then show ?thesis by (simp add: int_true_divide_def MISSING_THRESHOLD_def field_simps)
qed

lemma high_missing_cols_iff:
  assumes "rectangular df"
  shows "n \<in> set (high_missing_cols df) \<longleftrightarrow>
         (\<exists>c. map_of df n = Some c \<and> MISSING_THRESHOLD < spec_missing_fraction c)"
proof -
  from assms have dist: "distinct (columns df)" by (simp add: rectangular_def)
  have len: "col_len c = nrows df" if "(n, c) \<in> set df" for n c
    using assms that by (auto simp: rectangular_def list_all_iff)
  have "n \<in> set (high_missing_cols df) \<longleftrightarrow>
        (\<exists>c. (n, c) \<in> set df \<and>
           np_gt (np_mul (int_true_divide (int (isnull_sum c)) (int (nrows df))) (Fin 100))
             (MISSING_THRESHOLD * 100))"
    by (force simp: high_missing_cols_def missing_pct_def)
  also have "\<dots> \<longleftrightarrow> (\<exists>c. (n, c) \<in> set df \<and> MISSING_THRESHOLD < spec_missing_fraction c)"
  proof -
    have "np_gt (np_mul (int_true_divide (int (isnull_sum c)) (int (nrows df))) (Fin 100))
             (MISSING_THRESHOLD * 100) \<longleftrightarrow> MISSING_THRESHOLD < spec_missing_fraction c"
      if "(n, c) \<in> set df" for c
      unfolding spec_missing_fraction_def len[OF that, symmetric]
      using isnull_sum_le by (rule missing_pct_gt_iff)
    then show ?thesis by blast
  qed
  also have "\<dots> \<longleftrightarrow> (\<exists>c. map_of df n = Some c \<and> MISSING_THRESHOLD < spec_missing_fraction c)"
    using dist by (simp add: map_of_distinct_iff)
  finally show ?thesis .
qed

text \<open>
  Which columns the reconciled frames keep: a column that both inputs have, other than the
  target and the identifier, is kept exactly when the missing fraction of its training
  column, encoded when categorical, is at most the threshold.
\<close>

lemma preprocess_data_kept:
  assumes pd: "preprocess_data fr avg train_df0 test_df target = Inr (tr, te, y, ids1, ids2)"
    and rect: "rectangular train_df0"
    and c0: "map_of train_df0 n = Some c0" and t0: "map_of test_df n = Some t0"
    and nt: "n \<noteq> target" and nsk: "n \<noteq> ''SK_ID_CURR''"
  shows "n \<in> set (columns tr) \<longleftrightarrow>
         \<not> MISSING_THRESHOLD <
            spec_missing_fraction (if is_object c0 then encoded_train fr c0 t0 else c0)"
proof -
  from preprocess_data_Inr[OF pd] obtain train1 test1 train3 test3 where
    enc: "encode_loop fr
             (map fst (filter (\<lambda>(n, c). is_object c)
                (filter (\<lambda>(n, c). n \<noteq> target) train_df0)))
             (filter (\<lambda>(n, c). n \<noteq> target) train_df0) test_df = Inr (train1, test1)"
    and al: "align_inner (filter (\<lambda>(n, c). n \<noteq> ''SK_ID_CURR'') train1)
             (filter (\<lambda>(n, c). n \<noteq> ''SK_ID_CURR'') test1) = (train3, test3)"
    and hm: "handle_missing avg train3 test3 = Inr (tr, te)"
    by blast
  note af = aligned_frames[OF enc al rect]
  from af have cols3: "columns train3 = columns test3" and r3: "rectangular train3" by simp_all
  from r3 have d3: "distinct (columns train3)" by (simp add: rectangular_def)
  from af have fwd: "\<And>n c0 t0. map_of train_df0 n = Some c0 \<Longrightarrow> map_of test_df n = Some t0 \<Longrightarrow>
              n \<noteq> target \<Longrightarrow> n \<noteq> ''SK_ID_CURR'' \<Longrightarrow>
              map_of train3 n = Some (if is_object c0 then encoded_train fr c0 t0 else c0) \<and>
              map_of test3 n = Some (if is_object c0 then encoded_test fr c0 t0 else t0)"
    by blast
  from fwd[OF c0 t0 nt nsk]
  have m3: "map_of train3 n = Some (if is_object c0 then encoded_train fr c0 t0 else c0)"
    by simp
  then have in3: "n \<in> set (columns train3)" by (rule map_of_in_columns)
  note hc = handle_missing_column[OF hm cols3 d3]
  from hc have ctr: "columns tr = filter (\<lambda>n. n \<notin> set (high_missing_cols train3)) (columns train3)"
    by simp
  from in3 have "n \<in> set (columns tr) \<longleftrightarrow> n \<notin> set (high_missing_cols train3)"
    by (simp add: ctr)
  also have "\<dots> \<longleftrightarrow> \<not> MISSING_THRESHOLD <
            spec_missing_fraction (if is_object c0 then encoded_train fr c0 t0 else c0)"
    unfolding high_missing_cols_iff[OF r3] m3 by simp
  finally show ?thesis .
qed

text \<open>
  What the reconciliation leaves in the cells of a kept column: a finite training value
  stays; with a finite median of the training column, a missing training cell holds that
  median, and so does a missing test cell when the training column has a missing cell
  or holds no infinity.
\<close>

lemma length_final_train_values [simp]: "length (final_train_values avg xs) = length xs"
  by (simp add: final_train_values_def cleaned_values_def)

lemma final_train_values_fin_cell:
  assumes "i < length xs" and "is_fin (xs ! i)"
  shows "final_train_values avg xs ! i = xs ! i"
proof -
  from assms(2) have "xs ! i \<noteq> NaN" "\<not> is_inf (xs ! i)"
    by (auto simp: is_fin_def is_inf_def split: npfloat.splits)
  with assms(1) have "cleaned_values avg xs ! i = xs ! i"
    by (simp add: cleaned_values_def)
  moreover have "i < length (cleaned_values avg xs)"
    using assms(1) by (simp add: cleaned_values_def)
  ultimately show ?thesis using \<open>xs ! i \<noteq> NaN\<close>
    by (simp add: final_train_values_def)
qed

lemma final_train_values_nan_cell:
  assumes m: "is_fin (np_median avg xs)" and i: "i < length xs" and nan: "xs ! i = NaN"
  shows "final_train_values avg xs ! i = np_median avg xs"
proof -
  let ?m = "np_median avg xs"
  from m have mn: "?m \<noteq> NaN" "\<not> is_inf ?m"
    by (auto simp: is_fin_def is_inf_def split: npfloat.splits)
  from i nan have "NaN \<in> set xs" by (metis nth_mem)
  then have lf: "loop_fill_value avg xs = ?m" by (simp add: loop_fill_value_def)
  from i nan mn have c: "cleaned_values avg xs ! i = ?m"
    by (simp add: cleaned_values_def lf)
  have "i < length (cleaned_values avg xs)" using i by (simp add: cleaned_values_def)
  with c mn show ?thesis by (simp add: final_train_values_def)
qed

lemma final_train_values_unchanged:
  assumes "NaN \<notin> set xs" and "\<forall>x\<in>set xs. \<not> is_inf x"
  shows "final_train_values avg xs = xs"
proof -
  have a: "map (\<lambda>x. if x = NaN then v else x) xs = xs" for v
    using assms(1) by (intro map_idI) auto
  have b: "map (\<lambda>x. if is_inf x then NaN else x) xs = xs"
    using assms(2) by (intro map_idI) auto
  have c: "cleaned_values avg xs = xs" unfolding cleaned_values_def a b ..
  show ?thesis unfolding final_train_values_def c by (rule a)
qed

lemma final_test_column_nan_cell:
  assumes m: "is_fin (np_median avg xs)"
    and src: "NaN \<in> set xs \<or> (\<forall>x\<in>set xs. \<not> is_inf x)"
    and i: "i < col_len sc" and nan: "cells sc ! i = Flt NaN"
  shows "cells (final_test_column avg xs sc) ! i = Flt (np_median avg xs)"
proof -
  let ?m = "np_median avg xs"
  from m have mn: "?m \<noteq> NaN" "?m \<noteq> PInf" "?m \<noteq> NInf"
    by (auto simp: is_fin_def split: npfloat.splits)
  show ?thesis
  proof (cases "NaN \<in> set xs")
    case True
    then have lf: "loop_fill_value avg xs = ?m" by (simp add: loop_fill_value_def)
    from mn i nan show ?thesis
      by (simp add: final_test_column_def cells_fillna cells_replace_inf lf)
  next
    case False
    with src have "\<forall>x\<in>set xs. \<not> is_inf x" by blast
    from final_train_values_unchanged[OF False this] have f: "final_train_values avg xs = xs" .
    from False have lf: "loop_fill_value avg xs = NaN" by (simp add: loop_fill_value_def)
    from i nan show ?thesis
      by (simp add: final_test_column_def cells_fillna cells_replace_inf lf f)
  qed
qed

lemma col_len_final_test_column [simp]: "col_len (final_test_column avg xs sc) = col_len sc"
proof -
  have "col_len (fillna v c) = col_len c" for v c by (cases c) simp_all
  moreover have "col_len (replace_inf c) = col_len c" for c by (cases c) simp_all
  ultimately show ?thesis by (simp add: final_test_column_def)
qed

text \<open>
  The concrete float64 mean is never NaN and keeps within \<open>2 ^ 1022\<close>; the mean of twice
  \<open>2 ^ 1023\<close> overflows.
\<close>

lemma FLOAT64_OVERFLOW_value: "FLOAT64_OVERFLOW = 2 ^ 1024 - 2 ^ 970"
  by (simp add: FLOAT64_OVERFLOW_def)

lemma float64_mean_overflows: "float64_mean (2 ^ 1023) (2 ^ 1023) = PInf"
  by (simp add: float64_mean_def FLOAT64_OVERFLOW_value)

lemma float64_mean_not_nan: "\<forall>a b. float64_mean a b \<noteq> NaN"
  by (simp add: float64_mean_def)

lemma float64_mean_bounded:
  "\<forall>a b. \<bar>a\<bar> \<le> 2 ^ 1022 \<and> \<bar>b\<bar> \<le> 2 ^ 1022 \<longrightarrow>
     (\<exists>r. float64_mean a b = Fin r \<and> \<bar>r\<bar> \<le> 2 ^ 1022)"
proof (intro allI impI)
  fix a b :: real
  assume h: "\<bar>a\<bar> \<le> 2 ^ 1022 \<and> \<bar>b\<bar> \<le> 2 ^ 1022"
  have big: "2 * (2::real) ^ 1022 < FLOAT64_OVERFLOW" by (simp add: FLOAT64_OVERFLOW_value)
  from h have s: "\<bar>a + b\<bar> \<le> 2 * 2 ^ 1022" by linarith
  with big have "\<not> FLOAT64_OVERFLOW \<le> a + b" "\<not> a + b \<le> - FLOAT64_OVERFLOW"
    by linarith+
  then have "float64_mean a b = Fin ((a + b) / 2)" by (simp add: float64_mean_def)
  moreover from s have "\<bar>(a + b) / 2\<bar> \<le> 2 ^ 1022" by simp
  ultimately show "\<exists>r. float64_mean a b = Fin r \<and> \<bar>r\<bar> \<le> 2 ^ 1022" by blast
qed


lemma no_nan_FloatCol_iff: "no_nan (FloatCol ys) \<longleftrightarrow> NaN \<notin> set ys"
  by (auto simp: no_nan_def list_all_iff)

lemma bounded_by_FloatCol:
  "bounded_by B (FloatCol xs) \<Longrightarrow> \<forall>r. Fin r \<in> set xs \<longrightarrow> \<bar>r\<bar> \<le> B"
  by (auto simp: bounded_by_def list_all_iff)

text \<open>
  Claim C1, as the code has it. The reconciliation returns when the training frame has the
  target and the identifier, the test frame has the identifier and every categorical
  column of the training frame. The two returned feature frames then have the same column
  names in the same order, and every column of the training frame is numeric. In either
  frame a column holds no infinite value when its training column was categorical or had
  its finite values within a bound \<open>B\<close> that the float64 mean of two values keeps (so that
  no median overflows), and holds no NaN when its training column was categorical or held
  a finite value. A test column is numeric when it was numeric in the test input or
  categorical in the training input.
\<close>

theorem reconciled_frames_clean:
  assumes rect: "rectangular train_df0"
    and tgt: "target \<in> set (columns train_df0)"
    and sk: "''SK_ID_CURR'' \<in> set (columns train_df0)" and skt: "''SK_ID_CURR'' \<noteq> target"
    and ske: "''SK_ID_CURR'' \<in> set (columns test_df)"
    and cats: "\<forall>(n, c)\<in>set train_df0. is_object c \<and> n \<noteq> target \<longrightarrow> n \<in> set (columns test_df)"
    and nan: "\<forall>a b. avg a b \<noteq> NaN"
    and bnd: "\<forall>a b. \<bar>a\<bar> \<le> B \<and> \<bar>b\<bar> \<le> B \<longrightarrow> (\<exists>r. avg a b = Fin r \<and> \<bar>r\<bar> \<le> B)"
  shows "\<exists>tr te y ids1 ids2.
           preprocess_data fr avg train_df0 test_df target = Inr (tr, te, y, ids1, ids2) \<and>
           columns tr = columns te \<and>
           (\<forall>(n, c)\<in>set tr. \<not> is_object c \<and>
               ((\<exists>c0. getitem train_df0 n = Inr c0 \<and> bounded_by B c0) \<longrightarrow> no_inf c) \<and>
               ((\<exists>c0. getitem train_df0 n = Inr c0 \<and> has_finite c0) \<longrightarrow> no_nan c)) \<and>
           (\<forall>(n, c)\<in>set te.
               ((\<exists>c0. getitem train_df0 n = Inr c0 \<and> bounded_by B c0) \<longrightarrow> no_inf c) \<and>
               ((\<exists>c0. getitem train_df0 n = Inr c0 \<and> has_finite c0) \<longrightarrow> no_nan c) \<and>
               ((\<exists>t0. getitem test_df n = Inr t0 \<and> \<not> is_object t0) \<or>
                (\<exists>c0. getitem train_df0 n = Inr c0 \<and> is_object c0) \<longrightarrow> \<not> is_object c))"
proof -
  from preprocess_data_returns[OF rect tgt sk skt ske cats] obtain tr te y ids1 ids2 where
    pd: "preprocess_data fr avg train_df0 test_df target = Inr (tr, te, y, ids1, ids2)"
    by blast
  note pc = preprocess_data_columns[OF pd rect]
  from pc have eq: "columns tr = columns te" by (elim conjE)
  from pc have dtr: "distinct (columns tr)" by (elim conjE)
  from pc have per: "\<And>n. n \<in> set (columns tr) \<Longrightarrow>
            (\<exists>c0 t0 xs sc. map_of train_df0 n = Some c0 \<and> map_of test_df n = Some t0 \<and>
               FloatCol xs = (if is_object c0 then encoded_train fr c0 t0 else c0) \<and>
               sc = (if is_object c0 then encoded_test fr c0 t0 else t0) \<and>
               map_of tr n = Some (FloatCol (final_train_values avg xs)) \<and>
               map_of te n = Some (final_test_column avg xs sc))"
    by blast
  have dte: "distinct (columns te)" using dtr eq by simp
  have enc_fin: "\<forall>x\<in>set xs. is_fin x"
    if "FloatCol xs = encoded_train fr c0 t0" for xs c0 t0
  proof -
    from that have "int_column (map (index_of (classes (astype_str fr c0 @ astype_str fr t0)))
                   (astype_str fr c0)) = FloatCol xs"
      by (simp add: encoded_train_def)
    then show ?thesis by (rule int_column_all_fin)
  qed
  have enc_test: "\<exists>ys. encoded_test fr c0 t0 = FloatCol ys \<and> (\<forall>x\<in>set ys. is_fin x)" for c0 t0
    using int_column_all_fin by (auto simp: encoded_test_def int_column_def is_fin_def)
  have all_fin_clean: "no_inf (FloatCol ys) \<and> no_nan (FloatCol ys)" if "\<forall>x\<in>set ys. is_fin x" for ys
  proof -
    from that have "\<forall>x\<in>set ys. \<not> is_inf x" by (auto simp: is_fin_def is_inf_def)
    then have "no_inf (FloatCol ys)" by (rule no_inf_FloatCol)
    with no_nan_all_fin[OF that] show ?thesis by simp
  qed
  have train_part: "\<not> is_object c \<and>
               ((\<exists>c0. getitem train_df0 n = Inr c0 \<and> bounded_by B c0) \<longrightarrow> no_inf c) \<and>
               ((\<exists>c0. getitem train_df0 n = Inr c0 \<and> has_finite c0) \<longrightarrow> no_nan c)"
    if "(n, c) \<in> set tr" for n c
  proof -
    from that have n: "n \<in> set (columns tr)" by (force simp: columns_def)
    from that dtr have mc: "map_of tr n = Some c" by (simp add: map_of_distinct_iff)
    from per[OF n] mc obtain c0 t0 xs where
      c0: "map_of train_df0 n = Some c0"
      and xs: "FloatCol xs = (if is_object c0 then encoded_train fr c0 t0 else c0)"
      and c: "c = FloatCol (final_train_values avg xs)" by auto
    have a: "\<not> is_object c" by (simp add: c)
    have b: "no_inf c" if bd: "bounded_by B c0"
    proof (cases "is_object c0")
      case True
      with xs have "\<forall>x\<in>set xs. is_fin x" using enc_fin by simp
      then show ?thesis using all_fin_clean by (simp add: c final_train_values_all_fin_id)
    next
      case False
      with xs bd have "\<forall>r. Fin r \<in> set xs \<longrightarrow> \<bar>r\<bar> \<le> B"
        using bounded_by_FloatCol[of B xs] by simp
      from final_train_values_no_inf[OF bnd this] show ?thesis
        unfolding c by (rule no_inf_FloatCol)
    qed
    have d: "no_nan c" if hf: "has_finite c0"
    proof (cases "is_object c0")
      case True
      with xs have "\<forall>x\<in>set xs. is_fin x" using enc_fin by simp
      then show ?thesis using all_fin_clean by (simp add: c final_train_values_all_fin_id)
    next
      case False
      with xs hf have "\<exists>x\<in>set xs. is_fin x" by (auto simp: has_finite_def list_ex_iff)
      from final_train_values_no_nan[OF nan this] show ?thesis
        by (simp add: c no_nan_FloatCol_iff)
    qed
    from a b d c0 show ?thesis by (auto simp: getitem_Inr_iff)
  qed
  have test_part: "((\<exists>c0. getitem train_df0 n = Inr c0 \<and> bounded_by B c0) \<longrightarrow> no_inf c) \<and>
               ((\<exists>c0. getitem train_df0 n = Inr c0 \<and> has_finite c0) \<longrightarrow> no_nan c) \<and>
               ((\<exists>t0. getitem test_df n = Inr t0 \<and> \<not> is_object t0) \<or>
                (\<exists>c0. getitem train_df0 n = Inr c0 \<and> is_object c0) \<longrightarrow> \<not> is_object c)"
    if "(n, c) \<in> set te" for n c
  proof -
    from that have "n \<in> set (columns te)" by (force simp: columns_def)
    then have n: "n \<in> set (columns tr)" by (simp add: eq)
    from that dte have mc: "map_of te n = Some c" by (simp add: map_of_distinct_iff)
    from per[OF n] mc obtain c0 t0 xs where
      c0: "map_of train_df0 n = Some c0" and t0: "map_of test_df n = Some t0"
      and xs: "FloatCol xs = (if is_object c0 then encoded_train fr c0 t0 else c0)"
      and c: "c = final_test_column avg xs (if is_object c0 then encoded_test fr c0 t0 else t0)"
      by auto
    have obj_case: "no_inf c \<and> no_nan c" if obj: "is_object c0"
    proof -
      from enc_test obtain ys where ys: "encoded_test fr c0 t0 = FloatCol ys"
        "\<forall>x\<in>set ys. is_fin x" by blast
      with obj have "c = FloatCol ys" by (simp add: c final_test_column_all_fin_id)
      with all_fin_clean[OF ys(2)] show ?thesis by simp
    qed
    have a: "no_inf c" if bd: "bounded_by B c0"
    proof (cases "is_object c0")
      case True
      with obj_case show ?thesis by simp
    next
      case False
      with xs bd have "\<forall>r. Fin r \<in> set xs \<longrightarrow> \<bar>r\<bar> \<le> B"
        using bounded_by_FloatCol[of B xs] by simp
      from final_test_column_no_inf[OF bnd this] show ?thesis by (simp add: c)
    qed
    have b: "no_nan c" if hf: "has_finite c0"
    proof (cases "is_object c0")
      case True
      with obj_case show ?thesis by simp
    next
      case False
      with xs hf have "\<exists>x\<in>set xs. is_fin x" by (auto simp: has_finite_def list_ex_iff)
      from final_test_column_no_nan[OF nan this] show ?thesis by (simp add: c)
    qed
    have d: "\<not> is_object c" if "\<not> is_object t0 \<or> is_object c0"
      using that by (auto simp: c encoded_test_def)
    from a b d c0 t0 show ?thesis by (auto simp: getitem_Inr_iff)
  qed
  from pd eq train_part test_part show ?thesis by blast
qed

theorem reconciled_frames_clean_witness:
  "preprocess_data (\<lambda>r. ''0'') float64_mean example_train example_test ''TARGET'' =
     Inr ([(''KIND'', FloatCol [Fin 1, Fin 2, Fin 0, Fin 1]),
           (''CREDIT_TERM'', FloatCol [Fin 5, Fin 7, Fin 7, Fin 7])],
          [(''KIND'', FloatCol [Fin 3, Fin 2]), (''CREDIT_TERM'', FloatCol [Fin 7, Fin 7])],
          FloatCol [Fin 0, Fin 1, Fin 0, Fin 0],
          FloatCol [Fin 1, Fin 2, Fin 3, Fin 4], FloatCol [Fin 9, Fin 8]) \<and>
   columns [(''KIND'', FloatCol [Fin 1, Fin 2, Fin 0, Fin 1]),
            (''CREDIT_TERM'', FloatCol [Fin 5, Fin 7, Fin 7, Fin 7])] =
   columns [(''KIND'', FloatCol [Fin 3, Fin 2]), (''CREDIT_TERM'', FloatCol [Fin 7, Fin 7])] \<and>
   no_inf (FloatCol [Fin 5, Fin 7, Fin 7, Fin 7]) \<and> no_nan (FloatCol [Fin 5, Fin 7, Fin 7, Fin 7]) \<and>
   no_inf (FloatCol [Fin 7, Fin 7]) \<and> no_nan (FloatCol [Fin 7, Fin 7]) \<and>
   no_nan (FloatCol [Fin 1, Fin 2, Fin 0, Fin 1]) \<and> no_nan (FloatCol [Fin 3, Fin 2])"
proof -
  have run: "preprocess_data (\<lambda>r. ''0'') float64_mean example_train example_test ''TARGET'' =
     Inr ([(''KIND'', FloatCol [Fin 1, Fin 2, Fin 0, Fin 1]),
           (''CREDIT_TERM'', FloatCol [Fin 5, Fin 7, Fin 7, Fin 7])],
          [(''KIND'', FloatCol [Fin 3, Fin 2]), (''CREDIT_TERM'', FloatCol [Fin 7, Fin 7])],
          FloatCol [Fin 0, Fin 1, Fin 0, Fin 0],
          FloatCol [Fin 1, Fin 2, Fin 3, Fin 4], FloatCol [Fin 9, Fin 8])"
    by code_simp
  have rect: "rectangular example_train" by code_simp
  have tgt: "''TARGET'' \<in> set (columns example_train)" by code_simp
  have sk: "''SK_ID_CURR'' \<in> set (columns example_train)" by code_simp
  have ske: "''SK_ID_CURR'' \<in> set (columns example_test)" by code_simp
  have cats: "\<forall>(n, c)\<in>set example_train.
                is_object c \<and> n \<noteq> ''TARGET'' \<longrightarrow> n \<in> set (columns example_test)"
    by code_simp
  have b1: "bounded_by (2 ^ 1022) (FloatCol [Fin 5, NaN, Fin 7, PInf])"
    by (simp add: bounded_by_def)
  from reconciled_frames_clean[OF rect tgt sk _ ske cats float64_mean_not_nan
      float64_mean_bounded, of "\<lambda>r. ''0''"] run b1
  show ?thesis
    by (simp add: getitem_def example_train_def has_finite_def is_fin_def bounded_by_def)
qed

text \<open>
  Claim C1 as stated fails. The training column that is infinite in every row has no median
  once the infinities are replaced, so its cells stay NaN in the returned training frame;
  and the test column that holds a string while its training column is numeric is returned
  as it came, not numeric.
\<close>

theorem reconciled_frames_nan_and_string:
  "preprocess_data (\<lambda>r. ''0'') float64_mean degenerate_train degenerate_test ''TARGET'' =
     Inr ([(''CREDIT_TERM'', FloatCol [NaN, NaN]), (''REGION'', FloatCol [Fin 1, Fin 2])],
          [(''CREDIT_TERM'', FloatCol [Fin 5]), (''REGION'', ObjCol [Str ''XNA''])],
          FloatCol [Fin 0, Fin 1], FloatCol [Fin 1, Fin 2], FloatCol [Fin 3]) \<and>
   \<not> no_nan (FloatCol [NaN, NaN]) \<and> is_object (ObjCol [Str ''XNA''])"
  by code_simp


lemma no_inf_FloatCol_iff: "no_inf (FloatCol xs) \<longleftrightarrow> (\<forall>x\<in>set xs. \<not> is_inf x)"
  by (auto simp: no_inf_def list_all_iff is_inf_def)

text \<open>
  Claim C5, for a finite training median. The reconciliation returns when the training
  frame has the target and the identifier, the test frame has the identifier and every
  categorical column of the training frame. A numeric column that both inputs have is then
  dropped from both returned frames when its missing fraction in the training frame exceeds
  the threshold, and is kept in both otherwise; the test column plays no part in the
  decision. In a kept column the finite training values stay as they are. When the median
  of the training column is finite, every missing training cell holds it, and so does every
  missing test cell if the training column has a missing cell or holds no infinity.
\<close>

theorem high_missing_filter:
  assumes rect: "rectangular train_df0"
    and tgt: "target \<in> set (columns train_df0)"
    and sk: "''SK_ID_CURR'' \<in> set (columns train_df0)" and skt: "''SK_ID_CURR'' \<noteq> target"
    and ske: "''SK_ID_CURR'' \<in> set (columns test_df)"
    and cats: "\<forall>(n, c)\<in>set train_df0. is_object c \<and> n \<noteq> target \<longrightarrow> n \<in> set (columns test_df)"
    and c0: "getitem train_df0 n = Inr (FloatCol xs)" and t0: "getitem test_df n = Inr t0"
    and nt: "n \<noteq> target" and nsk: "n \<noteq> ''SK_ID_CURR''"
  shows "\<exists>tr te y ids1 ids2.
           preprocess_data fr avg train_df0 test_df target = Inr (tr, te, y, ids1, ids2) \<and>
           (MISSING_THRESHOLD < spec_missing_fraction (FloatCol xs) \<longrightarrow>
              n \<notin> set (columns tr) \<and> n \<notin> set (columns te)) \<and>
           (spec_missing_fraction (FloatCol xs) \<le> MISSING_THRESHOLD \<longrightarrow>
              (\<exists>ys c. getitem tr n = Inr (FloatCol ys) \<and> getitem te n = Inr c \<and>
                 length ys = length xs \<and> col_len c = col_len t0 \<and>
                 (\<forall>i<length xs. is_fin (xs ! i) \<longrightarrow> ys ! i = xs ! i) \<and>
                 (is_fin (np_median avg xs) \<longrightarrow>
                    (\<forall>i<length xs. xs ! i = NaN \<longrightarrow> ys ! i = np_median avg xs) \<and>
                    (NaN \<in> set xs \<or> no_inf (FloatCol xs) \<longrightarrow>
                       (\<forall>i<col_len t0. cells t0 ! i = Flt NaN \<longrightarrow>
                          cells c ! i = Flt (np_median avg xs))))))"
proof -
  from preprocess_data_returns[OF rect tgt sk skt ske cats] obtain tr te y ids1 ids2 where
    pd: "preprocess_data fr avg train_df0 test_df target = Inr (tr, te, y, ids1, ids2)"
    by blast
  from c0 have c0': "map_of train_df0 n = Some (FloatCol xs)" by (simp add: getitem_Inr_iff)
  from t0 have t0': "map_of test_df n = Some t0" by (simp add: getitem_Inr_iff)
  from preprocess_data_kept[OF pd rect c0' t0' nt nsk]
  have kept: "n \<in> set (columns tr) \<longleftrightarrow> \<not> MISSING_THRESHOLD < spec_missing_fraction (FloatCol xs)"
    by simp
  note pc = preprocess_data_columns[OF pd rect]
  from pc have eq: "columns tr = columns te" by (elim conjE)
  from pc have per: "\<And>n. n \<in> set (columns tr) \<Longrightarrow>
            (\<exists>c0 t0 xs sc. map_of train_df0 n = Some c0 \<and> map_of test_df n = Some t0 \<and>
               FloatCol xs = (if is_object c0 then encoded_train fr c0 t0 else c0) \<and>
               sc = (if is_object c0 then encoded_test fr c0 t0 else t0) \<and>
               map_of tr n = Some (FloatCol (final_train_values avg xs)) \<and>
               map_of te n = Some (final_test_column avg xs sc))"
    by blast
  have dropped: "n \<notin> set (columns tr) \<and> n \<notin> set (columns te)"
    if "MISSING_THRESHOLD < spec_missing_fraction (FloatCol xs)"
    using that kept eq by simp
  have retained: "\<exists>ys c. getitem tr n = Inr (FloatCol ys) \<and> getitem te n = Inr c \<and>
                 length ys = length xs \<and> col_len c = col_len t0 \<and>
                 (\<forall>i<length xs. is_fin (xs ! i) \<longrightarrow> ys ! i = xs ! i) \<and>
                 (is_fin (np_median avg xs) \<longrightarrow>
                    (\<forall>i<length xs. xs ! i = NaN \<longrightarrow> ys ! i = np_median avg xs) \<and>
                    (NaN \<in> set xs \<or> no_inf (FloatCol xs) \<longrightarrow>
                       (\<forall>i<col_len t0. cells t0 ! i = Flt NaN \<longrightarrow>
                          cells c ! i = Flt (np_median avg xs))))"
    if le: "spec_missing_fraction (FloatCol xs) \<le> MISSING_THRESHOLD"
  proof -
    from le kept have n: "n \<in> set (columns tr)" by simp
    from per[OF n] c0' t0' have
      mtr: "map_of tr n = Some (FloatCol (final_train_values avg xs))"
      and mte: "map_of te n = Some (final_test_column avg xs t0)"
      by auto
    let ?ys = "final_train_values avg xs"
    let ?c = "final_test_column avg xs t0"
    have a: "getitem tr n = Inr (FloatCol ?ys)" using mtr by (simp add: getitem_Inr_iff)
    have b: "getitem te n = Inr ?c" using mte by (simp add: getitem_Inr_iff)
    have fin_cells: "\<forall>i<length xs. is_fin (xs ! i) \<longrightarrow> ?ys ! i = xs ! i"
      using final_train_values_fin_cell by blast
    have filled: "(\<forall>i<length xs. xs ! i = NaN \<longrightarrow> ?ys ! i = np_median avg xs) \<and>
                    (NaN \<in> set xs \<or> no_inf (FloatCol xs) \<longrightarrow>
                       (\<forall>i<col_len t0. cells t0 ! i = Flt NaN \<longrightarrow>
                          cells ?c ! i = Flt (np_median avg xs)))"
      if m: "is_fin (np_median avg xs)"
    proof -
      have tr_cells: "\<forall>i<length xs. xs ! i = NaN \<longrightarrow> ?ys ! i = np_median avg xs"
        using final_train_values_nan_cell[OF m] by blast
      have te_cells: "\<forall>i<col_len t0. cells t0 ! i = Flt NaN \<longrightarrow>
                          cells ?c ! i = Flt (np_median avg xs)"
        if "NaN \<in> set xs \<or> no_inf (FloatCol xs)"
      proof -
        from that have "NaN \<in> set xs \<or> (\<forall>x\<in>set xs. \<not> is_inf x)"
          by (simp add: no_inf_FloatCol_iff)
        from final_test_column_nan_cell[OF m this] show ?thesis by blast
      qed
      from tr_cells te_cells show ?thesis by blast
    qed
    have "getitem tr n = Inr (FloatCol ?ys) \<and> getitem te n = Inr ?c \<and>
                 length ?ys = length xs \<and> col_len ?c = col_len t0 \<and>
                 (\<forall>i<length xs. is_fin (xs ! i) \<longrightarrow> ?ys ! i = xs ! i) \<and>
                 (is_fin (np_median avg xs) \<longrightarrow>
                    (\<forall>i<length xs. xs ! i = NaN \<longrightarrow> ?ys ! i = np_median avg xs) \<and>
                    (NaN \<in> set xs \<or> no_inf (FloatCol xs) \<longrightarrow>
                       (\<forall>i<col_len t0. cells t0 ! i = Flt NaN \<longrightarrow>
                          cells ?c ! i = Flt (np_median avg xs))))"
      using a b fin_cells filled by simp
    then show ?thesis by blast
  qed
  from pd dropped retained show ?thesis by blast
qed

theorem high_missing_filter_witness:
  "preprocess_data (\<lambda>r. ''0'') float64_mean scenario_train scenario_test ''TARGET'' =
     Inr ([(''AMT_ANNUITY'', FloatCol (replicate 13 (Fin 40) @
             [Fin 10, Fin 20, Fin 30, Fin 40, Fin 50, Fin 60, Fin 70]))],
          [(''AMT_ANNUITY'', FloatCol [Fin 40, Fin 90])],
          FloatCol (replicate 18 (Fin 0) @ [Fin 1, Fin 1]),
          FloatCol (map (\<lambda>k. Fin (real k)) [1 ..< 21]), FloatCol [Fin 21, Fin 22]) \<and>
   spec_missing_fraction (FloatCol (replicate 15 NaN @ [Fin 1, Fin 2, Fin 3, Fin 4, Fin 5])) =
     15 / 20 \<and>
   ''EXT_SOURCE_1'' \<notin> set (columns [(''AMT_ANNUITY'', FloatCol (replicate 13 (Fin 40) @
        [Fin 10, Fin 20, Fin 30, Fin 40, Fin 50, Fin 60, Fin 70]))]) \<and>
   ''EXT_SOURCE_1'' \<notin> set (columns [(''AMT_ANNUITY'', FloatCol [Fin 40, Fin 90])]) \<and>
   spec_missing_fraction (FloatCol (replicate 13 NaN @
        [Fin 10, Fin 20, Fin 30, Fin 40, Fin 50, Fin 60, Fin 70])) = 13 / 20 \<and>
   np_median float64_mean (replicate 13 NaN @
        [Fin 10, Fin 20, Fin 30, Fin 40, Fin 50, Fin 60, Fin 70]) = Fin 40 \<and>
   (replicate 13 (Fin 40) @ [Fin 10, Fin 20, Fin 30, Fin 40, Fin 50, Fin 60, Fin 70]) ! 0 = Fin 40 \<and>
   cells (FloatCol [Fin 40, Fin 90]) ! 0 = Flt (Fin 40)"
proof -
  let ?ext = "replicate 15 NaN @ [Fin 1, Fin 2, Fin 3, Fin 4, Fin 5]"
  let ?amt = "replicate 13 NaN @ [Fin 10, Fin 20, Fin 30, Fin 40, Fin 50, Fin 60, Fin 70]"
  let ?tr = "[(''AMT_ANNUITY'', FloatCol (replicate 13 (Fin 40) @
        [Fin 10, Fin 20, Fin 30, Fin 40, Fin 50, Fin 60, Fin 70]))]"
  let ?te = "[(''AMT_ANNUITY'', FloatCol [Fin 40, Fin 90])]"
  have run: "preprocess_data (\<lambda>r. ''0'') float64_mean scenario_train scenario_test ''TARGET'' =
     Inr (?tr, ?te, FloatCol (replicate 18 (Fin 0) @ [Fin 1, Fin 1]),
          FloatCol (map (\<lambda>k. Fin (real k)) [1 ..< 21]), FloatCol [Fin 21, Fin 22])"
    by code_simp
  have rect: "rectangular scenario_train" by code_simp
  have tgt: "''TARGET'' \<in> set (columns scenario_train)" by code_simp
  have sk: "''SK_ID_CURR'' \<in> set (columns scenario_train)" by code_simp
  have ske: "''SK_ID_CURR'' \<in> set (columns scenario_test)" by code_simp
  have cats: "\<forall>(n, c)\<in>set scenario_train.
                is_object c \<and> n \<noteq> ''TARGET'' \<longrightarrow> n \<in> set (columns scenario_test)"
    by code_simp
  have ext: "getitem scenario_train ''EXT_SOURCE_1'' = Inr (FloatCol ?ext)" by code_simp
  have ext_t: "getitem scenario_test ''EXT_SOURCE_1'' = Inr (FloatCol [Fin 1, NaN])" by code_simp
  have amt: "getitem scenario_train ''AMT_ANNUITY'' = Inr (FloatCol ?amt)" by code_simp
  have amt_t: "getitem scenario_test ''AMT_ANNUITY'' = Inr (FloatCol [NaN, Fin 90])" by code_simp
  have f75: "spec_missing_fraction (FloatCol ?ext) = 15 / 20"
    by (simp add: spec_missing_fraction_def isnull_sum_def)
  have f65: "spec_missing_fraction (FloatCol ?amt) = 13 / 20"
    by (simp add: spec_missing_fraction_def isnull_sum_def)
  have med: "np_median float64_mean ?amt = Fin 40" by code_simp
  have d: "''EXT_SOURCE_1'' \<notin> set (columns ?tr) \<and> ''EXT_SOURCE_1'' \<notin> set (columns ?te)"
    using high_missing_filter[OF rect tgt sk _ ske cats ext ext_t, of "\<lambda>r. ''0''" float64_mean]
      run f75
    by (simp add: MISSING_THRESHOLD_def)
  have k: "(replicate 13 (Fin 40) @ [Fin 10, Fin 20, Fin 30, Fin 40, Fin 50, Fin 60, Fin 70]) ! 0
             = Fin 40 \<and>
           cells (FloatCol [Fin 40, Fin 90]) ! 0 = Flt (Fin 40)"
    by code_simp
  from run d k f75 f65 med show ?thesis by simp
qed

text \<open>
  Claim C5 as stated fails for a training column whose median is infinite. The column
  below is missing in one row of five, so it is kept; the median of the training column is
  plus infinity, and the missing cell of either frame ends as 1.
\<close>

theorem missing_cell_not_filled_with_median:
  "spec_missing_fraction (FloatCol [NaN, Fin 1, PInf, PInf, PInf]) = 1 / 5 \<and>
   getitem infinite_train ''CREDIT_TERM'' = Inr (FloatCol [NaN, Fin 1, PInf, PInf, PInf]) \<and>
   median float64_mean (FloatCol [NaN, Fin 1, PInf, PInf, PInf]) = Inr PInf \<and>
   preprocess_data (\<lambda>r. ''0'') float64_mean infinite_train infinite_test ''TARGET'' =
     Inr ([(''CREDIT_TERM'', FloatCol [Fin 1, Fin 1, Fin 1, Fin 1, Fin 1])],
          [(''CREDIT_TERM'', FloatCol [Fin 1])], FloatCol [Fin 0, Fin 1, Fin 0, Fin 0, Fin 0],
          FloatCol [Fin 1, Fin 2, Fin 3, Fin 4, Fin 5], FloatCol [Fin 6])"
  by code_simp


lemma index_of_not_member: "z \<notin> set xs \<Longrightarrow> index_of xs z = length xs"
  by (induction xs) auto

lemma index_of_eq_iff:
  assumes "y \<in> set xs"
  shows "index_of xs y = index_of xs z \<longleftrightarrow> y = z"
proof (cases "z \<in> set xs")
  case True
  with assms index_of_inj[of xs] show ?thesis by (auto simp: inj_on_def)
next
  case False
  with assms index_of_less[OF assms] show ?thesis by (auto simp: index_of_not_member)
qed

lemma isnull_sum_int_column [simp]: "isnull_sum (int_column ks) = 0"
  by (simp add: isnull_sum_def int_column_def comp_def)

lemma encoded_train_cell:
  assumes "i < col_len c0"
  shows "cells (encoded_train fr c0 t0) ! i = Flt (Fin (real (nan_code fr c0 t0)))
         \<longleftrightarrow> cell_str fr (cells c0 ! i) = ''nan''"
proof -
  let ?cl = "classes (astype_str fr c0 @ astype_str fr t0)"
  have "cell_str fr (cells c0 ! i) \<in> set ?cl"
    using assms by (simp add: astype_str_def)
  from index_of_eq_iff[OF this] assms show ?thesis
    by (simp add: encoded_train_def int_column_def nan_code_def astype_str_def)
qed

lemma encoded_test_cell:
  assumes "i < col_len t0"
  shows "cells (encoded_test fr c0 t0) ! i = Flt (Fin (real (nan_code fr c0 t0)))
         \<longleftrightarrow> cell_str fr (cells t0 ! i) = ''nan''"
proof -
  let ?cl = "classes (astype_str fr c0 @ astype_str fr t0)"
  have "cell_str fr (cells t0 ! i) \<in> set ?cl"
    using assms by (simp add: astype_str_def)
  from index_of_eq_iff[OF this] assms show ?thesis
    by (simp add: encoded_test_def int_column_def nan_code_def astype_str_def)
qed

text \<open>
  Claim C9. The reconciliation returns when the training frame has the target and the
  identifier, the test frame has the identifier and every categorical column of the
  training frame. A column that is categorical in the training frame is then in both
  returned frames whatever the number of its missing cells, and holds there the label
  codes as the encoding produced them: no cell is filled with a median. In both frames a
  cell that was missing holds the code of the string \<^verbatim>\<open>nan\<close>, and a cell whose string form
  is another one holds another code.
\<close>

theorem missing_category_keeps_its_code:
  assumes rect: "rectangular train_df0"
    and tgt: "target \<in> set (columns train_df0)"
    and sk: "''SK_ID_CURR'' \<in> set (columns train_df0)" and skt: "''SK_ID_CURR'' \<noteq> target"
    and ske: "''SK_ID_CURR'' \<in> set (columns test_df)"
    and cats: "\<forall>(n, c)\<in>set train_df0. is_object c \<and> n \<noteq> target \<longrightarrow> n \<in> set (columns test_df)"
    and c0: "getitem train_df0 n = Inr c0" and obj: "is_object c0"
    and nt: "n \<noteq> target" and nsk: "n \<noteq> ''SK_ID_CURR''"
  shows "\<exists>tr te y ids1 ids2 t0.
           preprocess_data fr avg train_df0 test_df target = Inr (tr, te, y, ids1, ids2) \<and>
           getitem test_df n = Inr t0 \<and>
           getitem tr n = Inr (encoded_train fr c0 t0) \<and>
           getitem te n = Inr (encoded_test fr c0 t0) \<and>
           (\<forall>i<col_len c0.
              (cells c0 ! i = Flt NaN \<longrightarrow>
                 cells (encoded_train fr c0 t0) ! i = Flt (Fin (real (nan_code fr c0 t0)))) \<and>
              (cell_str fr (cells c0 ! i) \<noteq> ''nan'' \<longrightarrow>
                 cells (encoded_train fr c0 t0) ! i \<noteq> Flt (Fin (real (nan_code fr c0 t0))))) \<and>
           (\<forall>i<col_len t0.
              (cells t0 ! i = Flt NaN \<longrightarrow>
                 cells (encoded_test fr c0 t0) ! i = Flt (Fin (real (nan_code fr c0 t0)))) \<and>
              (cell_str fr (cells t0 ! i) \<noteq> ''nan'' \<longrightarrow>
                 cells (encoded_test fr c0 t0) ! i \<noteq> Flt (Fin (real (nan_code fr c0 t0)))))"
proof -
  from preprocess_data_returns[OF rect tgt sk skt ske cats] obtain tr te y ids1 ids2 where
    pd: "preprocess_data fr avg train_df0 test_df target = Inr (tr, te, y, ids1, ids2)"
    by blast
  from c0 have c0': "map_of train_df0 n = Some c0" by (simp add: getitem_Inr_iff)
  then have "(n, c0) \<in> set train_df0" by (rule map_of_SomeD)
  with cats obj nt have "n \<in> set (columns test_df)" by auto
  then obtain t0 where t0': "map_of test_df n = Some t0" using in_columns_map_of by blast
  then have t0: "getitem test_df n = Inr t0" by (simp add: getitem_Inr_iff)
  have "spec_missing_fraction (encoded_train fr c0 t0) = 0"
    by (simp add: spec_missing_fraction_def encoded_train_def)
  with preprocess_data_kept[OF pd rect c0' t0' nt nsk] obj
  have n: "n \<in> set (columns tr)" by (simp add: MISSING_THRESHOLD_def)
  note pc = preprocess_data_columns[OF pd rect]
  from pc have per: "\<And>n. n \<in> set (columns tr) \<Longrightarrow>
            (\<exists>c0 t0 xs sc. map_of train_df0 n = Some c0 \<and> map_of test_df n = Some t0 \<and>
               FloatCol xs = (if is_object c0 then encoded_train fr c0 t0 else c0) \<and>
               sc = (if is_object c0 then encoded_test fr c0 t0 else t0) \<and>
               map_of tr n = Some (FloatCol (final_train_values avg xs)) \<and>
               map_of te n = Some (final_test_column avg xs sc))"
    by blast
  from per[OF n] c0' t0' obj obtain xs where
    xs: "FloatCol xs = encoded_train fr c0 t0"
    and mtr: "map_of tr n = Some (FloatCol (final_train_values avg xs))"
    and mte: "map_of te n = Some (final_test_column avg xs (encoded_test fr c0 t0))"
    by auto
  from xs have "int_column (map (index_of (classes (astype_str fr c0 @ astype_str fr t0)))
                   (astype_str fr c0)) = FloatCol xs"
    by (simp add: encoded_train_def)
  then have fin: "\<forall>x\<in>set xs. is_fin x" by (rule int_column_all_fin)
  obtain ys where ys: "encoded_test fr c0 t0 = FloatCol ys" and finy: "\<forall>x\<in>set ys. is_fin x"
    using int_column_all_fin by (auto simp: encoded_test_def int_column_def is_fin_def)
  have a: "getitem tr n = Inr (encoded_train fr c0 t0)"
    using mtr by (simp add: getitem_Inr_iff final_train_values_all_fin_id[OF fin] xs)
  have b: "getitem te n = Inr (encoded_test fr c0 t0)"
    using mte by (simp add: getitem_Inr_iff ys final_test_column_all_fin_id[OF finy])
  have c: "(cells c0 ! i = Flt NaN \<longrightarrow>
               cells (encoded_train fr c0 t0) ! i = Flt (Fin (real (nan_code fr c0 t0)))) \<and>
            (cell_str fr (cells c0 ! i) \<noteq> ''nan'' \<longrightarrow>
               cells (encoded_train fr c0 t0) ! i \<noteq> Flt (Fin (real (nan_code fr c0 t0))))"
    if "i < col_len c0" for i
    using encoded_train_cell[OF that, of fr t0] by auto
  have d: "(cells t0 ! i = Flt NaN \<longrightarrow>
               cells (encoded_test fr c0 t0) ! i = Flt (Fin (real (nan_code fr c0 t0)))) \<and>
            (cell_str fr (cells t0 ! i) \<noteq> ''nan'' \<longrightarrow>
               cells (encoded_test fr c0 t0) ! i \<noteq> Flt (Fin (real (nan_code fr c0 t0))))"
    if "i < col_len t0" for i
    using encoded_test_cell[OF that, of fr c0] by auto
  from pd t0 a b c d show ?thesis by blast
qed

theorem missing_category_keeps_its_code_witness:
  "preprocess_data (\<lambda>r. ''0'') float64_mean example_train example_test ''TARGET'' =
     Inr ([(''KIND'', FloatCol [Fin 1, Fin 2, Fin 0, Fin 1]),
           (''CREDIT_TERM'', FloatCol [Fin 5, Fin 7, Fin 7, Fin 7])],
          [(''KIND'', FloatCol [Fin 3, Fin 2]), (''CREDIT_TERM'', FloatCol [Fin 7, Fin 7])],
          FloatCol [Fin 0, Fin 1, Fin 0, Fin 0],
          FloatCol [Fin 1, Fin 2, Fin 3, Fin 4], FloatCol [Fin 9, Fin 8]) \<and>
   getitem example_train ''KIND'' = Inr (ObjCol [Str ''cash'', Flt NaN, Str ''card'', Str ''cash'']) \<and>
   getitem example_test ''KIND'' = Inr (ObjCol [Str ''revolving'', Flt NaN]) \<and>
   encoded_train (\<lambda>r. ''0'') (ObjCol [Str ''cash'', Flt NaN, Str ''card'', Str ''cash''])
     (ObjCol [Str ''revolving'', Flt NaN]) = FloatCol [Fin 1, Fin 2, Fin 0, Fin 1] \<and>
   encoded_test (\<lambda>r. ''0'') (ObjCol [Str ''cash'', Flt NaN, Str ''card'', Str ''cash''])
     (ObjCol [Str ''revolving'', Flt NaN]) = FloatCol [Fin 3, Fin 2] \<and>
   nan_code (\<lambda>r. ''0'') (ObjCol [Str ''cash'', Flt NaN, Str ''card'', Str ''cash''])
     (ObjCol [Str ''revolving'', Flt NaN]) = 2"
proof -
  let ?c0 = "ObjCol [Str ''cash'', Flt NaN, Str ''card'', Str ''cash'']"
  let ?t0 = "ObjCol [Str ''revolving'', Flt NaN]"
  have run: "preprocess_data (\<lambda>r. ''0'') float64_mean example_train example_test ''TARGET'' =
     Inr ([(''KIND'', FloatCol [Fin 1, Fin 2, Fin 0, Fin 1]),
           (''CREDIT_TERM'', FloatCol [Fin 5, Fin 7, Fin 7, Fin 7])],
          [(''KIND'', FloatCol [Fin 3, Fin 2]), (''CREDIT_TERM'', FloatCol [Fin 7, Fin 7])],
          FloatCol [Fin 0, Fin 1, Fin 0, Fin 0],
          FloatCol [Fin 1, Fin 2, Fin 3, Fin 4], FloatCol [Fin 9, Fin 8])"
    by code_simp
  have rect: "rectangular example_train" by code_simp
  have tgt: "''TARGET'' \<in> set (columns example_train)" by code_simp
  have sk: "''SK_ID_CURR'' \<in> set (columns example_train)" by code_simp
  have ske: "''SK_ID_CURR'' \<in> set (columns example_test)" by code_simp
  have cats: "\<forall>(n, c)\<in>set example_train.
                is_object c \<and> n \<noteq> ''TARGET'' \<longrightarrow> n \<in> set (columns example_test)"
    by code_simp
  have c0: "getitem example_train ''KIND'' = Inr ?c0" by code_simp
  have t0: "getitem example_test ''KIND'' = Inr ?t0" by code_simp
  have nc: "nan_code (\<lambda>r. ''0'') ?c0 ?t0 = 2" by code_simp
  from missing_category_keeps_its_code[OF rect tgt sk _ ske cats c0, of "\<lambda>r. ''0''" float64_mean]
  obtain t where
    "getitem example_test ''KIND'' = Inr t"
    "getitem [(''KIND'', FloatCol [Fin 1, Fin 2, Fin 0, Fin 1]),
              (''CREDIT_TERM'', FloatCol [Fin 5, Fin 7, Fin 7, Fin 7])] ''KIND'' =
       Inr (encoded_train (\<lambda>r. ''0'') ?c0 t)"
    "getitem [(''KIND'', FloatCol [Fin 3, Fin 2]), (''CREDIT_TERM'', FloatCol [Fin 7, Fin 7])]
       ''KIND'' = Inr (encoded_test (\<lambda>r. ''0'') ?c0 t)"
    unfolding run by auto
  with t0 have "encoded_train (\<lambda>r. ''0'') ?c0 ?t0 = FloatCol [Fin 1, Fin 2, Fin 0, Fin 1]"
    "encoded_test (\<lambda>r. ''0'') ?c0 ?t0 = FloatCol [Fin 3, Fin 2]"
    by (simp_all add: getitem_def)
  with run c0 t0 nc show ?thesis by simp
qed

section \<open>Properties of the ledger aggregation\<close>

lemma agg_entry_names:
  "agg_entry ks df (col, as) = Inr cs \<Longrightarrow>
     map fst cs = map (\<lambda>a. (col, aggregator_name a)) as"
proof (induction as arbitrary: cs)
  case Nil
  then show ?case by simp
next
  case (Cons a as)
  from Cons.prems obtain c where c: "getitem df col = Inr c"
    by (cases "getitem df col") simp_all
  from Cons.prems c obtain r where r: "agg_column ks c a = Inr r"
    by (cases "agg_column ks c a") simp_all
  from Cons.prems c r obtain rs where rs: "agg_entry ks df (col, as) = Inr rs"
    by (cases "agg_entry ks df (col, as)") simp_all
  from Cons.prems c r rs have "cs = ((col, aggregator_name a), r) # rs" by simp
  with Cons.IH[OF rs] show ?case by simp
qed

lemma agg_entry_cells:
  "agg_entry ks df (col, as) = Inr cs \<Longrightarrow> a \<in> set as \<Longrightarrow>
     \<exists>c r. getitem df col = Inr c \<and> agg_column ks c a = Inr r \<and>
           ((col, aggregator_name a), r) \<in> set cs"
proof (induction as arbitrary: cs)
  case Nil
  then show ?case by simp
next
  case (Cons b as)
  from Cons.prems(1) obtain c where c: "getitem df col = Inr c"
    by (cases "getitem df col") simp_all
  from Cons.prems(1) c obtain r where r: "agg_column ks c b = Inr r"
    by (cases "agg_column ks c b") simp_all
  from Cons.prems(1) c r obtain rs where rs: "agg_entry ks df (col, as) = Inr rs"
    by (cases "agg_entry ks df (col, as)") simp_all
  from Cons.prems(1) c r rs have cs: "cs = ((col, aggregator_name b), r) # rs" by simp
  show ?case
  proof (cases "a = b")
    case True
    with c r cs show ?thesis by auto
  next
    case False
    with Cons.prems(2) have "a \<in> set as" by simp
    from Cons.IH[OF rs this] cs show ?thesis by auto
  qed
qed

lemma agg_entries_names:
  "agg_entries ks df spec = Inr cs \<Longrightarrow>
     map fst cs = concat (map (\<lambda>(col, as). map (\<lambda>a. (col, aggregator_name a)) as) spec)"
proof (induction spec arbitrary: cs)
  case Nil
  then show ?case by simp
next
  case (Cons entry spec)
  obtain col as where entry: "entry = (col, as)" by (cases entry)
  from Cons.prems obtain es where es: "agg_entry ks df (col, as) = Inr es"
    unfolding entry by (cases "agg_entry ks df (col, as)") simp_all
  from Cons.prems es obtain rest where rest: "agg_entries ks df spec = Inr rest"
    unfolding entry by (cases "agg_entries ks df spec") simp_all
  from Cons.prems es rest have "cs = es @ rest" unfolding entry by simp
  with agg_entry_names[OF es] Cons.IH[OF rest] show ?case by (simp add: entry)
qed

lemma agg_entries_cells:
  "agg_entries ks df spec = Inr cs \<Longrightarrow> (col, as) \<in> set spec \<Longrightarrow> a \<in> set as \<Longrightarrow>
     \<exists>c r. getitem df col = Inr c \<and> agg_column ks c a = Inr r \<and>
           ((col, aggregator_name a), r) \<in> set cs"
proof (induction spec arbitrary: cs)
  case Nil
  then show ?case by simp
next
  case (Cons entry spec)
  obtain col' as' where entry: "entry = (col', as')" by (cases entry)
  from Cons.prems(1) obtain es where es: "agg_entry ks df (col', as') = Inr es"
    unfolding entry by (cases "agg_entry ks df (col', as')") simp_all
  from Cons.prems(1) es obtain rest where rest: "agg_entries ks df spec = Inr rest"
    unfolding entry by (cases "agg_entries ks df spec") simp_all
  from Cons.prems(1) es rest have cs: "cs = es @ rest" unfolding entry by simp
  show ?case
  proof (cases "(col, as) = (col', as')")
    case True
    with agg_entry_cells[OF es, of a] Cons.prems(3) cs show ?thesis by auto
  next
    case False
    with Cons.prems(2) entry have "(col, as) \<in> set spec" by auto
    from Cons.IH[OF rest this Cons.prems(3)] cs show ?thesis by auto
  qed
qed

lemma groupby_agg_Inr:
  assumes "groupby_agg df key spec = Inr (ks', cols)"
  shows "\<exists>ks. getitem df key = Inr (FloatCol ks) \<and> ks' = group_keys ks \<and>
              agg_entries ks df spec = Inr cols"
proof -
  note g = assms[unfolded groupby_agg_def]
  from g obtain kc where kc: "getitem df key = Inr kc"
    by (cases "getitem df key") simp_all
  from g kc obtain ks where ks: "kc = FloatCol ks" by (cases kc) simp_all
  from g kc ks have f: "filter (\<lambda>col. col \<notin> set (columns df)) (map fst spec) = []"
    by (cases "filter (\<lambda>col. col \<notin> set (columns df)) (map fst spec)") simp_all
  from g kc ks f obtain cs where cs: "agg_entries ks df spec = Inr cs"
    by (cases "agg_entries ks df spec") simp_all
  from g kc ks f cs show ?thesis by simp
qed

lemma assign_all_installments:
  assumes "assign_all installment_assignments df = (df1, None)"
  shows "\<exists>pay inst entry due d1 d2 d3.
           getitem df ''AMT_PAYMENT'' = Inr pay \<and> getitem df ''AMT_INSTALMENT'' = Inr inst \<and>
           getitem df ''DAYS_ENTRY_PAYMENT'' = Inr entry \<and>
           getitem df ''DAYS_INSTALMENT'' = Inr due \<and>
           col_binop np_sub pay inst = Inr d1 \<and> col_binop np_div pay inst = Inr d2 \<and>
           col_binop np_sub entry due = Inr d3 \<and>
           df1 = setitem (setitem (setitem df ''PAYMENT_DIFF'' d1) ''PAYMENT_RATIO'' d2)
                   ''DAYS_PAYMENT_DELAY'' d3"
proof -
  let ?f1 = "frame_binop np_sub ''AMT_PAYMENT'' ''AMT_INSTALMENT''"
  let ?f2 = "frame_binop np_div ''AMT_PAYMENT'' ''AMT_INSTALMENT''"
  let ?f3 = "frame_binop np_sub ''DAYS_ENTRY_PAYMENT'' ''DAYS_INSTALMENT''"
  note a = assms[unfolded installment_assignments_def]
  have get: "getitem (setitem f n c) k = getitem f k" if "k \<noteq> n" for f n c k
    using that by (simp add: getitem_def map_of_setitem)
  from a obtain d1 where d1: "?f1 df = Inr d1" by (cases "?f1 df") simp_all
  let ?df1 = "setitem df ''PAYMENT_DIFF'' d1"
  from a d1 obtain d2 where d2: "?f2 ?df1 = Inr d2" by (cases "?f2 ?df1") simp_all
  let ?df2 = "setitem ?df1 ''PAYMENT_RATIO'' d2"
  from a d1 d2 obtain d3 where d3: "?f3 ?df2 = Inr d3" by (cases "?f3 ?df2") simp_all
  from a d1 d2 d3 have res: "df1 = setitem ?df2 ''DAYS_PAYMENT_DELAY'' d3" by simp
  from d1 obtain pay where pay: "getitem df ''AMT_PAYMENT'' = Inr pay"
    unfolding frame_binop_def by (cases "getitem df ''AMT_PAYMENT''") simp_all
  from d1 pay obtain inst where inst: "getitem df ''AMT_INSTALMENT'' = Inr inst"
    unfolding frame_binop_def by (cases "getitem df ''AMT_INSTALMENT''") simp_all
  from d1 pay inst have c1: "col_binop np_sub pay inst = Inr d1"
    by (simp add: frame_binop_def)
  from d2 pay inst have c2: "col_binop np_div pay inst = Inr d2"
    by (simp add: frame_binop_def get)
  have e: "getitem ?df2 ''DAYS_ENTRY_PAYMENT'' = getitem df ''DAYS_ENTRY_PAYMENT''"
    and u: "getitem ?df2 ''DAYS_INSTALMENT'' = getitem df ''DAYS_INSTALMENT''"
    by (simp_all add: get)
  from d3 obtain entry where entry: "getitem df ''DAYS_ENTRY_PAYMENT'' = Inr entry"
    unfolding frame_binop_def e by (cases "getitem df ''DAYS_ENTRY_PAYMENT''") simp_all
  from d3 entry obtain due where due: "getitem df ''DAYS_INSTALMENT'' = Inr due"
    unfolding frame_binop_def e u by (cases "getitem df ''DAYS_INSTALMENT''") simp_all
  from d3 entry due have c3: "col_binop np_sub entry due = Inr d3"
    unfolding frame_binop_def e u by simp
  from pay inst entry due c1 c2 c3 res show ?thesis by blast
qed

lemma aggregate_installments_Inr:
  assumes "aggregate_installments s d = (s', Inr r)"
  shows "\<exists>df1 ks cols.
           assign_all installment_assignments (s ! d) = (df1, None) \<and>
           groupby_agg df1 ''SK_ID_CURR'' installment_aggregations = Inr (ks, cols) \<and>
           s' = s[d := df1] @ [(''SK_ID_CURR'', FloatCol ks) # flatten_columns ''INST_'' cols] \<and>
           r = length s"
proof -
  note a = assms[unfolded aggregate_installments_def]
  obtain df1 err where as: "assign_all installment_assignments (s ! d) = (df1, err)"
    by (cases "assign_all installment_assignments (s ! d)")
  from a as have err: "err = None" by (cases err) simp_all
  from a as err obtain g where g: "groupby_agg df1 ''SK_ID_CURR'' installment_aggregations = Inr g"
    by (cases "groupby_agg df1 ''SK_ID_CURR'' installment_aggregations") (simp_all add: Let_def)
  obtain ks cols where g': "g = (ks, cols)" by (cases g)
  from a as err g g' obtain ia where
    ia: "reset_index ''SK_ID_CURR'' ks (flatten_columns ''INST_'' cols) = Inr ia"
    by (cases "reset_index ''SK_ID_CURR'' ks (flatten_columns ''INST_'' cols)")
       (simp_all add: Let_def)
  then have ia': "ia = (''SK_ID_CURR'', FloatCol ks) # flatten_columns ''INST_'' cols"
    by (simp add: reset_index_def split: if_splits)
  from a as err g g' ia have "s' = s[d := df1] @ [ia]" "r = length s"
    by (simp_all add: Let_def alloc_def)
  with as err g g' ia' show ?thesis by simp
qed


lemma installment_column_names:
  "map (flat_name ''INST_'')
     (concat (map (\<lambda>(col, as). map (\<lambda>a. (col, aggregator_name a)) as) installment_aggregations)) =
   [''INST_SK_ID_PREV_COUNT'',
    ''INST_NUM_INSTALMENT_NUMBER_MAX'', ''INST_NUM_INSTALMENT_NUMBER_MEAN'',
    ''INST_NUM_INSTALMENT_VERSION_MAX'',
    ''INST_DAYS_INSTALMENT_MIN'', ''INST_DAYS_INSTALMENT_MAX'', ''INST_DAYS_INSTALMENT_MEAN'',
    ''INST_DAYS_ENTRY_PAYMENT_MIN'', ''INST_DAYS_ENTRY_PAYMENT_MAX'',
    ''INST_DAYS_ENTRY_PAYMENT_MEAN'',
    ''INST_AMT_INSTALMENT_MIN'', ''INST_AMT_INSTALMENT_MAX'', ''INST_AMT_INSTALMENT_MEAN'',
    ''INST_AMT_INSTALMENT_SUM'',
    ''INST_AMT_PAYMENT_MIN'', ''INST_AMT_PAYMENT_MAX'', ''INST_AMT_PAYMENT_MEAN'',
    ''INST_AMT_PAYMENT_SUM'',
    ''INST_PAYMENT_DIFF_MIN'', ''INST_PAYMENT_DIFF_MAX'', ''INST_PAYMENT_DIFF_MEAN'',
    ''INST_PAYMENT_DIFF_SUM'',
    ''INST_PAYMENT_RATIO_MIN'', ''INST_PAYMENT_RATIO_MAX'', ''INST_PAYMENT_RATIO_MEAN'',
    ''INST_DAYS_PAYMENT_DELAY_MIN'', ''INST_DAYS_PAYMENT_DELAY_MAX'',
    ''INST_DAYS_PAYMENT_DELAY_MEAN'']"
  by code_simp

lemma columns_flatten_columns:
  "columns (flatten_columns prefix cols) = map (flat_name prefix) (map fst cols)"
  by (simp add: flatten_columns_def columns_def split_def comp_def)

lemma flatten_columns_member:
  "(col, c) \<in> set cols \<Longrightarrow> (flat_name prefix col, c) \<in> set (flatten_columns prefix cols)"
  by (force simp: flatten_columns_def)

lemma installment_names_distinct:
  "distinct
     [''SK_ID_CURR'', ''INST_SK_ID_PREV_COUNT'',
              ''INST_NUM_INSTALMENT_NUMBER_MAX'', ''INST_NUM_INSTALMENT_NUMBER_MEAN'',
              ''INST_NUM_INSTALMENT_VERSION_MAX'',
              ''INST_DAYS_INSTALMENT_MIN'', ''INST_DAYS_INSTALMENT_MAX'',
              ''INST_DAYS_INSTALMENT_MEAN'',
              ''INST_DAYS_ENTRY_PAYMENT_MIN'', ''INST_DAYS_ENTRY_PAYMENT_MAX'',
              ''INST_DAYS_ENTRY_PAYMENT_MEAN'',
              ''INST_AMT_INSTALMENT_MIN'', ''INST_AMT_INSTALMENT_MAX'',
              ''INST_AMT_INSTALMENT_MEAN'', ''INST_AMT_INSTALMENT_SUM'',
              ''INST_AMT_PAYMENT_MIN'', ''INST_AMT_PAYMENT_MAX'', ''INST_AMT_PAYMENT_MEAN'',
              ''INST_AMT_PAYMENT_SUM'',
              ''INST_PAYMENT_DIFF_MIN'', ''INST_PAYMENT_DIFF_MAX'', ''INST_PAYMENT_DIFF_MEAN'',
              ''INST_PAYMENT_DIFF_SUM'',
              ''INST_PAYMENT_RATIO_MIN'', ''INST_PAYMENT_RATIO_MAX'',
              ''INST_PAYMENT_RATIO_MEAN'',
              ''INST_DAYS_PAYMENT_DELAY_MIN'', ''INST_DAYS_PAYMENT_DELAY_MAX'',
              ''INST_DAYS_PAYMENT_DELAY_MEAN'']"
  by code_simp

lemma installment_pairs:
  "map (\<lambda>(col, f). (col, Named f))
     [(''SK_ID_PREV'', ''count''),
                (''NUM_INSTALMENT_NUMBER'', ''max''), (''NUM_INSTALMENT_NUMBER'', ''mean''),
                (''NUM_INSTALMENT_VERSION'', ''max''),
                (''DAYS_INSTALMENT'', ''min''), (''DAYS_INSTALMENT'', ''max''),
                (''DAYS_INSTALMENT'', ''mean''),
                (''DAYS_ENTRY_PAYMENT'', ''min''), (''DAYS_ENTRY_PAYMENT'', ''max''),
                (''DAYS_ENTRY_PAYMENT'', ''mean''),
                (''AMT_INSTALMENT'', ''min''), (''AMT_INSTALMENT'', ''max''),
                (''AMT_INSTALMENT'', ''mean''), (''AMT_INSTALMENT'', ''sum''),
                (''AMT_PAYMENT'', ''min''), (''AMT_PAYMENT'', ''max''),
                (''AMT_PAYMENT'', ''mean''), (''AMT_PAYMENT'', ''sum''),
                (''PAYMENT_DIFF'', ''min''), (''PAYMENT_DIFF'', ''max''),
                (''PAYMENT_DIFF'', ''mean''), (''PAYMENT_DIFF'', ''sum''),
                (''PAYMENT_RATIO'', ''min''), (''PAYMENT_RATIO'', ''max''),
                (''PAYMENT_RATIO'', ''mean''),
                (''DAYS_PAYMENT_DELAY'', ''min''), (''DAYS_PAYMENT_DELAY'', ''max''),
                (''DAYS_PAYMENT_DELAY'', ''mean'')] =
   concat (map (\<lambda>(col, as). map (\<lambda>a. (col, a)) as) installment_aggregations)"
  by code_simp

text \<open>
  Claim C8, with the instalment version aggregated by its maximum only. When the
  aggregation returns, the caller's ledger holds the three derived columns: payment minus
  scheduled amount, payment divided by scheduled amount, entry day minus scheduled day.
  The aggregated table has one row for each applicant of the ledger, in ascending order of
  the identifier, and after the identifier exactly the twenty-eight columns listed, each
  the named aggregation of its source column over the rows of the applicant.
\<close>

theorem installments_aggregation:
  assumes run: "aggregate_installments s df_inst = (s', Inr r)" and ref: "df_inst < length s"
  shows "\<exists>pay inst entry due ks.
           getitem (s ! df_inst) ''AMT_PAYMENT'' = Inr pay \<and>
           getitem (s ! df_inst) ''AMT_INSTALMENT'' = Inr inst \<and>
           getitem (s ! df_inst) ''DAYS_ENTRY_PAYMENT'' = Inr entry \<and>
           getitem (s ! df_inst) ''DAYS_INSTALMENT'' = Inr due \<and>
           getitem (s' ! df_inst) ''PAYMENT_DIFF'' = col_binop np_sub pay inst \<and>
           getitem (s' ! df_inst) ''PAYMENT_RATIO'' = col_binop np_div pay inst \<and>
           getitem (s' ! df_inst) ''DAYS_PAYMENT_DELAY'' = col_binop np_sub entry due \<and>
           getitem (s' ! df_inst) ''SK_ID_CURR'' = Inr (FloatCol ks) \<and>
           getitem (s' ! r) ''SK_ID_CURR'' = Inr (FloatCol (group_keys ks)) \<and>
           (\<forall>(col, f)\<in>set
               [(''SK_ID_PREV'', ''count''),
                (''NUM_INSTALMENT_NUMBER'', ''max''), (''NUM_INSTALMENT_NUMBER'', ''mean''),
                (''NUM_INSTALMENT_VERSION'', ''max''),
                (''DAYS_INSTALMENT'', ''min''), (''DAYS_INSTALMENT'', ''max''),
                (''DAYS_INSTALMENT'', ''mean''),
                (''DAYS_ENTRY_PAYMENT'', ''min''), (''DAYS_ENTRY_PAYMENT'', ''max''),
                (''DAYS_ENTRY_PAYMENT'', ''mean''),
                (''AMT_INSTALMENT'', ''min''), (''AMT_INSTALMENT'', ''max''),
                (''AMT_INSTALMENT'', ''mean''), (''AMT_INSTALMENT'', ''sum''),
                (''AMT_PAYMENT'', ''min''), (''AMT_PAYMENT'', ''max''),
                (''AMT_PAYMENT'', ''mean''), (''AMT_PAYMENT'', ''sum''),
                (''PAYMENT_DIFF'', ''min''), (''PAYMENT_DIFF'', ''max''),
                (''PAYMENT_DIFF'', ''mean''), (''PAYMENT_DIFF'', ''sum''),
                (''PAYMENT_RATIO'', ''min''), (''PAYMENT_RATIO'', ''max''),
                (''PAYMENT_RATIO'', ''mean''),
                (''DAYS_PAYMENT_DELAY'', ''min''), (''DAYS_PAYMENT_DELAY'', ''max''),
                (''DAYS_PAYMENT_DELAY'', ''mean'')].
              \<exists>c. getitem (s' ! df_inst) col = Inr c \<and>
                  getitem (s' ! r) (flat_name ''INST_'' (col, f)) = agg_column ks c (Named f)) \<and>
           columns (s' ! r) =
             [''SK_ID_CURR'', ''INST_SK_ID_PREV_COUNT'',
              ''INST_NUM_INSTALMENT_NUMBER_MAX'', ''INST_NUM_INSTALMENT_NUMBER_MEAN'',
              ''INST_NUM_INSTALMENT_VERSION_MAX'',
              ''INST_DAYS_INSTALMENT_MIN'', ''INST_DAYS_INSTALMENT_MAX'',
              ''INST_DAYS_INSTALMENT_MEAN'',
              ''INST_DAYS_ENTRY_PAYMENT_MIN'', ''INST_DAYS_ENTRY_PAYMENT_MAX'',
              ''INST_DAYS_ENTRY_PAYMENT_MEAN'',
              ''INST_AMT_INSTALMENT_MIN'', ''INST_AMT_INSTALMENT_MAX'',
              ''INST_AMT_INSTALMENT_MEAN'', ''INST_AMT_INSTALMENT_SUM'',
              ''INST_AMT_PAYMENT_MIN'', ''INST_AMT_PAYMENT_MAX'', ''INST_AMT_PAYMENT_MEAN'',
              ''INST_AMT_PAYMENT_SUM'',
              ''INST_PAYMENT_DIFF_MIN'', ''INST_PAYMENT_DIFF_MAX'', ''INST_PAYMENT_DIFF_MEAN'',
              ''INST_PAYMENT_DIFF_SUM'',
              ''INST_PAYMENT_RATIO_MIN'', ''INST_PAYMENT_RATIO_MAX'',
              ''INST_PAYMENT_RATIO_MEAN'',
              ''INST_DAYS_PAYMENT_DELAY_MIN'', ''INST_DAYS_PAYMENT_DELAY_MAX'',
              ''INST_DAYS_PAYMENT_DELAY_MEAN'']"
proof -
  from aggregate_installments_Inr[OF run] obtain df1 ks' cols where
    as: "assign_all installment_assignments (s ! df_inst) = (df1, None)"
    and g: "groupby_agg df1 ''SK_ID_CURR'' installment_aggregations = Inr (ks', cols)"
    and s': "s' = s[df_inst := df1] @ [(''SK_ID_CURR'', FloatCol ks') # flatten_columns ''INST_'' cols]"
    and r: "r = length s"
    by blast
  let ?agg = "(''SK_ID_CURR'', FloatCol ks') # flatten_columns ''INST_'' cols"
  have at_d: "s' ! df_inst = df1" using ref by (simp add: s' nth_append)
  have at_r: "s' ! r = ?agg" by (simp add: s' r nth_append)
  from assign_all_installments[OF as] obtain pay inst entry due d1 d2 d3 where
    pay: "getitem (s ! df_inst) ''AMT_PAYMENT'' = Inr pay"
    and inst: "getitem (s ! df_inst) ''AMT_INSTALMENT'' = Inr inst"
    and entry: "getitem (s ! df_inst) ''DAYS_ENTRY_PAYMENT'' = Inr entry"
    and due: "getitem (s ! df_inst) ''DAYS_INSTALMENT'' = Inr due"
    and d1: "col_binop np_sub pay inst = Inr d1"
    and d2: "col_binop np_div pay inst = Inr d2"
    and d3: "col_binop np_sub entry due = Inr d3"
    and df1: "df1 = setitem (setitem (setitem (s ! df_inst) ''PAYMENT_DIFF'' d1)
                      ''PAYMENT_RATIO'' d2) ''DAYS_PAYMENT_DELAY'' d3"
    by blast
  have gd1: "getitem df1 ''PAYMENT_DIFF'' = Inr d1"
    and gd2: "getitem df1 ''PAYMENT_RATIO'' = Inr d2"
    and gd3: "getitem df1 ''DAYS_PAYMENT_DELAY'' = Inr d3"
    by (simp_all add: df1 getitem_def map_of_setitem)
  from groupby_agg_Inr[OF g] obtain ks where
    ks: "getitem df1 ''SK_ID_CURR'' = Inr (FloatCol ks)" and ks': "ks' = group_keys ks"
    and ae: "agg_entries ks df1 installment_aggregations = Inr cols"
    by blast
  have key: "getitem ?agg ''SK_ID_CURR'' = Inr (FloatCol (group_keys ks))"
    by (simp add: getitem_def ks')
  have names: "columns ?agg =
             [''SK_ID_CURR'', ''INST_SK_ID_PREV_COUNT'',
              ''INST_NUM_INSTALMENT_NUMBER_MAX'', ''INST_NUM_INSTALMENT_NUMBER_MEAN'',
              ''INST_NUM_INSTALMENT_VERSION_MAX'',
              ''INST_DAYS_INSTALMENT_MIN'', ''INST_DAYS_INSTALMENT_MAX'',
              ''INST_DAYS_INSTALMENT_MEAN'',
              ''INST_DAYS_ENTRY_PAYMENT_MIN'', ''INST_DAYS_ENTRY_PAYMENT_MAX'',
              ''INST_DAYS_ENTRY_PAYMENT_MEAN'',
              ''INST_AMT_INSTALMENT_MIN'', ''INST_AMT_INSTALMENT_MAX'',
              ''INST_AMT_INSTALMENT_MEAN'', ''INST_AMT_INSTALMENT_SUM'',
              ''INST_AMT_PAYMENT_MIN'', ''INST_AMT_PAYMENT_MAX'', ''INST_AMT_PAYMENT_MEAN'',
              ''INST_AMT_PAYMENT_SUM'',
              ''INST_PAYMENT_DIFF_MIN'', ''INST_PAYMENT_DIFF_MAX'', ''INST_PAYMENT_DIFF_MEAN'',
              ''INST_PAYMENT_DIFF_SUM'',
              ''INST_PAYMENT_RATIO_MIN'', ''INST_PAYMENT_RATIO_MAX'',
              ''INST_PAYMENT_RATIO_MEAN'',
              ''INST_DAYS_PAYMENT_DELAY_MIN'', ''INST_DAYS_PAYMENT_DELAY_MAX'',
              ''INST_DAYS_PAYMENT_DELAY_MEAN'']"
  proof -
    have "columns ?agg = ''SK_ID_CURR'' # map (flat_name ''INST_'') (map fst cols)"
      using columns_flatten_columns[of "''INST_''" cols] by (simp add: columns_def)
    then show ?thesis
      unfolding agg_entries_names[OF ae] installment_column_names .
  qed
  have dist: "distinct (columns ?agg)" unfolding names by (rule installment_names_distinct)
  have cell: "\<exists>c. getitem df1 col = Inr c \<and>
                getitem ?agg (flat_name ''INST_'' (col, aggregator_name a)) = agg_column ks c a"
    if "(col, as) \<in> set installment_aggregations" "a \<in> set as" for col as a
  proof -
    from agg_entries_cells[OF ae that] obtain c rc where
      c: "getitem df1 col = Inr c" and rc: "agg_column ks c a = Inr rc"
      and mem: "((col, aggregator_name a), rc) \<in> set cols"
      by blast
    from flatten_columns_member[OF mem]
    have "(flat_name ''INST_'' (col, aggregator_name a), rc) \<in> set ?agg" by simp
    with dist have "map_of ?agg (flat_name ''INST_'' (col, aggregator_name a)) = Some rc"
      by (simp only: map_of_distinct_iff)
    with c rc show ?thesis by (simp add: getitem_Inr_iff)
  qed
  define pairs :: "(string \<times> string) list" where "pairs =
               [(''SK_ID_PREV'', ''count''),
                (''NUM_INSTALMENT_NUMBER'', ''max''), (''NUM_INSTALMENT_NUMBER'', ''mean''),
                (''NUM_INSTALMENT_VERSION'', ''max''),
                (''DAYS_INSTALMENT'', ''min''), (''DAYS_INSTALMENT'', ''max''),
                (''DAYS_INSTALMENT'', ''mean''),
                (''DAYS_ENTRY_PAYMENT'', ''min''), (''DAYS_ENTRY_PAYMENT'', ''max''),
                (''DAYS_ENTRY_PAYMENT'', ''mean''),
                (''AMT_INSTALMENT'', ''min''), (''AMT_INSTALMENT'', ''max''),
                (''AMT_INSTALMENT'', ''mean''), (''AMT_INSTALMENT'', ''sum''),
                (''AMT_PAYMENT'', ''min''), (''AMT_PAYMENT'', ''max''),
                (''AMT_PAYMENT'', ''mean''), (''AMT_PAYMENT'', ''sum''),
                (''PAYMENT_DIFF'', ''min''), (''PAYMENT_DIFF'', ''max''),
                (''PAYMENT_DIFF'', ''mean''), (''PAYMENT_DIFF'', ''sum''),
                (''PAYMENT_RATIO'', ''min''), (''PAYMENT_RATIO'', ''max''),
                (''PAYMENT_RATIO'', ''mean''),
                (''DAYS_PAYMENT_DELAY'', ''min''), (''DAYS_PAYMENT_DELAY'', ''max''),
                (''DAYS_PAYMENT_DELAY'', ''mean'')]"
  have pairs: "map (\<lambda>(col, f). (col, Named f)) pairs =
      concat (map (\<lambda>(col, as). map (\<lambda>a. (col, a)) as) installment_aggregations)"
    unfolding pairs_def by (rule installment_pairs)
  have table: "\<forall>(col, f)\<in>set pairs.
              \<exists>c. getitem df1 col = Inr c \<and>
                  getitem ?agg (flat_name ''INST_'' (col, f)) = agg_column ks c (Named f)"
  proof (intro ballI, clarify)
    fix col f
    assume "(col, f) \<in> set pairs"
    then have "(col, Named f) \<in> set (map (\<lambda>(col, f). (col, Named f)) pairs)"
      by (force simp only: set_map)
    then obtain as where "(col, as) \<in> set installment_aggregations" "Named f \<in> set as"
      unfolding pairs by auto
    from cell[OF this] show "\<exists>c. getitem df1 col = Inr c \<and>
                  getitem ?agg (flat_name ''INST_'' (col, f)) = agg_column ks c (Named f)"
      by simp
  qed
  have e1: "getitem df1 ''PAYMENT_DIFF'' = col_binop np_sub pay inst" by (simp add: gd1 d1)
  have e2: "getitem df1 ''PAYMENT_RATIO'' = col_binop np_div pay inst" by (simp add: gd2 d2)
  have e3: "getitem df1 ''DAYS_PAYMENT_DELAY'' = col_binop np_sub entry due"
    by (simp add: gd3 d3)
  note facts = pay inst entry due e1 e2 e3 ks key table[unfolded pairs_def] names
  show ?thesis unfolding at_d at_r
    by (intro exI[of _ pay] exI[of _ inst] exI[of _ entry] exI[of _ due] exI[of _ ks] conjI)
       (fact facts)+
qed

theorem installments_aggregation_witness:
  "columns example_inst_agg =
     [''SK_ID_CURR'', ''INST_SK_ID_PREV_COUNT'',
              ''INST_NUM_INSTALMENT_NUMBER_MAX'', ''INST_NUM_INSTALMENT_NUMBER_MEAN'',
              ''INST_NUM_INSTALMENT_VERSION_MAX'',
              ''INST_DAYS_INSTALMENT_MIN'', ''INST_DAYS_INSTALMENT_MAX'',
              ''INST_DAYS_INSTALMENT_MEAN'',
              ''INST_DAYS_ENTRY_PAYMENT_MIN'', ''INST_DAYS_ENTRY_PAYMENT_MAX'',
              ''INST_DAYS_ENTRY_PAYMENT_MEAN'',
              ''INST_AMT_INSTALMENT_MIN'', ''INST_AMT_INSTALMENT_MAX'',
              ''INST_AMT_INSTALMENT_MEAN'', ''INST_AMT_INSTALMENT_SUM'',
              ''INST_AMT_PAYMENT_MIN'', ''INST_AMT_PAYMENT_MAX'', ''INST_AMT_PAYMENT_MEAN'',
              ''INST_AMT_PAYMENT_SUM'',
              ''INST_PAYMENT_DIFF_MIN'', ''INST_PAYMENT_DIFF_MAX'', ''INST_PAYMENT_DIFF_MEAN'',
              ''INST_PAYMENT_DIFF_SUM'',
              ''INST_PAYMENT_RATIO_MIN'', ''INST_PAYMENT_RATIO_MAX'',
              ''INST_PAYMENT_RATIO_MEAN'',
              ''INST_DAYS_PAYMENT_DELAY_MIN'', ''INST_DAYS_PAYMENT_DELAY_MAX'',
              ''INST_DAYS_PAYMENT_DELAY_MEAN''] \<and>
   getitem example_installments_after ''PAYMENT_DIFF'' =
     col_binop np_sub (FloatCol [Fin 100, Fin 80, Fin 50, NaN])
       (FloatCol [Fin 100, Fin 100, Fin 50, Fin 0]) \<and>
   getitem example_inst_agg ''SK_ID_CURR'' = Inr (FloatCol (group_keys [Fin 2, Fin 2, Fin 1, Fin 2]))"
proof -
  have run: "aggregate_installments [example_installments] 0 =
               ([example_installments_after, example_inst_agg], Inr 1)"
    by code_simp
  have pay: "getitem example_installments ''AMT_PAYMENT'' =
               Inr (FloatCol [Fin 100, Fin 80, Fin 50, NaN])" by code_simp
  have inst: "getitem example_installments ''AMT_INSTALMENT'' =
               Inr (FloatCol [Fin 100, Fin 100, Fin 50, Fin 0])" by code_simp
  have key: "getitem example_installments_after ''SK_ID_CURR'' =
               Inr (FloatCol [Fin 2, Fin 2, Fin 1, Fin 2])" by code_simp
  from installments_aggregation[OF run] obtain p i ks where
    "getitem ([example_installments] ! 0) ''AMT_PAYMENT'' = Inr p"
    "getitem ([example_installments] ! 0) ''AMT_INSTALMENT'' = Inr i"
    "getitem ([example_installments_after, example_inst_agg] ! 0) ''PAYMENT_DIFF'' =
       col_binop np_sub p i"
    "getitem ([example_installments_after, example_inst_agg] ! 0) ''SK_ID_CURR'' =
       Inr (FloatCol ks)"
    "getitem ([example_installments_after, example_inst_agg] ! 1) ''SK_ID_CURR'' =
       Inr (FloatCol (group_keys ks))"
    "columns ([example_installments_after, example_inst_agg] ! 1) =
     [''SK_ID_CURR'', ''INST_SK_ID_PREV_COUNT'',
              ''INST_NUM_INSTALMENT_NUMBER_MAX'', ''INST_NUM_INSTALMENT_NUMBER_MEAN'',
              ''INST_NUM_INSTALMENT_VERSION_MAX'',
              ''INST_DAYS_INSTALMENT_MIN'', ''INST_DAYS_INSTALMENT_MAX'',
              ''INST_DAYS_INSTALMENT_MEAN'',
              ''INST_DAYS_ENTRY_PAYMENT_MIN'', ''INST_DAYS_ENTRY_PAYMENT_MAX'',
              ''INST_DAYS_ENTRY_PAYMENT_MEAN'',
              ''INST_AMT_INSTALMENT_MIN'', ''INST_AMT_INSTALMENT_MAX'',
              ''INST_AMT_INSTALMENT_MEAN'', ''INST_AMT_INSTALMENT_SUM'',
              ''INST_AMT_PAYMENT_MIN'', ''INST_AMT_PAYMENT_MAX'', ''INST_AMT_PAYMENT_MEAN'',
              ''INST_AMT_PAYMENT_SUM'',
              ''INST_PAYMENT_DIFF_MIN'', ''INST_PAYMENT_DIFF_MAX'', ''INST_PAYMENT_DIFF_MEAN'',
              ''INST_PAYMENT_DIFF_SUM'',
              ''INST_PAYMENT_RATIO_MIN'', ''INST_PAYMENT_RATIO_MAX'',
              ''INST_PAYMENT_RATIO_MEAN'',
              ''INST_DAYS_PAYMENT_DELAY_MIN'', ''INST_DAYS_PAYMENT_DELAY_MAX'',
              ''INST_DAYS_PAYMENT_DELAY_MEAN'']"
    by auto
  with pay inst key show ?thesis by simp
qed

text \<open>
  Claim C8 as stated fails: the table has no mean of the instalment version. For the
  ledger below the means of the version are 1 and 4/3 for the two applicants; the table has
  no column of that name and no column with these values.
\<close>

theorem no_mean_of_instalment_version:
  "aggregate_installments [example_installments] 0 =
     ([example_installments_after, example_inst_agg], Inr 1) \<and>
   getitem example_installments ''NUM_INSTALMENT_VERSION'' =
     Inr (FloatCol [Fin 1, Fin 2, Fin 1, Fin 1]) \<and>
   getitem example_installments ''SK_ID_CURR'' = Inr (FloatCol [Fin 2, Fin 2, Fin 1, Fin 2]) \<and>
   agg_column [Fin 2, Fin 2, Fin 1, Fin 2] (FloatCol [Fin 1, Fin 2, Fin 1, Fin 1]) (Named ''mean'') =
     Inr (FloatCol [Fin 1, Fin (4 / 3)]) \<and>
   getitem example_inst_agg (flat_name ''INST_'' (''NUM_INSTALMENT_VERSION'', ''mean'')) =
     Inl (KeyError ''INST_NUM_INSTALMENT_VERSION_MEAN'') \<and>
   FloatCol [Fin 1, Fin (4 / 3)] \<notin> set (map snd example_inst_agg)"
  by code_simp

section \<open>Properties of the training functions\<close>






text \<open>
  Claim C3 as stated fails: for the best iterations 1, 2 and 2 the mean is 5/3, which is 2
  when rounded to the nearest integer, and the code refits with 1.
\<close>

theorem best_iteration_truncated_not_rounded:
  "run_training_best_iteration True [1, 2, 2] = Inr (Some 1) \<and> spec_rounded_mean [1, 2, 2] = 2"
  by (simp add: run_training_best_iteration_def np_mean_int_def int_true_divide_def py_int_def
      spec_rounded_mean_def round_def)

text \<open>
  Claim C3, as the code has it. With cross-validation, the final refit runs for the mean of
  the per-fold best iterations truncated toward zero (the integer quotient, for counts that
  are not negative), and its callbacks hold no early stopping.
\<close>

theorem final_refit_iterations:
  assumes "cv_best \<noteq> []"
  shows "\<exists>c. run_training y_train True cv_best = Inr c \<and>
           num_boost_round c =
             (if 0 \<le> sum_list cv_best then sum_list cv_best div int (length cv_best)
              else - ((- sum_list cv_best) div int (length cv_best))) \<and>
           (\<forall>n. early_stopping n \<notin> set (callbacks c))"
proof -
  let ?s = "sum_list cv_best" and ?n = "int (length cv_best)"
  have n: "?n \<noteq> 0" using assms by simp
  have f: "\<lfloor>real_of_int ?s / real_of_int ?n\<rfloor> = ?s div ?n"
    by (simp only: floor_divide_of_int_eq)
  have "\<lceil>real_of_int ?s / real_of_int ?n\<rceil> = - \<lfloor>real_of_int (- ?s) / real_of_int ?n\<rfloor>"
    by (simp add: ceiling_def)
  also have "\<dots> = - ((- ?s) div ?n)"
    by (simp only: floor_divide_of_int_eq)
  finally have c: "\<lceil>real_of_int ?s / real_of_int ?n\<rceil> = - ((- ?s) div ?n)" .
  have sg: "0 \<le> real_of_int ?s / real_of_int ?n \<longleftrightarrow> 0 \<le> ?s"
    using n by (simp add: zero_le_divide_iff)
  show ?thesis
    using n f c sg
    by (simp add: run_training_def run_training_best_iteration_def np_mean_int_def
        int_true_divide_def py_int_def train_final_model_def Let_def)
qed

theorem final_refit_iterations_witness:
  "[120, 133, 140, 128, 131] \<noteq> ([] :: int list) \<and>
   (\<exists>c. run_training [0, 1, 0] True [120, 133, 140, 128, 131] = Inr c \<and>
      num_boost_round c = 130 \<and> (\<forall>n. early_stopping n \<notin> set (callbacks c)))"
  using final_refit_iterations [of "[120, 133, 140, 128, 131]" "[0, 1, 0]"]
  by simp

section \<open>Properties of the threshold selection\<close>









end
